(* ===== verification/Prelude.thy ===== *)
theory Prelude
  imports Main "HOL-Library.Word" "HOL-Library.Char_ord" "HOL-Library.Monad_Syntax"
    "HOL-Library.Multiset"
begin

text \<open>
  Shared vocabulary of the development: the Rust integer types, the operations of the Rust
  standard library the program uses on vectors, strings and integers, and the generic lemmas
  about them.

  A Rust panic is the value \<open>None\<close> of an \<open>option\<close>: a definition whose code can panic returns
  an \<open>option\<close> and is written in the option monad, a definition whose code cannot panic returns
  its value. Arithmetic follows the release profile of Cargo.toml: it wraps, except for the
  checks Rust keeps in every profile (division by zero, the overflow of \<open>i64::MIN / -1\<close>,
  indexing and slicing out of range), which panic.

  A \<open>String\<close> is a list of 8-bit characters. Every operation below is exact on ASCII text; a
  code point beyond ASCII is outside the model (it would need the Unicode case tables).
\<close>

unbundle bit_operations_syntax

type_synonym u8 = "8 word"
type_synonym u16 = "16 word"
type_synonym u32 = "32 word"
type_synonym u64 = "64 word"
type_synonym i64 = "64 word" \<comment> \<open>read with \<open>sint\<close>\<close>

named_theorems vec_simps \<open>laws of the vector operations\<close>
named_theorems text_simps \<open>laws of the string operations\<close>

lemma sint_inject: "sint a = sint b \<longleftrightarrow> a = (b :: i64)"
  by (auto dest: signed_word_eqI)

section \<open>Vectors\<close>

definition vec_get :: "'a list \<Rightarrow> nat \<Rightarrow> 'a option" where
  "vec_get xs i = (if i < length xs then Some (xs ! i) else None)"

definition remove_at :: "nat \<Rightarrow> 'a list \<Rightarrow> 'a list" where
  "remove_at i xs = take i xs @ drop (Suc i) xs"

definition swap_remove :: "nat \<Rightarrow> 'a list \<Rightarrow> 'a list" where
  "swap_remove i xs = butlast (xs[i := last xs])"

fun position :: "('a \<Rightarrow> bool) \<Rightarrow> 'a list \<Rightarrow> nat option" where
  "position P [] = None"
| "position P (x # xs) = (if P x then Some 0 else map_option Suc (position P xs))"

definition indices_where :: "('a \<Rightarrow> bool) \<Rightarrow> 'a list \<Rightarrow> nat list" where
  "indices_where P xs = filter (\<lambda>i. P (xs ! i)) [0..<length xs]"

text \<open>\<open>iter().map(f).collect()\<close> and \<open>filter(p)\<close> with a closure that may panic.\<close>

fun map_panic :: "('a \<Rightarrow> 'b option) \<Rightarrow> 'a list \<Rightarrow> 'b list option" where
  "map_panic f [] = Some []"
| "map_panic f (x # xs) = do { y \<leftarrow> f x; ys \<leftarrow> map_panic f xs; Some (y # ys) }"

fun filter_panic :: "('a \<Rightarrow> bool option) \<Rightarrow> 'a list \<Rightarrow> 'a list option" where
  "filter_panic p [] = Some []"
| "filter_panic p (x # xs) =
     do { b \<leftarrow> p x; ys \<leftarrow> filter_panic p xs; Some (if b then x # ys else ys) }"

text \<open>\<open>iter().any(p)\<close> stops at the first hit, so a later panic is not reached.\<close>

fun any_panic :: "('a \<Rightarrow> bool option) \<Rightarrow> 'a list \<Rightarrow> bool option" where
  "any_panic p [] = Some False"
| "any_panic p (x # xs) = do { b \<leftarrow> p x; if b then Some True else any_panic p xs }"

lemma map_panic_cong [fundef_cong]:
  "xs = ys \<Longrightarrow> (\<And>x. x \<in> set ys \<Longrightarrow> f x = g x) \<Longrightarrow> map_panic f xs = map_panic g ys"
  by (induction ys arbitrary: xs) auto

lemma any_panic_cong [fundef_cong]:
  "xs = ys \<Longrightarrow> (\<And>x. x \<in> set ys \<Longrightarrow> p x = q x) \<Longrightarrow> any_panic p xs = any_panic q ys"
  by (induction ys arbitrary: xs) (auto intro!: Option.bind_cong)

lemma map_panic_total: "(\<And>x. x \<in> set xs \<Longrightarrow> f x = Some (g x)) \<Longrightarrow> map_panic f xs = Some (map g xs)"
  by (induction xs) auto

lemma filter_panic_total:
  "(\<And>x. x \<in> set xs \<Longrightarrow> p x = Some (q x)) \<Longrightarrow> filter_panic p xs = Some (filter q xs)"
  by (induction xs) auto

lemma map_panic_length: "map_panic f xs = Some ys \<Longrightarrow> length ys = length xs"
  by (induction xs arbitrary: ys) (auto split: Option.bind_splits)

lemma vec_get_Some [vec_simps]: "vec_get xs i = Some x \<longleftrightarrow> i < length xs \<and> xs ! i = x"
  by (auto simp: vec_get_def)

lemma vec_get_None [vec_simps]: "vec_get xs i = None \<longleftrightarrow> length xs \<le> i"
  by (auto simp: vec_get_def)

lemma vec_get_map [vec_simps]: "vec_get (map f xs) i = map_option f (vec_get xs i)"
  by (simp add: vec_get_def)

lemma length_remove_at [simp]: "i < length xs \<Longrightarrow> length (remove_at i xs) = length xs - 1"
  by (simp add: remove_at_def)

lemma map_remove_at [vec_simps]: "map f (remove_at i xs) = remove_at i (map f xs)"
  by (simp add: remove_at_def take_map drop_map)

lemma nth_remove_at [vec_simps]:
  "i < length xs \<Longrightarrow> j < length xs - 1 \<Longrightarrow>
     remove_at i xs ! j = (if j < i then xs ! j else xs ! Suc j)"
  by (auto simp: remove_at_def nth_append min_def)

lemma mset_remove_at: "i < length xs \<Longrightarrow> mset (remove_at i xs) = mset xs - {#xs ! i#}"
proof -
  assume "i < length xs"
  then have "mset xs = mset (take i xs @ xs ! i # drop (Suc i) xs)"
    by (simp add: id_take_nth_drop [symmetric])
  then show ?thesis by (simp add: remove_at_def)
qed

lemma length_swap_remove [simp]: "length (swap_remove i xs) = length xs - 1"
  by (simp add: swap_remove_def)

lemma swap_remove_map [vec_simps]: "xs \<noteq> [] \<Longrightarrow> swap_remove i (map f xs) = map f (swap_remove i xs)"
  by (simp add: swap_remove_def map_butlast map_update last_map)

lemma nth_swap_remove [vec_simps]:
  "i < length xs \<Longrightarrow> j < length xs - 1 \<Longrightarrow>
     swap_remove i xs ! j = (if j = i then xs ! (length xs - 1) else xs ! j)"
  by (cases "xs = []") (auto simp: swap_remove_def nth_butlast last_conv_nth nth_list_update)

lemma mset_swap_remove:
  assumes "i < length xs"
  shows "mset (swap_remove i xs) = mset xs - {#xs ! i#}"
proof -
  have ne: "xs \<noteq> []" using assms by auto
  have len: "length (xs[i := last xs]) = length xs" by simp
  have last_eq: "last (xs[i := last xs]) = last xs"
    using ne assms by (simp add: last_conv_nth nth_list_update)
  have "mset (xs[i := last xs]) = add_mset (last xs) (mset (butlast (xs[i := last xs])))"
    using ne last_eq
    by (metis append_butlast_last_id list_update_nonempty mset_append mset_single_iff_right
        union_mset_add_mset_right add.right_neutral mset.simps(1) mset.simps(2))
  moreover have "mset (xs[i := last xs]) = add_mset (last xs) (mset xs - {#xs ! i#})"
    using assms by (simp add: mset_update)
  ultimately show ?thesis by (simp add: swap_remove_def)
qed

lemma position_Some:
  "position P xs = Some i \<longleftrightarrow> i < length xs \<and> P (xs ! i) \<and> (\<forall>j<i. \<not> P (xs ! j))"
proof (induction xs arbitrary: i)
  case Nil
  then show ?case by simp
next
  case (Cons x xs)
  then show ?case
    by (cases i) (auto simp: less_Suc_eq_0_disj)
qed

lemma position_None: "position P xs = None \<longleftrightarrow> (\<forall>x\<in>set xs. \<not> P x)"
  by (induction xs) auto

lemma set_indices_where: "i \<in> set (indices_where P xs) \<longleftrightarrow> i < length xs \<and> P (xs ! i)"
  by (auto simp: indices_where_def)

lemma indices_where_append:
  "indices_where P (xs @ ys) =
     indices_where P xs @ map (\<lambda>i. length xs + i) (indices_where P ys)"
proof -
  have "[0..<length (xs @ ys)] = [0..<length xs] @ map (\<lambda>i. length xs + i) [0..<length ys]"
    using map_add_upt [of "length xs" "length ys"]
      upt_add_eq_append [of 0 "length xs" "length ys"]
    by (simp add: add.commute)
  moreover have "filter (\<lambda>i. P ((xs @ ys) ! i)) [0..<length xs] = filter (\<lambda>i. P (xs ! i)) [0..<length xs]"
    by (rule filter_cong) (auto simp: nth_append)
  ultimately show ?thesis
    by (simp add: indices_where_def filter_map comp_def nth_append)
qed

lemma map_nth_indices_where: "map ((!) xs) (indices_where P xs) = filter P xs"
proof -
  have "filter P (map ((!) xs) [0..<length xs]) = map ((!) xs) (filter (P \<circ> (!) xs) [0..<length xs])"
    by (rule filter_map)
  then show ?thesis by (simp add: map_nth indices_where_def comp_def)
qed

end
