(* ===== verification/Rust_Text.thy ===== *)
theory Rust_Text
  imports Prelude
begin

text \<open>
  The string operations of the Rust standard library the program calls (\<open>str::find\<close>,
  \<open>trim_matches\<close>, \<open>split\<close>, \<open>to_uppercase\<close>, \<open>eq_ignore_ascii_case\<close>, \<open>parse::<i64>\<close>,
  \<open>to_string\<close>, the zero-padded formats), over ASCII text, with the laws the components use:
  printing an integer and parsing it back, injectivity of printing, and what a found
  substring position means.
\<close>

section \<open>Characters\<close>

definition is_lower :: "char \<Rightarrow> bool" where
  "is_lower c \<longleftrightarrow> 97 \<le> (of_char c :: nat) \<and> (of_char c :: nat) \<le> 122"

definition is_upper :: "char \<Rightarrow> bool" where
  "is_upper c \<longleftrightarrow> 65 \<le> (of_char c :: nat) \<and> (of_char c :: nat) \<le> 90"

definition is_digit :: "char \<Rightarrow> bool" where
  "is_digit c \<longleftrightarrow> 48 \<le> (of_char c :: nat) \<and> (of_char c :: nat) \<le> 57"

definition is_ws :: "char \<Rightarrow> bool" where
  "is_ws c \<longleftrightarrow> (of_char c :: nat) = 32 \<or> 9 \<le> (of_char c :: nat) \<and> (of_char c :: nat) \<le> 13"

definition upper_char :: "char \<Rightarrow> char" where
  "upper_char c = (if is_lower c then char_of ((of_char c :: nat) - 32) else c)"

definition lower_char :: "char \<Rightarrow> char" where
  "lower_char c = (if is_upper c then char_of ((of_char c :: nat) + 32) else c)"

definition digit_char :: "nat \<Rightarrow> char" where
  "digit_char d = char_of (48 + d)"

definition digit_val :: "char \<Rightarrow> nat" where
  "digit_val c = (of_char c :: nat) - 48"

lemma digit_char [text_simps]:
  assumes "d < 10"
  shows "is_digit (digit_char d)" and "digit_val (digit_char d) = d"
  using assms by (simp_all add: is_digit_def digit_char_def digit_val_def)

lemma lower_upper_char [text_simps]: "lower_char (upper_char c) = lower_char c"
proof (cases "is_lower c")
  case True
  then have "(of_char c :: nat) - 32 < 256" and "65 \<le> (of_char c :: nat) - 32"
    and "(of_char c :: nat) - 32 \<le> 90" and "(of_char c :: nat) - 32 + 32 = of_char c"
    and "\<not> is_upper c"
    by (auto simp: is_lower_def is_upper_def)
  then show ?thesis
    using True by (simp add: upper_char_def lower_char_def is_upper_def)
next
  case False
  then show ?thesis by (simp add: upper_char_def)
qed

lemma lower_char_idem [text_simps]: "lower_char (lower_char c) = lower_char c"
  by (auto simp: lower_char_def is_upper_def)

section \<open>Strings\<close>

definition to_upper :: "string \<Rightarrow> string" where "to_upper s = map upper_char s"
definition to_lower :: "string \<Rightarrow> string" where "to_lower s = map lower_char s"

definition eq_ignore_case :: "string \<Rightarrow> string \<Rightarrow> bool" where
  "eq_ignore_case a b \<longleftrightarrow> to_lower a = to_lower b"

lemma eq_ignore_case_refl [simp]: "eq_ignore_case a a"
  by (simp add: eq_ignore_case_def)

lemma eq_ignore_case_sym: "eq_ignore_case a b \<Longrightarrow> eq_ignore_case b a"
  by (simp add: eq_ignore_case_def)

lemma eq_ignore_case_trans: "eq_ignore_case a b \<Longrightarrow> eq_ignore_case b c \<Longrightarrow> eq_ignore_case a c"
  by (simp add: eq_ignore_case_def)

lemma eq_ignore_case_upper [text_simps]: "eq_ignore_case (to_upper a) a"
  by (simp add: eq_ignore_case_def to_lower_def to_upper_def text_simps)

definition trim_start_by :: "(char \<Rightarrow> bool) \<Rightarrow> string \<Rightarrow> string" where
  "trim_start_by p s = dropWhile p s"

definition trim_end_by :: "(char \<Rightarrow> bool) \<Rightarrow> string \<Rightarrow> string" where
  "trim_end_by p s = rev (dropWhile p (rev s))"

definition trim :: "string \<Rightarrow> string" where
  "trim s = trim_end_by is_ws (trim_start_by is_ws s)"

definition trim_char :: "char \<Rightarrow> string \<Rightarrow> string" where
  "trim_char c s = trim_end_by (\<lambda>x. x = c) (trim_start_by (\<lambda>x. x = c) s)"

definition starts_with :: "string \<Rightarrow> string \<Rightarrow> bool" where
  "starts_with p s \<longleftrightarrow> take (length p) s = p"

definition ends_with :: "string \<Rightarrow> string \<Rightarrow> bool" where
  "ends_with p s \<longleftrightarrow> starts_with (rev p) (rev s)"

fun find_sub :: "string \<Rightarrow> string \<Rightarrow> nat option" where
  "find_sub p [] = (if p = [] then Some 0 else None)"
| "find_sub p (c # cs) =
     (if starts_with p (c # cs) then Some 0 else map_option Suc (find_sub p cs))"

definition contains :: "string \<Rightarrow> string \<Rightarrow> bool" where
  "contains p s \<longleftrightarrow> find_sub p s \<noteq> None"

definition find_char :: "(char \<Rightarrow> bool) \<Rightarrow> string \<Rightarrow> nat option" where
  "find_char p s = position p s"

text \<open>\<open>trim_start_matches(\<open>str\<close>)\<close> strips the pattern as often as it is a prefix.\<close>

function trim_start_str :: "string \<Rightarrow> string \<Rightarrow> string" where
  "trim_start_str p s =
     (if p \<noteq> [] \<and> starts_with p s then trim_start_str p (drop (length p) s) else s)"
  by pat_completeness auto
termination
proof (relation "measure (\<lambda>(p, s). length s)")
  fix p s :: string
  assume "p \<noteq> [] \<and> starts_with p s"
  then have "0 < length p" and "0 < length s"
    by (auto simp: starts_with_def)
  then show "((p, drop (length p) s), p, s) \<in> measure (\<lambda>(p, s). length s)"
    by simp
qed simp

declare trim_start_str.simps [simp del]

fun split_char :: "char \<Rightarrow> string \<Rightarrow> string list" where
  "split_char d [] = [[]]"
| "split_char d (c # cs) =
     (if c = d then [] # split_char d cs
      else (case split_char d cs of [] \<Rightarrow> [[c]] | w # ws \<Rightarrow> (c # w) # ws))"

text \<open>\<open>splitn(n, d)\<close>: at most \<open>n\<close> pieces, the last one unsplit.\<close>

fun splitn_char :: "nat \<Rightarrow> char \<Rightarrow> string \<Rightarrow> string list" where
  "splitn_char 0 d s = []"
| "splitn_char (Suc 0) d s = [s]"
| "splitn_char (Suc (Suc n)) d s =
     (case position (\<lambda>c. c = d) s of
        None \<Rightarrow> [s]
      | Some i \<Rightarrow> take i s # splitn_char (Suc n) d (drop (Suc i) s))"

fun split_ws_aux :: "string \<Rightarrow> string \<Rightarrow> string list" where
  "split_ws_aux acc [] = (if acc = [] then [] else [rev acc])"
| "split_ws_aux acc (c # cs) =
     (if is_ws c then (if acc = [] then [] else [rev acc]) @ split_ws_aux [] cs
      else split_ws_aux (c # acc) cs)"

definition split_whitespace :: "string \<Rightarrow> string list" where
  "split_whitespace s = split_ws_aux [] s"

fun join :: "string \<Rightarrow> string list \<Rightarrow> string" where
  "join sep [] = []"
| "join sep [w] = w"
| "join sep (w # w' # ws) = w @ sep @ join sep (w' # ws)"

text \<open>\<open>str::lines\<close>: split at newlines, a carriage return before one dropped, no empty last line.\<close>

definition strip_cr :: "string \<Rightarrow> string" where
  "strip_cr l = (if l \<noteq> [] \<and> last l = char_of (13 :: nat) then butlast l else l)"

definition lines :: "string \<Rightarrow> string list" where
  "lines s =
     (let ws = split_char (char_of (10 :: nat)) s
      in (if last ws = [] then map strip_cr (butlast ws)
          else map strip_cr (butlast ws) @ [last ws]))"

lemma split_char_not_Nil [simp]: "split_char d s \<noteq> []"
  by (induction s) (auto split: list.splits)

lemma join_split_char: "join [d] (split_char d s) = s"
proof (induction s)
  case Nil
  then show ?case by simp
next
  case (Cons c cs)
  obtain w ws where w: "split_char d cs = w # ws"
    by (metis neq_Nil_conv split_char_not_Nil)
  with Cons show ?case
    by (cases ws) auto
qed

lemma split_char_pieces: "w \<in> set (split_char d s) \<Longrightarrow> d \<notin> set w"
  by (induction s arbitrary: w) (auto split: list.splits if_splits)

lemma starts_with_append [simp]: "starts_with p (p @ s)"
  by (simp add: starts_with_def)

lemma starts_with_iff: "starts_with p s \<longleftrightarrow> (\<exists>r. s = p @ r)"
  by (metis append_take_drop_id starts_with_append starts_with_def)

lemma find_sub_Some:
  "find_sub p s = Some i \<Longrightarrow> s = take i s @ p @ drop (i + length p) s \<and> i + length p \<le> length s"
proof (induction s arbitrary: i)
  case Nil
  then show ?case by (simp split: if_splits)
next
  case (Cons c cs)
  show ?case
  proof (cases "starts_with p (c # cs)")
    case True
    with Cons.prems have "i = 0" by simp
    moreover from True obtain r where "c # cs = p @ r" by (auto simp: starts_with_iff)
    moreover from this have "length p \<le> length (c # cs)" by simp
    ultimately show ?thesis by simp
  next
    case False
    with Cons.prems obtain j where "find_sub p cs = Some j" and "i = Suc j" by auto
    with Cons.IH show ?thesis by auto
  qed
qed

lemma find_sub_None: "find_sub p s = None \<Longrightarrow> s \<noteq> a @ p @ b"
proof (induction s arbitrary: a)
  case Nil
  then show ?case by (auto split: if_splits)
next
  case (Cons c cs)
  from Cons.prems have no: "\<not> starts_with p (c # cs)" and "find_sub p cs = None"
    by (auto split: if_splits)
  with Cons.IH show ?case
    by (cases a) (auto simp: starts_with_iff)
qed

lemma contains_iff: "contains p s \<longleftrightarrow> (\<exists>a b. s = a @ p @ b)"
proof
  assume "contains p s"
  then obtain i where "find_sub p s = Some i" by (auto simp: contains_def)
  then show "\<exists>a b. s = a @ p @ b" using find_sub_Some by blast
next
  assume "\<exists>a b. s = a @ p @ b"
  then have "find_sub p s \<noteq> None" by (metis find_sub_None)
  then show "contains p s" by (simp add: contains_def)
qed

lemma trim_char_id: "c \<notin> set s \<Longrightarrow> trim_char c s = s"
proof -
  assume c: "c \<notin> set s"
  have "dropWhile (\<lambda>x. x = c) xs = xs" if "c \<notin> set xs" for xs
    using that by (cases xs) auto
  with c show ?thesis by (simp add: trim_char_def trim_start_by_def trim_end_by_def)
qed

section \<open>Integers as decimal text\<close>

fun show_nat :: "nat \<Rightarrow> string" where
  "show_nat n = (if n < 10 then [digit_char n] else show_nat (n div 10) @ [digit_char (n mod 10)])"

declare show_nat.simps [simp del]

definition show_int :: "int \<Rightarrow> string" where
  "show_int i = (if i < 0 then CHR ''-'' # show_nat (nat (- i)) else show_nat (nat i))"

definition show_i64 :: "i64 \<Rightarrow> string" where "show_i64 n = show_int (sint n)"
definition show_u64 :: "u64 \<Rightarrow> string" where "show_u64 n = show_nat (unat n)"

definition digits_val :: "string \<Rightarrow> nat" where
  "digits_val s = foldl (\<lambda>a c. 10 * a + digit_val c) 0 s"

definition parse_nat :: "string \<Rightarrow> nat option" where
  "parse_nat s = (if s \<noteq> [] \<and> list_all is_digit s then Some (digits_val s) else None)"

text \<open>\<open>i64::from_str\<close>: an optional sign, at least one digit, the value in range.\<close>

definition parse_int :: "string \<Rightarrow> int option" where
  "parse_int s =
     (case s of
        [] \<Rightarrow> None
      | c # cs \<Rightarrow>
          if c = CHR ''-'' then map_option (\<lambda>n. - int n) (parse_nat cs)
          else if c = CHR ''+'' then map_option int (parse_nat cs)
          else map_option int (parse_nat s))"

definition parse_i64 :: "string \<Rightarrow> i64 option" where
  "parse_i64 s =
     (case parse_int s of
        None \<Rightarrow> None
      | Some i \<Rightarrow> if - (2 ^ 63) \<le> i \<and> i < 2 ^ 63 then Some (word_of_int i) else None)"

text \<open>\<open>usize::from_str\<close> and \<open>u32::from_str\<close>: an optional plus, digits, the value in range.\<close>

definition parse_unsigned :: "nat \<Rightarrow> string \<Rightarrow> nat option" where
  "parse_unsigned w s =
     (case parse_nat (case s of CHR ''+'' # cs \<Rightarrow> cs | _ \<Rightarrow> s) of
        None \<Rightarrow> None
      | Some n \<Rightarrow> if n < 2 ^ w then Some n else None)"

text \<open>The format \<open>{:0w}\<close>: zeros after the sign, up to width \<open>w\<close>.\<close>

definition pad0 :: "nat \<Rightarrow> string \<Rightarrow> string" where
  "pad0 w s = replicate (w - length s) CHR ''0'' @ s"

definition show_pad :: "nat \<Rightarrow> int \<Rightarrow> string" where
  "show_pad w i =
     (if i < 0 then CHR ''-'' # pad0 (w - 1) (show_nat (nat (- i))) else pad0 w (show_nat (nat i)))"

lemma show_nat_not_Nil [simp]: "show_nat n \<noteq> []"
  by (subst show_nat.simps) simp

lemma show_nat_digits: "list_all is_digit (show_nat n)"
proof (induction n rule: show_nat.induct)
  case (1 n)
  then show ?case
    by (cases "n < 10") (simp_all add: show_nat.simps [of n] digit_char)
qed

lemma digits_val_snoc: "digits_val (s @ [c]) = 10 * digits_val s + digit_val c"
  by (simp add: digits_val_def)

lemma digits_val_show_nat: "digits_val (show_nat n) = n"
proof (induction n rule: show_nat.induct)
  case (1 n)
  show ?case
  proof (cases "n < 10")
    case True
    then show ?thesis by (simp add: show_nat.simps [of n] digits_val_def digit_char)
  next
    case False
    with 1 show ?thesis
      by (simp add: show_nat.simps [of n] digits_val_snoc digit_char)
  qed
qed

lemma parse_nat_show_nat [simp]: "parse_nat (show_nat n) = Some n"
  by (simp add: parse_nat_def show_nat_digits digits_val_show_nat)

lemma show_nat_hd: "show_nat n = c # cs \<Longrightarrow> is_digit c"
  using show_nat_digits [of n] by simp

lemma not_digit_sign [simp]: "\<not> is_digit CHR ''-''" "\<not> is_digit CHR ''+''"
  by (simp_all add: is_digit_def)

lemma parse_int_show_int [simp]: "parse_int (show_int i) = Some i"
proof (cases "i < 0")
  case True
  then show ?thesis by (simp add: show_int_def parse_int_def)
next
  case False
  obtain c cs where c: "show_nat (nat i) = c # cs" by (cases "show_nat (nat i)") auto
  then have "is_digit c" by (rule show_nat_hd)
  then have "c \<noteq> CHR ''-''" "c \<noteq> CHR ''+''" by auto
  then show ?thesis
    using False parse_nat_show_nat [of "nat i"] by (simp add: show_int_def parse_int_def c)
qed

lemma sint_i64_range: "- (2 ^ 63) \<le> sint (n :: i64)" "sint (n :: i64) < 2 ^ 63"
  using sint_ge [of n] sint_less [of n] by simp_all

lemma parse_i64_show [simp]: "parse_i64 (show_i64 n) = Some n"
  using sint_i64_range [of n] by (simp add: parse_i64_def show_i64_def)

lemma show_i64_inject [simp]: "show_i64 m = show_i64 n \<longleftrightarrow> m = n"
  by (metis option.inject parse_i64_show)

lemma show_nat_inject [simp]: "show_nat m = show_nat n \<longleftrightarrow> m = n"
  by (metis option.inject parse_nat_show_nat)

lemma show_i64_not_Nil [simp]: "show_i64 n \<noteq> []"
  by (simp add: show_i64_def show_int_def)

lemma length_show_nat: "0 < k \<Longrightarrow> n < 10 ^ k \<Longrightarrow> length (show_nat n) \<le> k"
proof (induction k arbitrary: n)
  case 0
  then show ?case by simp
next
  case (Suc k)
  show ?case
  proof (cases "n < 10")
    case True
    then show ?thesis by (simp add: show_nat.simps [of n])
  next
    case False
    with Suc.prems have "0 < k" by (cases k) auto
    moreover have "n div 10 < 10 ^ k"
      using Suc.prems by (simp add: less_mult_imp_div_less mult.commute)
    ultimately have "length (show_nat (n div 10)) \<le> k" by (rule Suc.IH)
    with False show ?thesis by (simp add: show_nat.simps [of n])
  qed
qed

lemma length_show_i64: "length (show_i64 n) \<le> 20"
proof -
  have "nat (- sint n) < 10 ^ 19" and "nat (sint n) < 10 ^ 19"
    using sint_i64_range [of n] by simp_all
  then have "length (show_nat (nat (- sint n))) \<le> 19" "length (show_nat (nat (sint n))) \<le> 19"
    by (simp_all add: length_show_nat)
  then show ?thesis by (simp add: show_i64_def show_int_def)
qed

lemma digits_val_zeros: "digits_val (replicate k CHR ''0'' @ s) = digits_val s"
proof -
  have "foldl (\<lambda>a c. 10 * a + digit_val c) 0 (replicate k CHR ''0'') = 0"
    by (induction k) (simp_all add: digit_val_def)
  then show ?thesis by (simp add: digits_val_def)
qed

lemma parse_nat_pad0 [simp]: "parse_nat (pad0 w (show_nat n)) = Some n"
proof -
  have "list_all is_digit (replicate k CHR ''0'')" for k
    by (induction k) (simp_all add: is_digit_def)
  then show ?thesis
    by (simp add: parse_nat_def pad0_def show_nat_digits digits_val_zeros digits_val_show_nat)
qed

lemma split_char_line: "d \<notin> set a \<Longrightarrow> split_char d (a @ d # b) = a # split_char d b"
  by (induction a) auto

lemma split_char_none: "d \<notin> set a \<Longrightarrow> split_char d a = [a]"
  by (induction a) auto

lemma trim_words: "(\<And>c. c \<in> set t \<Longrightarrow> \<not> is_ws c) \<Longrightarrow> trim t = t" "trim (CHR '' '' # s) = trim s"
proof -
  show "trim (CHR '' '' # s) = trim s" by (simp add: trim_def trim_start_by_def is_ws_def)
  assume t: "\<And>c. c \<in> set t \<Longrightarrow> \<not> is_ws c"
  then have "dropWhile is_ws t = t" "dropWhile is_ws (rev t) = rev t"
    by (metis dropWhile_eq_self_iff hd_in_set, metis dropWhile_eq_self_iff hd_in_set set_rev)
  then show "trim t = t" by (simp add: trim_def trim_start_by_def trim_end_by_def)
qed

lemma parse_unsigned_show [simp]: "n < 2 ^ w \<Longrightarrow> parse_unsigned w (show_nat n) = Some n"
proof -
  assume n: "n < 2 ^ w"
  have "(case show_nat n of CHR ''+'' # cs \<Rightarrow> cs | _ \<Rightarrow> show_nat n) = show_nat n"
    using show_nat_hd [of n "CHR ''+''"] by (auto split: list.split char.split bool.split)
  then show ?thesis using n by (simp add: parse_unsigned_def)
qed

end
