(* ===== verification/Ieee_Double.thy ===== *)
theory Ieee_Double
  imports Rust_Text
begin

text \<open>
  The Rust type \<open>f64\<close>: an IEEE 754 double kept as its 64 bits, with the operations of the
  standard library the engine applies to it. A finite double is a sign, a mantissa and a
  binary exponent; arithmetic is exact on these and rounded once, to nearest with ties to
  even. Printing gives the shortest decimal that reads back as the same double, without an
  exponent, as \<open>Display\<close> does; parsing follows the grammar of \<open>f64::from_str\<close>.
\<close>

section \<open>Orderings\<close>

datatype ordering = Less | Equal | Greater

fun rev_ord :: "ordering \<Rightarrow> ordering" where
  "rev_ord Less = Greater"
| "rev_ord Equal = Equal"
| "rev_ord Greater = Less"

lemma rev_ord_eq [simp]:
  "rev_ord x = Less \<longleftrightarrow> x = Greater" "rev_ord x = Equal \<longleftrightarrow> x = Equal"
  "rev_ord x = Greater \<longleftrightarrow> x = Less" "rev_ord (rev_ord x) = x"
  by (cases x; simp)+

definition cmp_int :: "int \<Rightarrow> int \<Rightarrow> ordering" where
  "cmp_int a b = (if a < b then Less else if a = b then Equal else Greater)"

lemma cmp_int_simps [simp]:
  "cmp_int a b = Equal \<longleftrightarrow> a = b" "cmp_int a b = Less \<longleftrightarrow> a < b"
  "cmp_int a b = Greater \<longleftrightarrow> b < a" "rev_ord (cmp_int a b) = cmp_int b a"
  by (auto simp: cmp_int_def)

fun cmp_str :: "string \<Rightarrow> string \<Rightarrow> ordering" where
  "cmp_str [] [] = Equal"
| "cmp_str [] (_ # _) = Less"
| "cmp_str (_ # _) [] = Greater"
| "cmp_str (a # as) (b # bs) =
     (if (of_char a :: nat) < of_char b then Less
      else if (of_char b :: nat) < of_char a then Greater
      else cmp_str as bs)"

lemma cmp_str_Equal [simp]: "cmp_str a b = Equal \<longleftrightarrow> a = b"
  by (induction a b rule: cmp_str.induct) (auto simp: not_less order.antisym)

lemma cmp_str_rev [simp]: "rev_ord (cmp_str a b) = cmp_str b a"
  by (induction a b rule: cmp_str.induct) auto

section \<open>Representation and rounding\<close>

datatype f64 = F64 (f64_bits: u64)

datatype f64_view = FNaN | FInf bool | FFin bool nat int
  \<comment> \<open>\<open>FFin s m e\<close> is \<open>(-1)^s * m * 2^e\<close>\<close>

definition view :: "f64 \<Rightarrow> f64_view" where
  "view x =
     (let b = unat (f64_bits x); s = (2 ^ 63 \<le> b);
          e = (b div 2 ^ 52) mod 2048; f = b mod 2 ^ 52
      in if e = 2047 then (if f = 0 then FInf s else FNaN)
         else if e = 0 then FFin s f (- 1074)
         else FFin s (2 ^ 52 + f) (int e - 1075))"

definition with_sign :: "bool \<Rightarrow> nat \<Rightarrow> f64" where
  "with_sign s b = F64 (of_nat (if s then 2 ^ 63 + b else b))"

definition f64_zero :: "bool \<Rightarrow> f64" where "f64_zero s = with_sign s 0"
definition f64_inf :: "bool \<Rightarrow> f64" where "f64_inf s = with_sign s (2047 * 2 ^ 52)"
definition f64_nan :: f64 where "f64_nan = F64 0x7FF8000000000000"

fun bitlen :: "nat \<Rightarrow> nat" where
  "bitlen n = (if n = 0 then 0 else Suc (bitlen (n div 2)))"

declare bitlen.simps [simp del]

text \<open>The double nearest to \<open>num / den\<close>.\<close>

definition round_ratio :: "bool \<Rightarrow> nat \<Rightarrow> nat \<Rightarrow> f64" where
  "round_ratio s num den =
     (if num = 0 then f64_zero s
      else
        let lb = int (bitlen num) - int (bitlen den);
            e1 = (if den * 2 ^ nat lb \<le> num * 2 ^ nat (- lb) then lb - 52 else lb - 53);
            e = max e1 (- 1074);
            n = num * 2 ^ nat (- e);
            d = den * 2 ^ nat e;
            q = n div d;
            r = n mod d;
            q' = (if d < 2 * r \<or> d = 2 * r \<and> odd q then Suc q else q);
            b = q' + nat (e + 1074) * 2 ^ 52
        in if 2047 * 2 ^ 52 \<le> b then f64_inf s else with_sign s b)"

definition round_dyadic :: "bool \<Rightarrow> nat \<Rightarrow> int \<Rightarrow> f64" where
  "round_dyadic s m e = round_ratio s (m * 2 ^ nat e) (2 ^ nat (- e))"

definition round_decimal :: "bool \<Rightarrow> nat \<Rightarrow> int \<Rightarrow> f64" where
  "round_decimal s d p = round_ratio s (d * 10 ^ nat p) (10 ^ nat (- p))"

definition f64_of_int :: "int \<Rightarrow> f64" where
  "f64_of_int i = round_ratio (i < 0) (nat \<bar>i\<bar>) 1"

section \<open>Arithmetic\<close>

definition signed :: "bool \<Rightarrow> nat \<Rightarrow> int" where
  "signed s m = (if s then - int m else int m)"

definition f64_neg :: "f64 \<Rightarrow> f64" where
  "f64_neg x = F64 (f64_bits x XOR 0x8000000000000000)"

definition f64_abs :: "f64 \<Rightarrow> f64" where
  "f64_abs x = F64 (f64_bits x AND 0x7FFFFFFFFFFFFFFF)"

definition f64_add :: "f64 \<Rightarrow> f64 \<Rightarrow> f64" where
  "f64_add x y =
     (case (view x, view y) of
        (FNaN, _) \<Rightarrow> f64_nan
      | (_, FNaN) \<Rightarrow> f64_nan
      | (FInf s, FInf s') \<Rightarrow> if s = s' then f64_inf s else f64_nan
      | (FInf s, _) \<Rightarrow> f64_inf s
      | (_, FInf s) \<Rightarrow> f64_inf s
      | (FFin s m e, FFin s' m' e') \<Rightarrow>
          let e0 = min e e';
              c = signed s m * 2 ^ nat (e - e0) + signed s' m' * 2 ^ nat (e' - e0)
          in if c = 0 then f64_zero (s \<and> s') else round_dyadic (c < 0) (nat \<bar>c\<bar>) e0)"

definition f64_sub :: "f64 \<Rightarrow> f64 \<Rightarrow> f64" where
  "f64_sub x y = f64_add x (f64_neg y)"

definition f64_mul :: "f64 \<Rightarrow> f64 \<Rightarrow> f64" where
  "f64_mul x y =
     (case (view x, view y) of
        (FNaN, _) \<Rightarrow> f64_nan
      | (_, FNaN) \<Rightarrow> f64_nan
      | (FInf s, FInf s') \<Rightarrow> f64_inf (s \<noteq> s')
      | (FInf s, FFin s' m _) \<Rightarrow> if m = 0 then f64_nan else f64_inf (s \<noteq> s')
      | (FFin s m _, FInf s') \<Rightarrow> if m = 0 then f64_nan else f64_inf (s \<noteq> s')
      | (FFin s m e, FFin s' m' e') \<Rightarrow> round_dyadic (s \<noteq> s') (m * m') (e + e'))"

definition f64_div :: "f64 \<Rightarrow> f64 \<Rightarrow> f64" where
  "f64_div x y =
     (case (view x, view y) of
        (FNaN, _) \<Rightarrow> f64_nan
      | (_, FNaN) \<Rightarrow> f64_nan
      | (FInf s, FInf s') \<Rightarrow> f64_nan
      | (FInf s, FFin s' _ _) \<Rightarrow> f64_inf (s \<noteq> s')
      | (FFin s _ _, FInf s') \<Rightarrow> f64_zero (s \<noteq> s')
      | (FFin s m e, FFin s' m' e') \<Rightarrow>
          if m' = 0 then (if m = 0 then f64_nan else f64_inf (s \<noteq> s'))
          else round_ratio (s \<noteq> s') (m * 2 ^ nat (e - e')) (m' * 2 ^ nat (e' - e)))"

definition f64_rem :: "f64 \<Rightarrow> f64 \<Rightarrow> f64" where
  "f64_rem x y =
     (case (view x, view y) of
        (FNaN, _) \<Rightarrow> f64_nan
      | (_, FNaN) \<Rightarrow> f64_nan
      | (FInf _, _) \<Rightarrow> f64_nan
      | (FFin _ _ _, FInf _) \<Rightarrow> x
      | (FFin s m e, FFin _ m' e') \<Rightarrow>
          if m' = 0 then f64_nan
          else let e0 = min e e'
               in round_dyadic s ((m * 2 ^ nat (e - e0)) mod (m' * 2 ^ nat (e' - e0))) e0)"

section \<open>Comparison and conversion\<close>

definition f64_partial_cmp :: "f64 \<Rightarrow> f64 \<Rightarrow> ordering option" where
  "f64_partial_cmp x y =
     (case (view x, view y) of
        (FNaN, _) \<Rightarrow> None
      | (_, FNaN) \<Rightarrow> None
      | (FInf s, FInf s') \<Rightarrow> Some (cmp_int (if s then - 1 else 1) (if s' then - 1 else 1))
      | (FInf s, FFin _ _ _) \<Rightarrow> Some (if s then Less else Greater)
      | (FFin _ _ _, FInf s) \<Rightarrow> Some (if s then Greater else Less)
      | (FFin s m e, FFin s' m' e') \<Rightarrow>
          let e0 = min e e'
          in Some (cmp_int (signed s m * 2 ^ nat (e - e0)) (signed s' m' * 2 ^ nat (e' - e0))))"

definition f64_is_zero :: "f64 \<Rightarrow> bool" where
  "f64_is_zero x \<longleftrightarrow> f64_partial_cmp x (f64_zero False) = Some Equal"

text \<open>\<open>f as i64\<close>: truncation towards zero, saturating, NaN to 0.\<close>

definition f64_trunc :: "f64 \<Rightarrow> int option" where
  "f64_trunc x =
     (case view x of
        FFin s m e \<Rightarrow> Some (signed s ((m * 2 ^ nat e) div 2 ^ nat (- e)))
      | _ \<Rightarrow> None)"

definition f64_to_i64 :: "f64 \<Rightarrow> i64" where
  "f64_to_i64 x =
     (case view x of
        FNaN \<Rightarrow> 0
      | FInf s \<Rightarrow> word_of_int (if s then - (2 ^ 63) else 2 ^ 63 - 1)
      | FFin s m e \<Rightarrow>
          word_of_int (max (- (2 ^ 63)) (min (2 ^ 63 - 1) (signed s ((m * 2 ^ nat e) div 2 ^ nat (- e))))))"

section \<open>Decimal text\<close>

definition dec_digits :: "nat \<Rightarrow> nat \<Rightarrow> nat" where \<comment> \<open>digits before the point of a ratio \<open>\<ge> 1\<close>\<close>
  "dec_digits num den = length (show_nat (num div den))"

fun lead_zeros :: "nat \<Rightarrow> nat \<Rightarrow> nat \<Rightarrow> nat" where \<comment> \<open>zeros after the point of a ratio \<open>< 1\<close>\<close>
  "lead_zeros 0 num den = 0"
| "lead_zeros (Suc k) num den =
     (if den \<le> num * 10 then 0 else Suc (lead_zeros k (num * 10) den))"

definition dec_exp :: "nat \<Rightarrow> nat \<Rightarrow> int" where
  "dec_exp num den =
     (if den \<le> num then int (dec_digits num den) else - int (lead_zeros 400 num den))"

text \<open>Among the two \<open>n\<close>-digit decimals around the value, those that read back as \<open>x\<close>.\<close>

definition shortest_at :: "f64 \<Rightarrow> nat \<Rightarrow> nat \<Rightarrow> int \<Rightarrow> nat \<Rightarrow> (nat \<times> int) option" where
  "shortest_at x num den k n =
     (let p = k - int n;
          a = num * 10 ^ nat (- p);
          b = den * 10 ^ nat p;
          c = a div b;
          lo = (round_decimal False c p = x);
          hi = (round_decimal False (Suc c) p = x)
      in if lo \<and> hi then Some (if b \<le> 2 * (a mod b) then Suc c else c, p)
         else if lo then Some (c, p)
         else if hi then Some (Suc c, p)
         else None)"

fun shortest_from :: "f64 \<Rightarrow> nat \<Rightarrow> nat \<Rightarrow> int \<Rightarrow> nat \<Rightarrow> nat \<Rightarrow> nat \<times> int" where
  "shortest_from x num den k 0 n = ((num * 10 ^ nat (int n - k)) div (den * 10 ^ nat (k - int n)), k - int n)"
| "shortest_from x num den k (Suc fuel) n =
     (case shortest_at x num den k n of
        Some r \<Rightarrow> r
      | None \<Rightarrow> shortest_from x num den k fuel (Suc n))"

definition place_point :: "nat \<Rightarrow> int \<Rightarrow> string" where
  "place_point d p =
     (let (d', p') = (if d mod 10 = 0 \<and> p < 0 then (d div 10, p + 1) else (d, p));
          ds = show_nat d'; w = int (length ds) + p'
      in if 0 \<le> p' then ds @ replicate (nat p') CHR ''0''
         else if 0 < w then take (nat w) ds @ ''.'' @ drop (nat w) ds
         else ''0.'' @ replicate (nat (- w)) CHR ''0'' @ ds)"

definition f64_show :: "f64 \<Rightarrow> string" where
  "f64_show x =
     (case view x of
        FNaN \<Rightarrow> ''NaN''
      | FInf s \<Rightarrow> (if s then ''-inf'' else ''inf'')
      | FFin s m e \<Rightarrow>
          (if s then ''-'' else '''') @
          (if m = 0 then ''0''
           else let num = m * 2 ^ nat e; den = 2 ^ nat (- e); k = dec_exp num den;
                    (d, p) = shortest_from (f64_abs x) num den k 17 1
                in place_point d p))"

definition parse_exponent :: "string \<Rightarrow> int option" where
  "parse_exponent s =
     (case s of
        [] \<Rightarrow> Some 0
      | c # cs \<Rightarrow> if c = CHR ''e'' \<or> c = CHR ''E'' then parse_int cs else None)"

definition parse_decimal :: "bool \<Rightarrow> string \<Rightarrow> f64 option" where
  "parse_decimal s t =
     (let ip = takeWhile is_digit t; r = dropWhile is_digit t;
          (fp, r') = (case r of
                        CHR ''.'' # r1 \<Rightarrow> (takeWhile is_digit r1, dropWhile is_digit r1)
                      | _ \<Rightarrow> ([], r))
      in if ip = [] \<and> fp = [] then None
         else map_option (\<lambda>x. round_decimal s (digits_val (ip @ fp)) (x - int (length fp)))
                (parse_exponent r'))"

definition f64_parse :: "string \<Rightarrow> f64 option" where
  "f64_parse t =
     (let (s, u) = (case t of
                      CHR ''-'' # u \<Rightarrow> (True, u)
                    | CHR ''+'' # u \<Rightarrow> (False, u)
                    | _ \<Rightarrow> (False, t));
          l = to_lower u
      in if l = ''inf'' \<or> l = ''infinity'' then Some (f64_inf s)
         else if l = ''nan'' then Some f64_nan
         else parse_decimal s u)"

lemma f64_cmp_rev: "f64_partial_cmp y x = map_option rev_ord (f64_partial_cmp x y)"
  by (auto simp: f64_partial_cmp_def min.commute Let_def split: f64_view.splits)

lemma f64_cmp_refl: "view x \<noteq> FNaN \<Longrightarrow> f64_partial_cmp x x = Some Equal"
  by (auto simp: f64_partial_cmp_def Let_def cmp_int_def split: f64_view.splits)

end
