(* ===== verification/Sql_Ast.thy ===== *)
theory Sql_Ast
  imports Ieee_Double
begin

text \<open>
  The part of the \<open>sqlparser\<close> syntax tree that src/engine.rs matches on, with the crate's
  constructor names. A constructor the program never names is \<open>EOther\<close>, \<open>SOther\<close> and so on.
  Queries are a type parameter \<open>'q\<close> of the expressions: the evaluator never looks inside a
  subquery. The type \<open>query\<close> ties the knot for SELECT.

  What the program calls of code outside src/ is one record, an argument of the definitions
  that use it: the \<open>Display\<close> impls of sqlparser, \<open>hex::encode\<close>, the floating point powers the
  standard library leaves to the platform (with the value its float sums start from, which is
  -0.0 in current releases), and the clock.
\<close>

datatype sql_value =
    SNumber string
  | SSingleQuotedString string
  | SDoubleQuotedString string
  | SBoolean bool
  | SNull
  | SPlaceholder string
  | SOther nat

datatype unary_op = OpMinus | OpPlus | OpNot | OpUnaryOther

datatype binary_op =
    OpAdd | OpSub | OpMultiply | OpDivide | OpModulo | OpStringConcat
  | OpEq | OpNotEq | OpGt | OpGtEq | OpLt | OpLtEq
  | OpAnd | OpOr | OpXor
  | OpBitwiseOr | OpBitwiseAnd | OpBitwiseXor
  | OpMyIntegerDivide | OpPGBitwiseShiftLeft | OpPGBitwiseShiftRight
  | OpBinaryOther

datatype char_length = IntegerLength nat | MaxLength

datatype data_type =
    DtInt | DtInteger | DtSmallInt | DtTinyInt | DtBigInt
  | DtFloat | DtReal | DtDouble | DtDoublePrecision
  | DtVarchar "char_length option" | DtChar | DtString
  | DtText | DtMediumText | DtLongText
  | DtBlob | DtBinary | DtVarbinary
  | DtTimestamp | DtDatetime | DtDate | DtBoolean
  | DtSigned | DtSignedInteger | DtUnsigned | DtUnsignedInteger
  | DtOther

datatype 'e func_arg =
    UnnamedExpr 'e | UnnamedWildcard | UnnamedOther
  | NamedExpr 'e | NamedOther

datatype arg_clause = Separator sql_value | ClauseOther

text \<open>
  \<open>EFunction name args distinct clauses over\<close>: the argument list (\<open>None\<close> when it is no list),
  \<open>DISTINCT\<close> inside it, its clauses, and the window: \<open>PARTITION BY\<close> and \<open>ORDER BY\<close>.
\<close>

datatype 'q expr =
    EIdentifier string
  | ECompoundIdentifier "string list"
  | EValue sql_value
  | ENested "'q expr"
  | EUnaryOp unary_op "'q expr"
  | EBinaryOp "'q expr" binary_op "'q expr"
  | EIsNull "'q expr"
  | EIsNotNull "'q expr"
  | EInList "'q expr" "'q expr list" bool
  | EInSubquery "'q expr" 'q bool
  | ESubquery 'q
  | EBetween "'q expr" "'q expr" "'q expr" bool
  | ELike "'q expr" "'q expr" bool
  | EILike "'q expr" "'q expr" bool
  | ECase "'q expr option" "('q expr \<times> 'q expr) list" "'q expr option"
  | ECast "'q expr" data_type
  | EConvert "'q expr" "data_type option"
  | EInterval "'q expr" "string option"
  | EFunction string "'q expr func_arg list option" bool "arg_clause list"
      "('q expr list \<times> ('q expr \<times> bool option) list) option"
  | EOther nat

datatype 'q select_item =
    SelExpr "'q expr"
  | SelAlias "'q expr" string
  | SelWildcard
  | SelQualifiedWildcard

datatype 'q table_factor = FTable string "string option" | FDerived 'q | FOther nat

datatype 'q join_operator =
    JoinOn "'q expr" | InnerOn "'q expr" | LeftOn "'q expr" | LeftOuterOn "'q expr"
  | CrossJoin | JoinOther

datatype 'q group_by = GroupExprs "'q expr list" | GroupAll

datatype 'q order_kind = OrderExprs "('q expr \<times> bool option) list" | OrderAll

datatype query =
    Query (q_body: set_expr) (q_order_by: "query order_kind option") (q_limit: "query expr option")
      (q_offset: "query expr option")
and set_expr =
    SetSelect select
  | SetOperation bool set_expr set_expr
  | SetValues "query expr list list"
  | SetOther
and select =
    Select (sel_distinct: bool) (projection: "query select_item list")
      (sel_from: "(query table_factor \<times> (query table_factor \<times> query join_operator) list) list")
      (selection: "query expr option") (having: "query expr option") (sel_group_by: "query group_by")

text \<open>\<open>SetOperation all l r\<close>: \<open>all\<close> is the quantifier \<open>ALL\<close>; the operator is not looked at.\<close>

record 'q crates =
  show_value :: "sql_value \<Rightarrow> string"
  show_expr :: "'q expr \<Rightarrow> string"
  show_item :: "'q select_item \<Rightarrow> string"
  show_factor :: "'q table_factor \<Rightarrow> string"
  show_args :: "'q expr func_arg list option \<Rightarrow> bool \<Rightarrow> arg_clause list \<Rightarrow> string"
  hex_encode :: "u8 list \<Rightarrow> string"
  f64_powf :: "f64 \<Rightarrow> f64 \<Rightarrow> f64"
  f64_powi :: "f64 \<Rightarrow> int \<Rightarrow> f64"
  f64_min :: "f64 \<Rightarrow> f64 \<Rightarrow> f64"
  f64_max :: "f64 \<Rightarrow> f64 \<Rightarrow> f64"
  f64_sum_start :: f64
  unix_now :: nat

end
