(* ===== verification/Values.thy ===== *)
theory Values
  imports Sql_Ast
begin

text \<open>
  SQL values of src/engine.rs: \<open>Value\<close> with its conversions, \<open>ColumnType\<close>, \<open>Column\<close>, \<open>Row\<close>,
  the comparison \<open>values_cmp\<close>/\<open>values_eq\<close> every predicate rests on, \<open>LIKE\<close> matching, and the
  conversion of literals. \<open>LIKE\<close> has a declarative meaning, an inductive relation, and the
  recursive matcher is proved to decide it.
\<close>

section \<open>Values and columns\<close>

datatype Value =
    Null
  | VInt i64
  | VFloat f64
  | VText string
  | VBytes "u8 list"

type_synonym row = "Value list"

datatype column_type = CInt | CBigInt | CFloat | CVarChar u16 | CText | CBlob | CTimestamp

record column =
  col_name :: string
  col_type :: column_type
  nullable :: bool
  primary_key :: bool

fun as_str :: "Value \<Rightarrow> string option" where
  "as_str (VText s) = Some s"
| "as_str _ = None"

fun to_display :: "'q crates \<Rightarrow> Value \<Rightarrow> string option" where
  "to_display x Null = None"
| "to_display x (VInt i) = Some (show_i64 i)"
| "to_display x (VFloat f) = Some (f64_show f)"
| "to_display x (VText s) = Some s"
| "to_display x (VBytes b) = Some (hex_encode x b)"

fun into_text :: "Value \<Rightarrow> string option" where
  "into_text (VText s) = Some s"
| "into_text (VInt i) = Some (show_i64 i)"
| "into_text (VFloat f) = Some (f64_show f)"
| "into_text _ = None"

fun into_int :: "Value \<Rightarrow> i64 option" where
  "into_int (VInt i) = Some i"
| "into_int (VFloat f) = Some (f64_to_i64 f)"
| "into_int (VText s) = parse_i64 (trim s)"
| "into_int _ = None"

fun mysql_type_byte :: "column_type \<Rightarrow> u8" where
  "mysql_type_byte CInt = 0x08"
| "mysql_type_byte CBigInt = 0x08"
| "mysql_type_byte CFloat = 0x05"
| "mysql_type_byte (CVarChar _) = 0xfd"
| "mysql_type_byte CText = 0xfd"
| "mysql_type_byte CBlob = 0xfc"
| "mysql_type_byte CTimestamp = 0x07"

definition sql_type_to_col_type :: "data_type \<Rightarrow> column_type" where
  "sql_type_to_col_type dt =
     (case dt of
        DtInt \<Rightarrow> CInt | DtInteger \<Rightarrow> CInt | DtSmallInt \<Rightarrow> CInt | DtTinyInt \<Rightarrow> CInt
      | DtBigInt \<Rightarrow> CBigInt
      | DtFloat \<Rightarrow> CFloat | DtReal \<Rightarrow> CFloat | DtDouble \<Rightarrow> CFloat | DtDoublePrecision \<Rightarrow> CFloat
      | DtVarchar (Some (IntegerLength n)) \<Rightarrow> CVarChar (of_nat n)
      | DtVarchar (Some MaxLength) \<Rightarrow> CVarChar 255
      | DtVarchar None \<Rightarrow> CText
      | DtText \<Rightarrow> CText | DtMediumText \<Rightarrow> CText | DtLongText \<Rightarrow> CText
      | DtBlob \<Rightarrow> CBlob | DtBinary \<Rightarrow> CBlob | DtVarbinary \<Rightarrow> CBlob
      | DtTimestamp \<Rightarrow> CTimestamp | DtDatetime \<Rightarrow> CTimestamp
      | _ \<Rightarrow> CText)"

definition col_position :: "column list \<Rightarrow> string \<Rightarrow> nat option" where
  "col_position cols n = position (\<lambda>c. eq_ignore_case (col_name c) n) cols"

section \<open>Comparison\<close>

definition default_str :: "string option \<Rightarrow> string" where
  "default_str o' = (case o' of None \<Rightarrow> [] | Some s \<Rightarrow> s)"

definition or_equal :: "ordering option \<Rightarrow> ordering" where
  "or_equal o' = (case o' of None \<Rightarrow> Equal | Some c \<Rightarrow> c)"

fun values_cmp :: "'q crates \<Rightarrow> Value \<Rightarrow> Value \<Rightarrow> ordering" where
  "values_cmp x (VInt a) (VInt b) = cmp_int (sint a) (sint b)"
| "values_cmp x (VFloat a) (VFloat b) = or_equal (f64_partial_cmp a b)"
| "values_cmp x (VInt a) (VFloat b) = or_equal (f64_partial_cmp (f64_of_int (sint a)) b)"
| "values_cmp x (VFloat a) (VInt b) = or_equal (f64_partial_cmp a (f64_of_int (sint b)))"
| "values_cmp x (VText a) (VText b) = cmp_str a b"
| "values_cmp x Null Null = Equal"
| "values_cmp x Null _ = Less"
| "values_cmp x _ Null = Greater"
| "values_cmp x a b = cmp_str (default_str (to_display x a)) (default_str (to_display x b))"

fun values_eq :: "'q crates \<Rightarrow> Value \<Rightarrow> Value \<Rightarrow> bool" where
  "values_eq x Null b = False"
| "values_eq x a Null = False"
| "values_eq x a b = (values_cmp x a b = Equal)"

lemma or_equal_rev: "or_equal (f64_partial_cmp b a) = rev_ord (or_equal (f64_partial_cmp a b))"
  by (subst f64_cmp_rev) (auto simp: or_equal_def split: option.splits)

lemma values_cmp_rev: "values_cmp x b a = rev_ord (values_cmp x a b)"
proof (cases a; cases b)
  fix f g assume "a = VFloat f" "b = VFloat g"
  then show ?thesis using or_equal_rev [of g f] by simp
next
  fix i g assume "a = VInt i" "b = VFloat g"
  then show ?thesis using or_equal_rev [of g "f64_of_int (sint i)"] by simp
next
  fix f j assume "a = VFloat f" "b = VInt j"
  then show ?thesis using or_equal_rev [of "f64_of_int (sint j)" f] by simp
qed simp_all

lemma values_eq_iff: "values_eq x a b \<longleftrightarrow> a \<noteq> Null \<and> b \<noteq> Null \<and> values_cmp x a b = Equal"
  by (cases a; cases b) simp_all

lemma values_eq_sym: "values_eq x a b = values_eq x b a"
  using values_cmp_rev [of x a b] by (auto simp: values_eq_iff)

lemma values_eq_int [simp]: "values_eq x (VInt a) (VInt b) \<longleftrightarrow> a = b"
  by (simp add: sint_inject)

lemma values_eq_text [simp]: "values_eq x (VText a) (VText b) \<longleftrightarrow> a = b"
  by simp

section \<open>LIKE\<close>

function like_rec :: "string \<Rightarrow> string \<Rightarrow> bool" where
  "like_rec v p =
     (case p of
        [] \<Rightarrow> v = []
      | c # p' \<Rightarrow>
          if c = CHR ''%'' then list_ex (\<lambda>i. like_rec (drop i v) p') [0..<Suc (length v)]
          else if c = CHR ''_'' then (case v of [] \<Rightarrow> False | _ # v' \<Rightarrow> like_rec v' p')
          else (case v of [] \<Rightarrow> False
                | d # v' \<Rightarrow> lower_char c = lower_char d \<and> like_rec v' p'))"
  by pat_completeness auto
termination by (relation "measure (\<lambda>(v, p). length p)") auto

declare like_rec.simps [simp del]

definition like_match :: "string \<Rightarrow> string \<Rightarrow> bool" where
  "like_match v p = like_rec v p"

inductive like_sem :: "string \<Rightarrow> string \<Rightarrow> bool" where
  like_end: "like_sem [] []"
| like_any: "like_sem v p \<Longrightarrow> like_sem (w @ v) (CHR ''%'' # p)"
| like_one: "like_sem v p \<Longrightarrow> like_sem (d # v) (CHR ''_'' # p)"
| like_char: "like_sem v p \<Longrightarrow> c \<noteq> CHR ''%'' \<Longrightarrow> c \<noteq> CHR ''_'' \<Longrightarrow> lower_char c = lower_char d \<Longrightarrow>
     like_sem (d # v) (c # p)"

inductive_cases like_sem_NilE: "like_sem v []"
inductive_cases like_sem_ConsE: "like_sem v (c # p)"

lemma like_rec_Nil [simp]: "like_rec v [] \<longleftrightarrow> v = []"
  by (subst like_rec.simps) simp

lemma like_rec_any [simp]:
  "like_rec v (CHR ''%'' # p) \<longleftrightarrow> (\<exists>i\<le>length v. like_rec (drop i v) p)"
  by (subst like_rec.simps) (simp add: list_ex_iff less_Suc_eq_le Bex_def del: upt_Suc)

lemma like_rec_one [simp]:
  "like_rec v (CHR ''_'' # p) \<longleftrightarrow> (\<exists>d v'. v = d # v' \<and> like_rec v' p)"
  by (subst like_rec.simps) (auto split: list.splits)

lemma like_rec_char [simp]:
  "c \<noteq> CHR ''%'' \<Longrightarrow> c \<noteq> CHR ''_'' \<Longrightarrow>
     like_rec v (c # p) \<longleftrightarrow> (\<exists>d v'. v = d # v' \<and> lower_char c = lower_char d \<and> like_rec v' p)"
  by (subst like_rec.simps) (auto split: list.splits)

lemma like_sem_complete: "like_sem v p \<Longrightarrow> like_rec v p"
proof (induction rule: like_sem.induct)
  case (like_any v p w)
  then have "like_rec (drop (length w) (w @ v)) p" by simp
  then show ?case by (metis length_append le_add1 like_rec_any)
qed auto

lemma like_sem_sound: "like_rec v p \<Longrightarrow> like_sem v p"
proof (induction p arbitrary: v)
  case Nil
  then show ?case by (simp add: like_end)
next
  case (Cons c p)
  consider "c = CHR ''%''" | "c = CHR ''_''" | "c \<noteq> CHR ''%''" "c \<noteq> CHR ''_''" by blast
  then show ?case
  proof cases
    case 1
    with Cons.prems obtain i where "like_rec (drop i v) p" by auto
    then have "like_sem (take i v @ drop i v) (CHR ''%'' # p)"
      by (intro like_any Cons.IH)
    with 1 show ?thesis by simp
  next
    case 2
    with Cons show ?thesis by (auto intro: like_one)
  next
    case 3
    with Cons show ?thesis by (auto intro: like_char)
  qed
qed

section \<open>Literals\<close>

definition number_to_value :: "string \<Rightarrow> Value" where
  "number_to_value n =
     (case parse_i64 n of
        Some i \<Rightarrow> VInt i
      | None \<Rightarrow> (case f64_parse n of Some f \<Rightarrow> VFloat f | None \<Rightarrow> VText n))"

fun expr_to_value :: "'q crates \<Rightarrow> 'q expr \<Rightarrow> Value" where
  "expr_to_value x (EValue (SNumber n)) = number_to_value n"
| "expr_to_value x (EValue (SSingleQuotedString s)) = VText s"
| "expr_to_value x (EValue SNull) = Null"
| "expr_to_value x (EValue v) = VText (show_value x v)"
| "expr_to_value x e = VText (show_expr x e)"

fun value_from_sqlparser :: "sql_value \<Rightarrow> Value" where
  "value_from_sqlparser (SNumber n) = number_to_value n"
| "value_from_sqlparser (SSingleQuotedString s) = VText s"
| "value_from_sqlparser (SDoubleQuotedString s) = VText s"
| "value_from_sqlparser SNull = Null"
| "value_from_sqlparser _ = Null"

lemma number_to_value_show [simp]: "number_to_value (show_i64 n) = VInt n"
  by (simp add: number_to_value_def)

end
