(* ===== verification/Ordering.thy ===== *)
theory Ordering
  imports Values
begin

text \<open>
  ORDER BY, LIMIT and OFFSET as the query paths of src/engine.rs apply them: \<open>sort_by\<close> of the
  standard library (a stable sort), the comparisons of rows of text, and the key list, sorted from
  the last key to the first. The library promises an order only for a total comparison, which the
  locale \<open>total_cmp\<close> states on a set of keys; the code's comparison is one on keys that are all
  numbers, and on keys none of which is.
\<close>

section \<open>Comparisons\<close>

definition cmp_text :: "string \<Rightarrow> string \<Rightarrow> ordering" where
  "cmp_text a b =
     (case (parse_i64 a, parse_i64 b) of
        (Some m, Some n) \<Rightarrow> cmp_int (sint m) (sint n)
      | _ \<Rightarrow> cmp_str a b)"

definition cmp_cell :: "string option \<Rightarrow> string option \<Rightarrow> ordering" where
  "cmp_cell a b =
     (case (a, b) of
        (Some s, Some t) \<Rightarrow> cmp_text s t
      | (None, Some _) \<Rightarrow> Less
      | (Some _, None) \<Rightarrow> Greater
      | (None, None) \<Rightarrow> Equal)"

definition cmp_float_text :: "string \<Rightarrow> string \<Rightarrow> ordering" where
  "cmp_float_text a b =
     (case (f64_parse a, f64_parse b) of
        (Some v, Some w) \<Rightarrow> or_equal (f64_partial_cmp v w)
      | _ \<Rightarrow> cmp_str a b)"

definition cmp_number_text :: "string \<Rightarrow> string \<Rightarrow> ordering" where
  "cmp_number_text a b =
     (case (parse_i64 a, parse_i64 b) of
        (Some m, Some n) \<Rightarrow> cmp_int (sint m) (sint n)
      | _ \<Rightarrow> cmp_float_text a b)"

definition directed :: "bool option \<Rightarrow> ordering \<Rightarrow> ordering" where \<comment> \<open>ASC unless DESC is written\<close>
  "directed asc ord = (case asc of Some False \<Rightarrow> rev_ord ord | _ \<Rightarrow> ord)"

section \<open>Sorting\<close>

fun insert_by :: "('a \<Rightarrow> 'a \<Rightarrow> ordering) \<Rightarrow> 'a \<Rightarrow> 'a list \<Rightarrow> 'a list" where
  "insert_by cmp a [] = [a]"
| "insert_by cmp a (b # bs) = (if cmp a b = Greater then b # insert_by cmp a bs else a # b # bs)"

definition sort_by :: "('a \<Rightarrow> 'a \<Rightarrow> ordering) \<Rightarrow> 'a list \<Rightarrow> 'a list" where
  "sort_by cmp as = foldr (insert_by cmp) as []"

text \<open>One stable sort per key that names a column, the last key first.\<close>

definition sort_keys :: "('e \<Rightarrow> nat option) \<Rightarrow> (nat \<Rightarrow> 'r \<Rightarrow> 'r \<Rightarrow> ordering) \<Rightarrow> ('e \<times> bool option) list \<Rightarrow>
    'r list \<Rightarrow> 'r list" where
  "sort_keys pos cmp ks rs =
     fold (\<lambda>(e, asc) rs. case pos e of
              Some i \<Rightarrow> sort_by (\<lambda>a b. directed asc (cmp i a b)) rs
            | None \<Rightarrow> rs) (rev ks) rs"

definition order_keys :: "'q order_kind option \<Rightarrow> ('q expr \<times> bool option) list" where
  "order_keys ob = (case ob of Some (OrderExprs ks) \<Rightarrow> ks | _ \<Rightarrow> [])"

definition name_position :: "string list \<Rightarrow> string \<Rightarrow> nat option" where
  "name_position ns n = position (\<lambda>m. eq_ignore_case m n) ns"

definition cell_text :: "string option list \<Rightarrow> nat \<Rightarrow> string" where
  "cell_text r i = default_str (Option.bind (vec_get r i) id)"

definition row_text :: "'q crates \<Rightarrow> row \<Rightarrow> nat \<Rightarrow> string" where
  "row_text x r i = default_str (Option.bind (vec_get r i) (to_display x))"

text \<open>Rows already projected to text, by the output names.\<close>

definition order_output :: "'q crates \<Rightarrow> (string option \<Rightarrow> string option \<Rightarrow> ordering) \<Rightarrow> string list \<Rightarrow>
    'q order_kind option \<Rightarrow> string option list list \<Rightarrow> string option list list" where
  "order_output x cmp ns ob rs =
     sort_keys (\<lambda>e. name_position ns (show_expr x e))
       (\<lambda>i a b. cmp (Option.bind (vec_get a i) id) (Option.bind (vec_get b i) id)) (order_keys ob) rs"

text \<open>Rows of the table, by its columns, before the projection.\<close>

definition order_column :: "'q crates \<Rightarrow> 'q expr \<Rightarrow> string" where
  "order_column x e =
     (case e of
        EIdentifier n \<Rightarrow> n
      | ECompoundIdentifier ps \<Rightarrow> (if ps = [] then [] else last ps)
      | _ \<Rightarrow> show_expr x e)"

definition order_rows :: "'q crates \<Rightarrow> column list \<Rightarrow> 'q order_kind option \<Rightarrow> row list \<Rightarrow> row list" where
  "order_rows x cols ob rs =
     sort_keys (\<lambda>e. col_position cols (order_column x e))
       (\<lambda>i a b. cmp_text (row_text x a i) (row_text x b i)) (order_keys ob) rs"

section \<open>LIMIT and OFFSET\<close>

definition parse_usize :: "string \<Rightarrow> nat option" where
  "parse_usize s = parse_unsigned 64 s"

definition number_usize :: "'q expr option \<Rightarrow> nat option" where
  "number_usize e = (case e of Some (EValue (SNumber n)) \<Rightarrow> parse_usize n | _ \<Rightarrow> None)"

definition shown_usize :: "'q crates \<Rightarrow> 'q expr option \<Rightarrow> nat option" where
  "shown_usize x e = (case e of Some (EValue v) \<Rightarrow> parse_usize (show_value x v) | _ \<Rightarrow> None)"

definition or_zero :: "nat option \<Rightarrow> nat" where
  "or_zero n = (case n of Some k \<Rightarrow> k | None \<Rightarrow> 0)"

definition take_opt :: "nat option \<Rightarrow> 'a list \<Rightarrow> 'a list" where
  "take_opt n as = (case n of Some k \<Rightarrow> take k as | None \<Rightarrow> as)"

definition limit_rows :: "nat option \<Rightarrow> nat option \<Rightarrow> 'a list \<Rightarrow> 'a list" where
  "limit_rows lim off as = take_opt lim (drop (or_zero off) as)"

section \<open>Duplicates\<close>

fun dedup :: "'a list \<Rightarrow> 'a list" where \<comment> \<open>\<open>Vec::dedup\<close>: runs of equal elements\<close>
  "dedup [] = []"
| "dedup [a] = [a]"
| "dedup (a # b # as) = (if a = b then dedup (b # as) else a # dedup (b # as))"

fun keep_first :: "'a set \<Rightarrow> 'a list \<Rightarrow> 'a list" where \<comment> \<open>\<open>filter(|r| seen.insert(r))\<close>\<close>
  "keep_first seen [] = []"
| "keep_first seen (a # as) =
     (if a \<in> seen then keep_first seen as else a # keep_first (insert a seen) as)"

section \<open>Laws\<close>

lemma mset_insert_by [simp]: "mset (insert_by cmp a bs) = add_mset a (mset bs)"
  by (induction bs) auto

lemma set_insert_by [simp]: "set (insert_by cmp a bs) = insert a (set bs)"
  by (induction bs) auto

lemma sort_by_simps [simp]: "sort_by cmp [] = []" "sort_by cmp (a # as) = insert_by cmp a (sort_by cmp as)"
  by (simp_all add: sort_by_def)

lemma mset_sort_by [simp]: "mset (sort_by cmp as) = mset as"
  by (induction as) auto

lemma set_sort_by [simp]: "set (sort_by cmp as) = set as"
  by (induction as) auto

lemma mset_sort_keys [simp]: "mset (sort_keys pos cmp ks rs) = mset rs"
proof -
  have "mset (fold (\<lambda>(e, asc) rs. case pos e of
            Some i \<Rightarrow> sort_by (\<lambda>a b. directed asc (cmp i a b)) rs | None \<Rightarrow> rs) ks rs) = mset rs" for ks
    by (induction ks arbitrary: rs) (auto split: option.split)
  then show ?thesis by (simp add: sort_keys_def)
qed

lemma set_keep_first: "set (keep_first seen as) = set as - seen"
  by (induction as arbitrary: seen) auto

lemma distinct_keep_first: "distinct (keep_first seen as)"
  by (induction as arbitrary: seen) (auto simp: set_keep_first)

lemma keep_first_fresh: "set as \<inter> seen = {} \<Longrightarrow> distinct as \<Longrightarrow> keep_first seen as = as"
  by (induction as arbitrary: seen) auto

lemma set_dedup [simp]: "set (dedup as) = set as"
  by (induction as rule: dedup.induct) auto

locale total_cmp =
  fixes keys :: "'k set" and cmp :: "'k \<Rightarrow> 'k \<Rightarrow> ordering"
  assumes cmp_rev: "a \<in> keys \<Longrightarrow> b \<in> keys \<Longrightarrow> cmp b a = rev_ord (cmp a b)"
    and cmp_le_trans: "a \<in> keys \<Longrightarrow> b \<in> keys \<Longrightarrow> c \<in> keys \<Longrightarrow>
      cmp a b \<noteq> Greater \<Longrightarrow> cmp b c \<noteq> Greater \<Longrightarrow> cmp a c \<noteq> Greater"
begin

text \<open>Sorting by a key keeps an order on equal keys: the one the list had.\<close>

lemma insert_by_sorted:
  assumes "key a \<in> keys" "key ` set bs \<subseteq> keys" "\<forall>b\<in>set bs. Q a b"
    and "sorted_wrt (\<lambda>a b. cmp (key a) (key b) \<noteq> Greater \<and> (cmp (key a) (key b) = Equal \<longrightarrow> Q a b)) bs"
  shows "sorted_wrt (\<lambda>a b. cmp (key a) (key b) \<noteq> Greater \<and> (cmp (key a) (key b) = Equal \<longrightarrow> Q a b))
    (insert_by (\<lambda>a b. cmp (key a) (key b)) a bs)"
  using assms
proof (induction bs)
  case (Cons b bs)
  then have k: "key b \<in> keys" "\<forall>c\<in>set bs. key c \<in> keys" by auto
  show ?case
  proof (cases "cmp (key a) (key b) = Greater")
    case True
    then have "cmp (key b) (key a) = Less" using cmp_rev [of "key a" "key b"] Cons.prems(1) k by simp
    then show ?thesis using Cons True by simp
  next
    case False
    then have "\<forall>c\<in>set bs. cmp (key a) (key c) \<noteq> Greater"
      using Cons.prems(1,4) k cmp_le_trans [of "key a" "key b"] by auto
    then show ?thesis using Cons.prems False by simp
  qed
qed simp

lemma sort_by_sorted:
  assumes "key ` set as \<subseteq> keys" "sorted_wrt Q as"
  shows "sorted_wrt (\<lambda>a b. cmp (key a) (key b) \<noteq> Greater \<and> (cmp (key a) (key b) = Equal \<longrightarrow> Q a b))
    (sort_by (\<lambda>a b. cmp (key a) (key b)) as)"
  using assms
proof (induction as)
  case (Cons a as)
  then show ?case by (auto intro!: insert_by_sorted)
qed simp

end

lemma total_cmp_rev:
  assumes "total_cmp A cmp"
  shows "total_cmp A (\<lambda>a b. rev_ord (cmp a b))"
proof
  fix a b c
  show "rev_ord (cmp b a) = rev_ord (rev_ord (cmp a b))" if "a \<in> A" "b \<in> A"
    by (rule arg_cong [OF total_cmp.cmp_rev [OF assms that]])
  assume A: "a \<in> A" "b \<in> A" "c \<in> A"
  note rev = total_cmp.cmp_rev [OF assms, symmetric]
  have eq: "rev_ord (cmp a b) = cmp b a" "rev_ord (cmp b c) = cmp c b" "rev_ord (cmp a c) = cmp c a"
    by (rule rev [OF A(1,2)] rev [OF A(2,3)] rev [OF A(1,3)])+
  assume "rev_ord (cmp a b) \<noteq> Greater" "rev_ord (cmp b c) \<noteq> Greater"
  then show "rev_ord (cmp a c) \<noteq> Greater"
    using total_cmp.cmp_le_trans [OF assms A(3) A(2) A(1)] unfolding eq by blast
qed

lemma total_cmp_directed:
  assumes "total_cmp A cmp"
  shows "total_cmp A (\<lambda>a b. directed asc (cmp a b))"
proof (cases "asc = Some False")
  case True
  then show ?thesis using total_cmp_rev [OF assms] by (simp add: directed_def)
next
  case False
  then have "(\<lambda>a b. directed asc (cmp a b)) = cmp"
    by (auto simp: directed_def fun_eq_iff split: option.split bool.split)
  then show ?thesis using assms by simp
qed

lemma cmp_str_trans: "cmp_str a b \<noteq> Greater \<Longrightarrow> cmp_str b c \<noteq> Greater \<Longrightarrow> cmp_str a c \<noteq> Greater"
proof (induction a b arbitrary: c rule: cmp_str.induct)
  case (4 a as b bs)
  show ?case
  proof (cases c)
    case (Cons d ds)
    let ?n = "\<lambda>z. of_char z :: nat"
    consider "?n a < ?n b" | "?n a = ?n b" using "4.prems"(1) by (fastforce split: if_splits)
    then show ?thesis
    proof cases
      case 1
      then have "?n a < ?n d" using "4.prems"(2) Cons by (simp split: if_splits)
      then show ?thesis using Cons by simp
    next
      case 2
      then show ?thesis using "4.IH" [of ds] "4.prems" Cons by (cases "b = d") (simp_all split: if_splits)
    qed
  qed (use "4.prems" in simp)
next
  case (2 b bs)
  then show ?case by (cases c) simp_all
qed simp_all

text \<open>The keys on which the code's comparison is an order: numbers only, or no numbers.\<close>

definition number_texts :: "string set" where
  "number_texts = {s. parse_i64 s \<noteq> None}"

interpretation numbers: total_cmp number_texts cmp_text
  by unfold_locales (auto simp: number_texts_def cmp_text_def)

interpretation words: total_cmp "- number_texts" cmp_text
proof unfold_locales
  have plain: "cmp_text a b = cmp_str a b" if "a \<in> - number_texts" for a b
    using that by (simp add: number_texts_def cmp_text_def)
  fix a b c
  show "cmp_text b a = rev_ord (cmp_text a b)" if "a \<in> - number_texts" "b \<in> - number_texts"
    using that by (simp add: plain)
  assume "a \<in> - number_texts" "b \<in> - number_texts" "cmp_text a b \<noteq> Greater" "cmp_text b c \<noteq> Greater"
  then show "cmp_text a c \<noteq> Greater" using cmp_str_trans [of a b c] by (simp add: plain)
qed

text \<open>A column of keys the comparison orders.\<close>

definition ordered_keys :: "string list \<Rightarrow> bool" where
  "ordered_keys ks \<longleftrightarrow> set ks \<subseteq> number_texts \<or> set ks \<inter> number_texts = {}"

lemma ordered_keys_total: "ordered_keys ks \<Longrightarrow> \<exists>A. total_cmp A cmp_text \<and> set ks \<subseteq> A"
  using numbers.total_cmp_axioms words.total_cmp_axioms unfolding ordered_keys_def by blast

text \<open>Mixed keys are not ordered: 9 before 10 as numbers, 10 before 9a and 9a after 9 as texts.\<close>

lemma cmp_text_cycle:
  "cmp_text ''9'' ''10'' = Less" "cmp_text ''10'' ''1a'' = Less" "cmp_text ''1a'' ''9'' = Less"
proof -
  have "parse_i64 ''9'' = Some 9" "parse_i64 ''10'' = Some 10" "parse_i64 ''1a'' = None"
    by code_simp+
  then show "cmp_text ''9'' ''10'' = Less" "cmp_text ''10'' ''1a'' = Less" "cmp_text ''1a'' ''9'' = Less"
    by (simp_all add: cmp_text_def)
qed

definition lex_le :: "('k \<Rightarrow> 'k \<Rightarrow> ordering) \<Rightarrow> (nat \<Rightarrow> 'r \<Rightarrow> 'k) \<Rightarrow> (nat \<times> bool option) list \<Rightarrow> 'r \<Rightarrow> 'r \<Rightarrow> bool" where
  "lex_le cmp key ks a b =
     foldr (\<lambda>(i, asc) rest. directed asc (cmp (key i a) (key i b)) \<noteq> Greater \<and>
              (directed asc (cmp (key i a) (key i b)) = Equal \<longrightarrow> rest)) ks True"

definition named_keys :: "('e \<Rightarrow> nat option) \<Rightarrow> ('e \<times> bool option) list \<Rightarrow> (nat \<times> bool option) list" where
  "named_keys pos ks = List.map_filter (\<lambda>(e, asc). map_option (\<lambda>i. (i, asc)) (pos e)) ks"

lemma named_keys_simps [simp]:
  "named_keys pos [] = []"
  "named_keys pos ((e, asc) # ks) =
     (case pos e of Some i \<Rightarrow> (i, asc) # named_keys pos ks | None \<Rightarrow> named_keys pos ks)"
  by (simp_all add: named_keys_def map_filter_simps split: option.split)

lemma lex_le_simps [simp]:
  "lex_le cmp key [] a b"
  "lex_le cmp key ((i, asc) # ks) a b \<longleftrightarrow> directed asc (cmp (key i a) (key i b)) \<noteq> Greater \<and>
     (directed asc (cmp (key i a) (key i b)) = Equal \<longrightarrow> lex_le cmp key ks a b)"
  by (simp_all add: lex_le_def)

lemma sort_keys_simps [simp]:
  "sort_keys pos cmp [] rs = rs"
  "sort_keys pos cmp ((e, asc) # ks) rs =
     (case pos e of Some i \<Rightarrow> sort_by (\<lambda>a b. directed asc (cmp i a b)) (sort_keys pos cmp ks rs)
      | None \<Rightarrow> sort_keys pos cmp ks rs)"
  by (simp_all add: sort_keys_def split: option.split)

text \<open>Sorting from the last key to the first sorts lexicographically by the key list.\<close>

lemma sort_keys_sorted:
  assumes "\<And>i. i \<in> fst ` set (named_keys pos ks) \<Longrightarrow> \<exists>A. total_cmp A cmp \<and> key i ` set rs \<subseteq> A"
  shows "sorted_wrt (lex_le cmp key (named_keys pos ks))
    (sort_keys pos (\<lambda>i a b. cmp (key i a) (key i b)) ks rs)"
  using assms
proof (induction ks)
  case Nil
  show ?case by (induction rs) simp_all
next
  case (Cons k ks)
  obtain e asc where k: "k = (e, asc)" by (cases k)
  let ?rest = "sort_keys pos (\<lambda>i a b. cmp (key i a) (key i b)) ks rs"
  show ?case
  proof (cases "pos e")
    case None
    then show ?thesis using Cons by (simp only: k sort_keys_simps named_keys_simps option.case)
  next
    case (Some i)
    obtain A where A: "total_cmp A cmp" "key i ` set rs \<subseteq> A" using Cons.prems [of i] Some k by auto
    have "set ?rest = set rs" by (rule mset_eq_setD [OF mset_sort_keys])
    then have "key i ` set ?rest \<subseteq> A" using A(2) by simp
    then have "sorted_wrt (\<lambda>a b. directed asc (cmp (key i a) (key i b)) \<noteq> Greater \<and>
        (directed asc (cmp (key i a) (key i b)) = Equal \<longrightarrow> lex_le cmp key (named_keys pos ks) a b))
      (sort_by (\<lambda>a b. directed asc (cmp (key i a) (key i b))) ?rest)"
      using Cons.IH [OF Cons.prems] Some k
      by (intro total_cmp.sort_by_sorted [where cmp = "\<lambda>a b. directed asc (cmp a b)",
            OF total_cmp_directed [OF A(1)]]) simp_all
    then show ?thesis using Some
      by (simp only: k sort_keys_simps named_keys_simps option.case lex_le_simps)
  qed
qed

end
