(* ===== verification/Dates.thy ===== *)
theory Dates
  imports Values "HOL-Library.Signed_Division"
begin

text \<open>
  The calendar of src/engine.rs: \<open>days_to_ymd\<close>, \<open>ymd_to_days\<close>, \<open>parse_date_str\<close>,
  \<open>format_date_ymd\<close>, \<open>date_add_days\<close>, \<open>add_months\<close>, \<open>mysql_date_format\<close>. The two conversions
  are inverse on valid dates from 1970 on. The year loops are recursive functions with a
  measure; the month loop of \<open>ymd_to_days\<close> runs \<open>(m - 1) as usize\<close> times, as written.
\<close>

section \<open>Signed 64-bit arithmetic\<close>

text \<open>Rust's \<open>/\<close> and \<open>%\<close> truncate towards zero; they panic on a zero divisor and on \<open>MIN / -1\<close>.\<close>

definition i64_min :: i64 where "i64_min = 0x8000000000000000"

definition tdiv :: "i64 \<Rightarrow> i64 \<Rightarrow> i64" where
  "tdiv a b = word_of_int (sint a sdiv sint b)"

definition tmod :: "i64 \<Rightarrow> i64 \<Rightarrow> i64" where
  "tmod a b = word_of_int (sint a smod sint b)"

definition i64_div :: "i64 \<Rightarrow> i64 \<Rightarrow> i64 option" where
  "i64_div a b = (if b = 0 \<or> (a = i64_min \<and> b = - 1) then None else Some (tdiv a b))"

definition i64_rem :: "i64 \<Rightarrow> i64 \<Rightarrow> i64 option" where
  "i64_rem a b = (if b = 0 \<or> (a = i64_min \<and> b = - 1) then None else Some (tmod a b))"

definition i64_abs :: "i64 \<Rightarrow> i64" where
  "i64_abs a = (if sint a < 0 then - a else a)"

section \<open>Days and civil dates\<close>

definition leap :: "int \<Rightarrow> bool" where
  "leap y \<longleftrightarrow> (y mod 4 = 0 \<and> y mod 100 \<noteq> 0) \<or> y mod 400 = 0"

definition year_days :: "int \<Rightarrow> nat" where
  "year_days y = (if leap y then 366 else 365)"

definition month_days :: "int \<Rightarrow> nat list" where
  "month_days y = [31, if leap y then 29 else 28, 31, 30, 31, 30, 31, 31, 30, 31, 30, 31]"

lemma year_days_pos [simp]: "0 < year_days y"
  by (simp add: year_days_def)

lemma sum_list_month_days: "sum_list (month_days y) = year_days y"
  by (simp add: month_days_def year_days_def)

lemma length_month_days [simp]: "length (month_days y) = 12"
  by (simp add: month_days_def)

function year_loop :: "nat \<Rightarrow> nat \<Rightarrow> nat \<times> nat" where
  "year_loop y rem =
     (if rem < year_days (int y) then (y, rem) else year_loop (Suc y) (rem - year_days (int y)))"
  by pat_completeness auto
termination
proof (relation "measure snd")
  fix y rem :: nat
  assume "\<not> rem < year_days (int y)"
  then have "0 < rem" using year_days_pos [of "int y"] by linarith
  then show "((Suc y, rem - year_days (int y)), y, rem) \<in> measure snd"
    by simp
qed simp

declare year_loop.simps [simp del]

fun month_loop :: "nat list \<Rightarrow> nat \<Rightarrow> nat \<Rightarrow> nat \<times> nat" where
  "month_loop [] mo rem = (mo, rem)"
| "month_loop (md # mds) mo rem =
     (if rem < md then (mo, rem) else month_loop mds (Suc mo) (rem - md))"

definition days_to_ymd :: "nat \<Rightarrow> nat \<times> nat \<times> nat" where
  "days_to_ymd days =
     (let (y, rem) = year_loop 1970 days;
          (mo, rem') = month_loop (month_days (int y)) 1 rem
      in (y, mo, rem' + 1))"

function years_up :: "int \<Rightarrow> int \<Rightarrow> int \<Rightarrow> int" where
  "years_up yr y days = (if yr < y then years_up (yr + 1) y (days + int (year_days yr)) else days)"
  by pat_completeness auto
termination by (relation "measure (\<lambda>(yr, y, _). nat (y - yr))") auto

function years_down :: "int \<Rightarrow> int \<Rightarrow> int" where
  "years_down yr days = (if yr < 1970 then years_down (yr + 1) (days - int (year_days yr)) else days)"
  by pat_completeness auto
termination by (relation "measure (\<lambda>(yr, _). nat (1970 - yr))") auto

declare years_up.simps [simp del] years_down.simps [simp del]

text \<open>
  The additions wrap: they are done on unbounded integers and wrapped once at the end, which
  is the same number modulo 2 to the 64.
\<close>

definition months_sum :: "int \<Rightarrow> nat \<Rightarrow> int" where
  "months_sum y k =
     foldl (\<lambda>days i. days + int (case vec_get (month_days y) i of Some md \<Rightarrow> md | None \<Rightarrow> 30)) 0 [0..<k]"

definition ymd_to_days :: "i64 \<Rightarrow> i64 \<Rightarrow> i64 \<Rightarrow> i64" where
  "ymd_to_days y m d =
     (let base = (if 1970 \<le> sint y then years_up 1970 (sint y) 0 else years_down (sint y) 0)
      in word_of_int (base + months_sum (sint y) (unat (m - 1)) + sint d - 1))"

definition parse_ymd :: "string \<Rightarrow> (i64 \<times> i64 \<times> i64) option" where
  "parse_ymd s =
     (case split_whitespace (trim s) of
        [] \<Rightarrow> None
      | date_part # _ \<Rightarrow>
          (case splitn_char 3 CHR ''-'' date_part of
             [ys, ms, ds] \<Rightarrow>
               do { y \<leftarrow> parse_i64 ys; m \<leftarrow> parse_i64 ms; d \<leftarrow> parse_i64 ds; Some (y, m, d) }
           | _ \<Rightarrow> None))"

definition parse_date_str :: "string \<Rightarrow> i64 option" where
  "parse_date_str s = map_option (\<lambda>(y, m, d). ymd_to_days y m d) (parse_ymd s)"

definition format_date_ymd :: "i64 \<Rightarrow> i64 \<Rightarrow> i64 \<Rightarrow> string" where
  "format_date_ymd y m d =
     show_pad 4 (sint y) @ ''-'' @ show_pad 2 (sint m) @ ''-'' @ show_pad 2 (sint d)"

definition date_add_days :: "string \<Rightarrow> i64 \<Rightarrow> string option" where
  "date_add_days s delta =
     (case parse_date_str s of
        None \<Rightarrow> None
      | Some base \<Rightarrow>
          let new_days = base + delta
          in if 0 \<le> sint new_days
             then (case days_to_ymd (unat new_days) of (y, mo, d) \<Rightarrow>
                     Some (format_date_ymd (of_nat y) (of_nat mo) (of_nat d)))
             else (case days_to_ymd (unat (- new_days - 1)) of (y, mo, d) \<Rightarrow>
                     Some (format_date_ymd (1970 - of_nat y) (13 - of_nat mo) (of_nat d))))"

definition add_months :: "string \<Rightarrow> i64 \<Rightarrow> string option" where
  "add_months s months =
     (case parse_ymd s of
        None \<Rightarrow> None
      | Some (y, m, d) \<Rightarrow>
          let total = y * 12 + (m - 1) + months;
              ny = tdiv total 12;
              nm = tmod total 12 + 1;
              max_d = (case vec_get (month_days (sint ny)) (unat (nm - 1)) of
                         Some md \<Rightarrow> of_nat md | None \<Rightarrow> 30);
              nd = (if sint d \<le> sint max_d then d else max_d)
          in Some (format_date_ymd ny nm nd))"

section \<open>The conversions are inverse\<close>

definition year_start :: "nat \<Rightarrow> nat" where \<comment> \<open>days from 1970-01-01 to January 1st\<close>
  "year_start y = (\<Sum>k = 1970..<y. year_days (int k))"

lemma year_start_Suc: "1970 \<le> y \<Longrightarrow> year_start (Suc y) = year_start y + year_days (int y)"
  by (simp add: year_start_def)

lemma year_loop_spec:
  "1970 \<le> y \<Longrightarrow> year_loop y rem = (y', r) \<Longrightarrow>
     y \<le> y' \<and> r < year_days (int y') \<and> year_start y + rem = year_start y' + r"
proof (induction y rem rule: year_loop.induct)
  case (1 y rem)
  show ?case
  proof (cases "rem < year_days (int y)")
    case True
    with 1 show ?thesis by (simp add: year_loop.simps [of y rem])
  next
    case False
    with 1 have "Suc y \<le> y' \<and> r < year_days (int y') \<and>
        year_start (Suc y) + (rem - year_days (int y)) = year_start y' + r"
      by (simp add: year_loop.simps [of y rem])
    with False 1 show ?thesis by (simp add: year_start_Suc)
  qed
qed

lemma year_loop_start:
  "1970 \<le> y0 \<Longrightarrow> y0 \<le> y \<Longrightarrow> r < year_days (int y) \<Longrightarrow>
     year_loop y0 (year_start y - year_start y0 + r) = (y, r)"
proof (induction "y - y0" arbitrary: y0)
  case 0
  then show ?case by (simp add: year_loop.simps)
next
  case (Suc n)
  then have lt: "y0 < y" and le: "Suc y0 \<le> y" by simp_all
  have split: "year_start y = year_start y0 + (\<Sum>k = y0..<y. year_days (int k))"
    using Suc.prems unfolding year_start_def by (simp add: sum.atLeastLessThan_concat)
  have "(\<Sum>k = y0..<y. year_days (int k)) = year_days (int y0) + (\<Sum>k = Suc y0..<y. year_days (int k))"
    using lt by (rule sum.atLeast_Suc_lessThan)
  with split Suc.prems have eq: "year_start y - year_start y0 + r =
      year_days (int y0) + (year_start y - year_start (Suc y0) + r)"
    by (simp add: year_start_Suc)
  have "year_loop (Suc y0) (year_start y - year_start (Suc y0) + r) = (y, r)"
    using Suc le by simp
  then show ?case unfolding eq by (simp add: year_loop.simps [of y0])
qed

lemma month_loop_spec:
  "month_loop mds mo rem = (mo', r) \<Longrightarrow> rem < sum_list mds \<Longrightarrow>
     mo \<le> mo' \<and> mo' - mo < length mds \<and> r < mds ! (mo' - mo) \<and>
     rem = sum_list (take (mo' - mo) mds) + r"
proof (induction mds arbitrary: mo rem)
  case Nil
  then show ?case by simp
next
  case (Cons md mds)
  show ?case
  proof (cases "rem < md")
    case True
    with Cons.prems show ?thesis by auto
  next
    case False
    with Cons.prems have "month_loop mds (Suc mo) (rem - md) = (mo', r)" "rem - md < sum_list mds"
      by auto
    then have IH: "Suc mo \<le> mo' \<and> mo' - Suc mo < length mds \<and> r < mds ! (mo' - Suc mo) \<and>
        rem - md = sum_list (take (mo' - Suc mo) mds) + r"
      by (rule Cons.IH)
    then have "mo' - mo = Suc (mo' - Suc mo)" by linarith
    with IH False show ?thesis by auto
  qed
qed

lemma month_loop_start:
  "k < length mds \<Longrightarrow> r < mds ! k \<Longrightarrow> month_loop mds mo (sum_list (take k mds) + r) = (mo + k, r)"
proof (induction mds arbitrary: mo k)
  case Nil
  then show ?case by simp
next
  case (Cons md mds)
  then show ?case by (cases k) auto
qed

lemma years_up_eq:
  "1970 \<le> yr \<Longrightarrow> yr \<le> y \<Longrightarrow>
     years_up (int yr) (int y) days = days + int (year_start y) - int (year_start yr)"
proof (induction "y - yr" arbitrary: yr days)
  case 0
  then show ?case by (simp add: years_up.simps)
next
  case (Suc n)
  have "years_up (int (Suc yr)) (int y) (days + int (year_days (int yr))) =
      days + int (year_days (int yr)) + int (year_start y) - int (year_start (Suc yr))"
    using Suc by (intro Suc.hyps) simp_all
  with Suc show ?case
    by (simp add: years_up.simps [of "int yr"] year_start_Suc add.commute)
qed

lemma months_sum_eq: "k \<le> 12 \<Longrightarrow> months_sum y k = int (sum_list (take k (month_days y)))"
proof (induction k)
  case 0
  then show ?case by (simp add: months_sum_def)
next
  case (Suc k)
  then have "months_sum y (Suc k) = months_sum y k + int (month_days y ! k)"
    by (simp add: months_sum_def vec_get_def)
  with Suc show ?case by (simp add: take_Suc_conv_app_nth)
qed

text \<open>The day number of a valid date, as \<open>ymd_to_days\<close> computes it.\<close>

definition valid_date :: "nat \<Rightarrow> nat \<Rightarrow> nat \<Rightarrow> bool" where
  "valid_date y m d \<longleftrightarrow> 1970 \<le> y \<and> y < 2 ^ 32 \<and> 1 \<le> m \<and> m \<le> 12 \<and> 1 \<le> d \<and> d \<le> month_days (int y) ! (m - 1)"

lemma sint_of_nat_small: "n < 2 ^ 63 \<Longrightarrow> sint (of_nat n :: i64) = int n"
  by (simp add: signed_of_nat signed_take_bit_int_eq_self)

lemma ymd_to_days_valid:
  assumes "valid_date y m d"
  shows "ymd_to_days (of_nat y) (of_nat m) (of_nat d) =
    of_nat (year_start y + sum_list (take (m - 1) (month_days (int y))) + (d - 1))"
proof -
  have md: "month_days (int y) ! (m - 1) \<le> 31"
    using assms by (auto simp: valid_date_def month_days_def nth_Cons' split: if_splits)
  have b: "y < 2 ^ 63" "m < 2 ^ 63" "d < 2 ^ 63" "1 \<le> m" "m \<le> 12" "1 \<le> d" "1970 \<le> y"
    using assms md by (auto simp: valid_date_def)
  have m1: "unat (of_nat m - 1 :: i64) = m - 1"
  proof -
    have "(of_nat m - 1 :: i64) = of_nat (m - 1)" using b by (simp add: of_nat_diff)
    moreover have "unat (of_nat (m - 1) :: i64) = m - 1"
      using b by (simp add: unat_of_nat del: of_nat_diff)
    ultimately show ?thesis by simp
  qed
  show ?thesis
    using b years_up_eq [of 1970 y 0]
    by (simp add: ymd_to_days_def sint_of_nat_small m1 months_sum_eq year_start_def of_nat_diff algebra_simps)
qed

lemma days_to_ymd_valid:
  assumes "days_to_ymd n = (y, m, d)"
  shows "1970 \<le> y \<and> 1 \<le> m \<and> m \<le> 12 \<and> 1 \<le> d \<and> d \<le> month_days (int y) ! (m - 1) \<and>
    n = year_start y + sum_list (take (m - 1) (month_days (int y))) + (d - 1)"
proof -
  obtain r where yl: "year_loop 1970 n = (y, r)"
    using assms by (auto simp: days_to_ymd_def split: prod.splits)
  obtain r' where ml: "month_loop (month_days (int y)) 1 r = (m, r')" and d: "d = r' + 1"
    using assms yl by (auto simp: days_to_ymd_def split: prod.splits)
  have y: "1970 \<le> y" "r < year_days (int y)" "n = year_start y + r"
    using year_loop_spec [OF _ yl] by (simp_all add: year_start_def)
  have m: "1 \<le> m \<and> m - 1 < 12 \<and> r' < month_days (int y) ! (m - 1) \<and>
      r = sum_list (take (m - 1) (month_days (int y))) + r'"
    using month_loop_spec [OF ml] y by (simp add: sum_list_month_days)
  with y d show ?thesis by auto
qed

lemma days_to_ymd_start:
  assumes "1970 \<le> y" "1 \<le> m" "m \<le> 12" "1 \<le> d" "d \<le> month_days (int y) ! (m - 1)"
  shows "days_to_ymd (year_start y + sum_list (take (m - 1) (month_days (int y))) + (d - 1)) = (y, m, d)"
proof -
  let ?mds = "month_days (int y)"
  let ?r = "sum_list (take (m - 1) ?mds) + (d - 1)"
  have k: "m - 1 < length ?mds" "d - 1 < ?mds ! (m - 1)" using assms by auto
  have "?r < sum_list (take (Suc (m - 1)) ?mds)"
    using k by (simp add: take_Suc_conv_app_nth)
  also have "\<dots> \<le> sum_list ?mds"
    by (metis append_take_drop_id le_add1 sum_list_append)
  finally have "?r < year_days (int y)" by (simp add: sum_list_month_days)
  then have "year_loop 1970 (year_start y + ?r) = (y, ?r)"
    using year_loop_start [of 1970 y ?r] assms by (simp add: year_start_def)
  moreover have "month_loop ?mds 1 ?r = (1 + (m - 1), d - 1)"
    using k by (rule month_loop_start)
  ultimately show ?thesis
    using assms by (simp add: days_to_ymd_def add.assoc)
qed

lemma year_start_le: "year_start y \<le> 366 * y"
proof (induction y)
  case (Suc y)
  then show ?case
    by (cases "1970 \<le> y") (auto simp: year_start_Suc year_days_def year_start_def)
qed (simp add: year_start_def)

lemma ymd_to_days_unat:
  assumes "valid_date y m d"
  shows "unat (ymd_to_days (of_nat y) (of_nat m) (of_nat d)) =
    year_start y + sum_list (take (m - 1) (month_days (int y))) + (d - 1)"
proof -
  let ?n = "year_start y + sum_list (take (m - 1) (month_days (int y))) + (d - 1)"
  have "sum_list (take (m - 1) (month_days (int y))) \<le> year_days (int y)"
    unfolding sum_list_month_days [symmetric] by (metis append_take_drop_id le_add1 sum_list_append)
  moreover have "month_days (int y) ! (m - 1) \<le> 31"
    using assms by (auto simp: valid_date_def month_days_def nth_Cons' split: if_splits)
  ultimately have "?n < 2 ^ 64"
    using year_start_le [of y] assms by (auto simp: valid_date_def year_days_def split: if_splits)
  then have "unat (of_nat ?n :: i64) = ?n" by (subst unat_of_nat) simp
  then show ?thesis by (simp only: ymd_to_days_valid [OF assms])
qed

lemma days_ymd_roundtrip:
  assumes "valid_date y m d"
  shows "days_to_ymd (unat (ymd_to_days (of_nat y) (of_nat m) (of_nat d))) = (y, m, d)"
  using assms days_to_ymd_start [of y m d] by (simp only: ymd_to_days_unat [OF assms] valid_date_def)

lemma ymd_days_roundtrip:
  assumes "days_to_ymd n = (y, m, d)" "y < 2 ^ 32"
  shows "valid_date y m d" "unat (ymd_to_days (of_nat y) (of_nat m) (of_nat d)) = n"
proof -
  note v = days_to_ymd_valid [OF assms(1)]
  then show date: "valid_date y m d" using assms(2) by (simp add: valid_date_def)
  show "unat (ymd_to_days (of_nat y) (of_nat m) (of_nat d)) = n" using v by (simp only: ymd_to_days_unat [OF date])
qed

section \<open>DATE_FORMAT\<close>

definition month_names :: "string list" where
  "month_names = [''January'', ''February'', ''March'', ''April'', ''May'', ''June'', ''July'',
     ''August'', ''September'', ''October'', ''November'', ''December'']"

definition weekday_names :: "string list" where
  "weekday_names = [''Sunday'', ''Monday'', ''Tuesday'', ''Wednesday'', ''Thursday'', ''Friday'',
     ''Saturday'']"

definition day_of_week :: "i64 \<Rightarrow> nat" where \<comment> \<open>\<open>((t % 7 + 4) % 7 + 7) % 7\<close>\<close>
  "day_of_week t = nat (sint (tmod (tmod (tmod t 7 + 4) 7 + 7) 7))"

text \<open>\<open>(1..m).map(|mo| TABLE[mo - 1]).sum() + d\<close>: indexing past December panics.\<close>

definition day_of_year :: "i64 \<Rightarrow> i64 \<Rightarrow> i64 option" where
  "day_of_year m d =
     (let k = nat (sint m - 1)
      in if k \<le> 12
         then Some (word_of_int (int (sum_list (take k [31,28,31,30,31,30,31,31,30,31,30,31]))) + d)
         else None)"

record date_parts =
  dp_date :: string
  dp_y :: i64  dp_m :: i64  dp_d :: i64
  dp_h :: i64  dp_mi :: i64  dp_sec :: i64

definition get_or_0 :: "i64 list \<Rightarrow> nat \<Rightarrow> i64" where
  "get_or_0 xs i = (case vec_get xs i of Some v \<Rightarrow> v | None \<Rightarrow> 0)"

definition split_date :: "string \<Rightarrow> date_parts" where
  "split_date date_str =
     (let parts = splitn_char 2 CHR '' '' (trim date_str);
          date = (case vec_get parts 0 of Some p \<Rightarrow> p | None \<Rightarrow> '''');
          time = (case vec_get parts 1 of Some p \<Rightarrow> p | None \<Rightarrow> ''00:00:00'');
          dp = List.map_filter parse_i64 (splitn_char 3 CHR ''-'' date);
          tp = List.map_filter (\<lambda>p. parse_i64 (hd (split_char CHR ''.'' p))) (splitn_char 3 CHR '':'' time)
      in \<lparr>dp_date = date, dp_y = get_or_0 dp 0, dp_m = get_or_0 dp 1, dp_d = get_or_0 dp 2,
          dp_h = get_or_0 tp 0, dp_mi = get_or_0 tp 1, dp_sec = get_or_0 tp 2\<rparr>)"

definition month_name :: "i64 \<Rightarrow> string" where
  "month_name m = (if 0 < sint m \<and> sint m \<le> 12 then month_names ! nat (sint m - 1) else '''')"

definition weekday_name :: "string \<Rightarrow> string" where
  "weekday_name date =
     weekday_names ! day_of_week (case parse_date_str date of Some t \<Rightarrow> t | None \<Rightarrow> 0)"

definition format_code :: "date_parts \<Rightarrow> char \<Rightarrow> string option" where
  "format_code p c =
     (if c = CHR ''Y'' then Some (show_pad 4 (sint (dp_y p)))
      else if c = CHR ''y'' then Some (show_pad 2 (sint (tmod (dp_y p) 100)))
      else if c = CHR ''m'' then Some (show_pad 2 (sint (dp_m p)))
      else if c = CHR ''c'' then Some (show_i64 (dp_m p))
      else if c = CHR ''d'' then Some (show_pad 2 (sint (dp_d p)))
      else if c = CHR ''e'' then Some (show_i64 (dp_d p))
      else if c = CHR ''H'' then Some (show_pad 2 (sint (dp_h p)))
      else if c = CHR ''h'' \<or> c = CHR ''I''
        then Some (show_pad 2 (sint (if tmod (dp_h p) 12 = 0 then 12 else tmod (dp_h p) 12)))
      else if c = CHR ''i'' then Some (show_pad 2 (sint (dp_mi p)))
      else if c = CHR ''s'' \<or> c = CHR ''S'' then Some (show_pad 2 (sint (dp_sec p)))
      else if c = CHR ''p'' then Some (if sint (dp_h p) < 12 then ''AM'' else ''PM'')
      else if c = CHR ''M'' then Some (month_name (dp_m p))
      else if c = CHR ''b'' then Some (take 3 (month_name (dp_m p)))
      else if c = CHR ''j'' then map_option (\<lambda>n. show_pad 3 (sint n)) (day_of_year (dp_m p) (dp_d p))
      else if c = CHR ''W'' then Some (weekday_name (dp_date p))
      else if c = CHR ''a'' then Some (take 3 (weekday_name (dp_date p)))
      else if c = CHR ''%'' then Some ''%''
      else Some [CHR ''%'', c])"

fun format_loop :: "date_parts \<Rightarrow> string \<Rightarrow> string option" where
  "format_loop p [] = Some []"
| "format_loop p [c] = Some [c]"
| "format_loop p (c # c' # cs) =
     (if c = CHR ''%'' then do { a \<leftarrow> format_code p c'; b \<leftarrow> format_loop p cs; Some (a @ b) }
      else map_option (\<lambda>b. c # b) (format_loop p (c' # cs)))"

definition mysql_date_format :: "string \<Rightarrow> string \<Rightarrow> string option" where
  "mysql_date_format date_str fmt = format_loop (split_date date_str) fmt"

end
