(* ===== verification/Functions.thy ===== *)
theory Functions
  imports Dates
begin

text \<open>
  The scalar SQL functions of \<open>eval_row_expr\<close> (src/engine.rs), over already evaluated
  arguments, one definition per group of arms of the \<open>match\<close>. A result \<open>None\<close> is a panic.
\<close>

section \<open>Arguments\<close>

definition arg_text :: "Value list \<Rightarrow> nat \<Rightarrow> string option" where
  "arg_text args i = Option.bind (vec_get args i) into_text"

definition arg_int :: "Value list \<Rightarrow> nat \<Rightarrow> i64 option" where
  "arg_int args i = Option.bind (vec_get args i) into_int"

definition arg_or_null :: "Value list \<Rightarrow> nat \<Rightarrow> Value" where
  "arg_or_null args i = (case vec_get args i of Some v \<Rightarrow> v | None \<Rightarrow> Null)"

definition text_or :: "string \<Rightarrow> Value list \<Rightarrow> nat \<Rightarrow> string" where
  "text_or s args i = (case arg_text args i of Some t \<Rightarrow> t | None \<Rightarrow> s)"

definition map_text :: "Value list \<Rightarrow> (string \<Rightarrow> Value) \<Rightarrow> Value" where
  "map_text args f = (case arg_text args 0 of Some s \<Rightarrow> f s | None \<Rightarrow> Null)"

definition usize_or :: "int \<Rightarrow> Value list \<Rightarrow> nat \<Rightarrow> nat" where \<comment> \<open>\<open>unwrap_or(k).max(0) as usize\<close>\<close>
  "usize_or k args i = nat (case arg_int args i of Some n \<Rightarrow> sint n | None \<Rightarrow> k)"

section \<open>Helpers\<close>

definition hex_digit :: "nat \<Rightarrow> char" where
  "hex_digit d = (if d < 10 then digit_char d else char_of (55 + d))"

fun show_hex :: "nat \<Rightarrow> string" where
  "show_hex n = (if n < 16 then [hex_digit n] else show_hex (n div 16) @ [hex_digit (n mod 16)])"

declare show_hex.simps [simp del]

definition hex_byte :: "char \<Rightarrow> string" where
  "hex_byte c = [hex_digit ((of_char c :: nat) div 16), hex_digit ((of_char c :: nat) mod 16)]"

function replace_from :: "string \<Rightarrow> string \<Rightarrow> string \<Rightarrow> string" where
  "replace_from from to [] = []"
| "replace_from from to (c # cs) =
     (if from \<noteq> [] \<and> starts_with from (c # cs)
      then to @ replace_from from to (drop (length from) (c # cs))
      else c # replace_from from to cs)"
  by pat_completeness auto
termination by (relation "measure (\<lambda>(_, _, s). length s)") (auto simp: neq_Nil_conv)

definition replace_str :: "string \<Rightarrow> string \<Rightarrow> string \<Rightarrow> string" where
  "replace_str from to s =
     (if from = [] then to @ concat (map (\<lambda>c. c # to) s) else replace_from from to s)"

definition cycle_take :: "nat \<Rightarrow> string \<Rightarrow> string" where
  "cycle_take n pad = map (\<lambda>i. pad ! (i mod length pad)) [0..<n]"

section \<open>Text functions\<close>

definition fn_substring :: "Value list \<Rightarrow> Value" where
  "fn_substring args =
     (let s = text_or '''' args 0;
          start = nat (max 1 (case arg_int args 1 of Some n \<Rightarrow> sint n | None \<Rightarrow> 1)) - 1;
          slice = drop start s
      in VText (case arg_int args 2 of Some n \<Rightarrow> take (nat (sint n)) slice | None \<Rightarrow> slice))"

definition fn_pad :: "bool \<Rightarrow> Value list \<Rightarrow> Value" where
  "fn_pad left args =
     (let s = text_or '''' args 0; len = usize_or 0 args 1; pad = text_or '' '' args 2
      in if len \<le> length s \<or> pad = [] then VText s
         else let fill = cycle_take (len - length s) pad
              in VText (if left then fill @ s else s @ fill))"

definition fn_hex :: "Value list \<Rightarrow> Value" where
  "fn_hex args =
     (case vec_get args 0 of
        Some (VInt i) \<Rightarrow> VText (show_hex (unat i))
      | Some (VText s) \<Rightarrow> VText (concat (map hex_byte s))
      | _ \<Rightarrow> Null)"

text \<open>\<open>str::repeat\<close> panics when the length of the result does not fit \<open>isize\<close>.\<close>

definition fn_repeat :: "Value list \<Rightarrow> Value option" where
  "fn_repeat args =
     (let s = text_or '''' args 0; n = usize_or 0 args 1
      in if length s * n < 2 ^ 63 then Some (VText (concat (replicate n s))) else None)"

definition fn_text :: "string \<Rightarrow> Value list \<Rightarrow> Value option" where
  "fn_text f args =
     (if f = ''UPPER'' then Some (map_text args (VText \<circ> to_upper))
      else if f = ''LOWER'' then Some (map_text args (VText \<circ> to_lower))
      else if f \<in> {''LENGTH'', ''CHAR_LENGTH'', ''CHARACTER_LENGTH''}
        then Some (map_text args (\<lambda>s. VInt (of_nat (length s))))
      else if f = ''TRIM'' then Some (map_text args (VText \<circ> trim))
      else if f = ''LTRIM'' then Some (map_text args (VText \<circ> trim_start_by is_ws))
      else if f = ''RTRIM'' then Some (map_text args (VText \<circ> trim_end_by is_ws))
      else if f = ''REVERSE'' then Some (map_text args (VText \<circ> rev))
      else if f = ''HEX'' then Some (fn_hex args)
      else if f = ''CONCAT'' then Some (VText (concat (List.map_filter into_text args)))
      else if f = ''CONCAT_WS''
        then Some (VText (join (text_or '''' args 0) (List.map_filter into_text (drop 1 args))))
      else if f = ''LEFT'' then Some (VText (take (usize_or 0 args 1) (text_or '''' args 0)))
      else if f = ''RIGHT''
        then (let s = text_or '''' args 0 in Some (VText (drop (length s - usize_or 0 args 1) s)))
      else if f \<in> {''SUBSTRING'', ''SUBSTR'', ''MID''} then Some (fn_substring args)
      else if f = ''REPLACE''
        then Some (VText (replace_str (text_or '''' args 1) (text_or '''' args 2) (text_or '''' args 0)))
      else if f = ''REPEAT'' then fn_repeat args
      else if f = ''LPAD'' then Some (fn_pad True args)
      else Some (fn_pad False args))"

section \<open>Numeric functions\<close>

datatype rounding = RFloor | RCeil | RTrunc | RRound

definition f64_integral :: "rounding \<Rightarrow> f64 \<Rightarrow> f64" where
  "f64_integral md x =
     (case view x of
        FFin s m e \<Rightarrow>
          if 0 \<le> e then x
          else let d = 2 ^ nat (- e); q = m div d; r = m mod d;
                   up = (case md of RTrunc \<Rightarrow> False | RRound \<Rightarrow> d \<le> 2 * r
                         | RFloor \<Rightarrow> s \<and> 0 < r | RCeil \<Rightarrow> \<not> s \<and> 0 < r)
               in round_dyadic s (if up then Suc q else q) 0
      | _ \<Rightarrow> x)"

text \<open>\<open>sqrt\<close> is correctly rounded: the integer root of the mantissa scaled by an even power.\<close>

function isqrt :: "nat \<Rightarrow> nat" where
  "isqrt n =
     (if n = 0 then 0
      else let r = 2 * isqrt (n div 4) in if (r + 1) * (r + 1) \<le> n then r + 1 else r)"
  by pat_completeness auto
termination by (relation "measure id") auto

declare isqrt.simps [simp del]

definition f64_sqrt :: "f64 \<Rightarrow> f64" where
  "f64_sqrt x =
     (case view x of
        FNaN \<Rightarrow> f64_nan
      | FInf s \<Rightarrow> if s then f64_nan else x
      | FFin s m e \<Rightarrow>
          if m = 0 then x
          else if s then f64_nan
          else let k = (if even e then 120 else 121) :: int;
                   n = m * 2 ^ nat k; r = isqrt n
               in round_dyadic False (2 * r + (if r * r = n then 0 else 1)) ((e - k) div 2 - 1))"

definition fn_round :: "'q crates \<Rightarrow> Value list \<Rightarrow> Value" where
  "fn_round x args =
     (case arg_or_null args 0 of
        VFloat f \<Rightarrow>
          let dec = (case arg_int args 1 of Some n \<Rightarrow> n | None \<Rightarrow> 0);
              m = f64_powi x (f64_of_int 10) (sint (ucast dec :: u32))
          in VFloat (f64_div (f64_integral RRound (f64_mul f m)) m)
      | VInt i \<Rightarrow> VInt i
      | _ \<Rightarrow> Null)"

definition fn_mod :: "Value list \<Rightarrow> Value option" where
  "fn_mod args =
     (case (arg_or_null args 0, arg_or_null args 1) of
        (VInt a, VInt b) \<Rightarrow> if b \<noteq> 0 then map_option VInt (i64_rem a b) else Some Null
      | (VFloat a, VFloat b) \<Rightarrow> Some (if \<not> f64_is_zero b then VFloat (f64_rem a b) else Null)
      | _ \<Rightarrow> Some Null)"

definition fn_pow :: "'q crates \<Rightarrow> Value list \<Rightarrow> Value" where
  "fn_pow x args =
     (case (arg_or_null args 0, arg_or_null args 1) of
        (VInt b, VInt e) \<Rightarrow> if 0 \<le> sint e then VInt (b ^ unat (ucast e :: u32)) else Null
      | (VFloat b, VFloat e) \<Rightarrow> VFloat (f64_powf x b e)
      | (VInt b, VFloat e) \<Rightarrow> VFloat (f64_powf x (f64_of_int (sint b)) e)
      | (VFloat b, VInt e) \<Rightarrow> VFloat (f64_powi x b (sint (ucast e :: u32)))
      | _ \<Rightarrow> Null)"

definition fn_numeric :: "'q crates \<Rightarrow> string \<Rightarrow> Value list \<Rightarrow> Value option" where
  "fn_numeric x f args =
     (if f = ''ABS''
        then Some (case vec_get args 0 of
                     Some (VInt i) \<Rightarrow> VInt (i64_abs i) | Some (VFloat g) \<Rightarrow> VFloat (f64_abs g) | _ \<Rightarrow> Null)
      else if f \<in> {''CEIL'', ''CEILING''}
        then Some (case vec_get args 0 of
                     Some (VFloat g) \<Rightarrow> VInt (f64_to_i64 (f64_integral RCeil g))
                   | Some (VInt i) \<Rightarrow> VInt i | _ \<Rightarrow> Null)
      else if f = ''FLOOR''
        then Some (case vec_get args 0 of
                     Some (VFloat g) \<Rightarrow> VInt (f64_to_i64 (f64_integral RFloor g))
                   | Some (VInt i) \<Rightarrow> VInt i | _ \<Rightarrow> Null)
      else if f = ''ROUND'' then Some (fn_round x args)
      else if f = ''MOD'' then fn_mod args
      else if f \<in> {''POW'', ''POWER''} then Some (fn_pow x args)
      else Some (case vec_get args 0 of
                   Some (VFloat g) \<Rightarrow> VFloat (f64_sqrt g)
                 | Some (VInt i) \<Rightarrow> VFloat (f64_sqrt (f64_of_int (sint i))) | _ \<Rightarrow> Null))"

section \<open>Date and time functions\<close>

definition show_time :: "nat \<Rightarrow> string" where
  "show_time ts =
     show_pad 2 (int (ts div 3600 mod 24)) @ '':'' @ show_pad 2 (int (ts div 60 mod 60)) @ '':'' @
     show_pad 2 (int (ts mod 60))"

definition show_ymd :: "nat \<Rightarrow> string" where
  "show_ymd days =
     (case days_to_ymd days of (y, mo, d) \<Rightarrow>
        show_pad 4 (int y) @ ''-'' @ show_pad 2 (int mo) @ ''-'' @ show_pad 2 (int d))"

text \<open>
  The loop of \<open>STR_TO_DATE\<close>. \<open>take_while\<close> on the character iterator also consumes the first
  character that fails the test, so after each number one more character is gone.
\<close>

definition num_or_0 :: "string \<Rightarrow> i64" where
  "num_or_0 s = (case parse_i64 s of Some n \<Rightarrow> n | None \<Rightarrow> 0)"

definition set_part :: "char \<Rightarrow> string \<Rightarrow> i64 \<times> i64 \<times> i64 \<Rightarrow> i64 \<times> i64 \<times> i64" where
  "set_part code num r =
     (case r of (y, m, d) \<Rightarrow>
        if code = CHR ''Y'' then (num_or_0 num, m, d)
        else if code = CHR ''y'' then (num_or_0 num + 2000, m, d)
        else if code = CHR ''m'' \<or> code = CHR ''c'' then (y, num_or_0 num, d)
        else if code = CHR ''d'' \<or> code = CHR ''e'' then (y, m, num_or_0 num)
        else (y, m, d))"

fun str_to_date_loop :: "string \<Rightarrow> string \<Rightarrow> i64 \<times> i64 \<times> i64 \<Rightarrow> i64 \<times> i64 \<times> i64" where
  "str_to_date_loop [] s r = r"
| "str_to_date_loop (fc # fs) s r =
     (if fc = CHR ''%''
      then str_to_date_loop (drop 1 fs) (drop 1 (dropWhile is_digit s))
             (set_part (case fs of [] \<Rightarrow> CHR '' '' | code # _ \<Rightarrow> code) (takeWhile is_digit s) r)
      else str_to_date_loop fs (drop 1 s) r)"

definition fn_str_to_date :: "Value list \<Rightarrow> Value" where
  "fn_str_to_date args =
     (let s = text_or '''' args 0; fmt = text_or '''' args 1
      in if s = [] then Null
         else if contains ''%Y'' fmt \<and> contains ''%m'' fmt \<and> contains ''%d'' fmt then
           (case str_to_date_loop fmt s (0, 0, 0) of (y, m, d) \<Rightarrow>
              if 0 < sint y \<and> 0 < sint m \<and> 0 < sint d then VText (format_date_ymd y m d) else Null)
         else VText s)"

definition fn_datediff :: "Value list \<Rightarrow> Value" where
  "fn_datediff args =
     (case (Option.bind (arg_text args 0) parse_date_str, Option.bind (arg_text args 1) parse_date_str) of
        (Some a, Some b) \<Rightarrow> VInt (a - b)
      | _ \<Rightarrow> Null)"

definition int_or_null :: "i64 option \<Rightarrow> Value" where
  "int_or_null n = (case n of Some i \<Rightarrow> VInt i | None \<Rightarrow> Null)"

definition fn_time :: "'q crates \<Rightarrow> string \<Rightarrow> Value list \<Rightarrow> Value option" where
  "fn_time x f args =
     (let ts = unix_now x in
      if f \<in> {''NOW'', ''CURRENT_TIMESTAMP'', ''SYSDATE''}
        then Some (VText (show_ymd (ts div 86400) @ '' '' @ show_time ts))
      else if f \<in> {''CURDATE'', ''CURRENT_DATE''} then Some (VText (show_ymd (ts div 86400)))
      else if f \<in> {''CURTIME'', ''CURRENT_TIME''} then Some (VText (show_time ts))
      else if f = ''UNIX_TIMESTAMP'' then Some (VInt (of_nat ts))
      else if f = ''YEAR''
        then Some (map_text args (\<lambda>s. int_or_null (parse_i64 (hd (split_char CHR ''-'' s)))))
      else if f = ''MONTH''
        then Some (map_text args (\<lambda>s. int_or_null (Option.bind (vec_get (splitn_char 3 CHR ''-'' s) 1) parse_i64)))
      else if f \<in> {''DAY'', ''DAYOFMONTH''}
        then Some (map_text args (\<lambda>s. int_or_null
               (Option.bind (vec_get (splitn_char 4 CHR ''-'' s) 2)
                  (\<lambda>d. parse_i64 (hd (split_char CHR '' '' d))))))
      else if f = ''DATEDIFF'' then Some (fn_datediff args)
      else if f = ''DATE_FORMAT''
        then (let d = text_or '''' args 0; fmt = text_or '''' args 1
              in if d = [] then Some Null else map_option VText (mysql_date_format d fmt))
      else if f = ''DATE''
        then Some (map_text args (\<lambda>s. VText (case split_whitespace s of [] \<Rightarrow> '''' | w # _ \<Rightarrow> w)))
      else if f = ''TIME''
        then Some (map_text args (\<lambda>s. VText
               (case vec_get (split_whitespace s) 1 of Some w \<Rightarrow> w | None \<Rightarrow> ''00:00:00'')))
      else Some (fn_str_to_date args))"

section \<open>FORMAT, TRUNCATE, SIGN\<close>

fun chunks3 :: "string \<Rightarrow> string list" where
  "chunks3 [] = []"
| "chunks3 (a # b # c # s) = [a, b, c] # chunks3 s"
| "chunks3 s = [s]"

definition group_thousands :: "string \<Rightarrow> string" where
  "group_thousands s =
     (let start = length s mod 3
      in join '','' ((if 0 < start then [take start s] else []) @ chunks3 (drop start s)))"

definition int_arg_or_0 :: "Value list \<Rightarrow> nat \<Rightarrow> i64" where
  "int_arg_or_0 args i = (case vec_get args i of Some (VInt n) \<Rightarrow> n | _ \<Rightarrow> 0)"

definition f64_arg :: "Value \<Rightarrow> f64 option" where
  "f64_arg v =
     (case v of
        VInt n \<Rightarrow> Some (f64_of_int (sint n))
      | VFloat f \<Rightarrow> Some f
      | VText s \<Rightarrow> Some (case f64_parse s of Some f \<Rightarrow> f | None \<Rightarrow> f64_zero False)
      | _ \<Rightarrow> None)"

text \<open>\<open>% factor as i64\<close> panics when the factor truncates to 0, which a negative count of decimals gives.\<close>

definition fn_format :: "'q crates \<Rightarrow> Value list \<Rightarrow> Value option" where
  "fn_format x args =
     (case f64_arg (arg_or_null args 0) of
        None \<Rightarrow> Some Null
      | Some f \<Rightarrow>
          let dec = int_arg_or_0 args 1;
              factor = f64_powi x (f64_of_int 10) (sint (ucast dec :: u32));
              rounded = f64_div (f64_integral RRound (f64_mul f factor)) factor;
              int_part = f64_to_i64 (f64_abs rounded);
              cents = f64_to_i64 (f64_integral RRound (f64_mul (f64_abs rounded) factor));
              formatted = group_thousands (show_i64 int_part);
              sgn = (if f64_partial_cmp f (f64_zero False) = Some Less then ''-'' else [])
          in do {
               frac \<leftarrow> i64_rem cents (f64_to_i64 factor);
               Some (VText (if 0 < unat dec then sgn @ formatted @ ''.'' @ pad0 (unat dec) (show_i64 frac)
                            else sgn @ formatted))
             })"

definition fn_truncate :: "'q crates \<Rightarrow> Value list \<Rightarrow> Value" where
  "fn_truncate x args =
     (let v = arg_or_null args 0; dec = int_arg_or_0 args 1 in
      case (v, f64_arg v) of
        (VInt n, Some f) \<Rightarrow>
          if 0 \<le> sint dec then VInt n
          else let factor = f64_powi x (f64_of_int 10) (sint (ucast (- dec) :: u32))
               in VInt (f64_to_i64 (f64_mul (f64_integral RTrunc (f64_div f factor)) factor))
      | (_, Some f) \<Rightarrow>
          if 0 \<le> sint dec then
            let factor = f64_powi x (f64_of_int 10) (sint (ucast dec :: u32));
                truncated = f64_div (f64_integral RTrunc (f64_mul f factor)) factor
            in if dec = 0 then VInt (f64_to_i64 truncated) else VFloat truncated
          else let factor = f64_powi x (f64_of_int 10) (sint (ucast (- dec) :: u32))
               in VInt (f64_to_i64 (f64_mul (f64_integral RTrunc (f64_div f factor)) factor))
      | (_, None) \<Rightarrow> Null)"

definition fn_sign :: "Value list \<Rightarrow> Value" where
  "fn_sign args =
     (case arg_or_null args 0 of
        VInt n \<Rightarrow> VInt (if sint n < 0 then - 1 else if n = 0 then 0 else 1)
      | VFloat f \<Rightarrow>
          VInt (case f64_partial_cmp f (f64_zero False) of
                  Some Greater \<Rightarrow> 1 | Some Less \<Rightarrow> - 1 | _ \<Rightarrow> 0)
      | _ \<Rightarrow> Null)"

section \<open>Conditional functions\<close>

text \<open>\<open>max_by\<close> keeps the last maximum, \<open>min_by\<close> the first minimum.\<close>

fun max_by :: "('a \<Rightarrow> 'a \<Rightarrow> ordering) \<Rightarrow> 'a list \<Rightarrow> 'a option" where
  "max_by c [] = None"
| "max_by c (v # vs) = Some (foldl (\<lambda>a b. if c a b = Greater then a else b) v vs)"

fun min_by :: "('a \<Rightarrow> 'a \<Rightarrow> ordering) \<Rightarrow> 'a list \<Rightarrow> 'a option" where
  "min_by c [] = None"
| "min_by c (v # vs) = Some (foldl (\<lambda>a b. if c a b = Greater then b else a) v vs)"

definition null_if_none :: "Value option \<Rightarrow> Value" where
  "null_if_none v = (case v of Some w \<Rightarrow> w | None \<Rightarrow> Null)"

definition fn_cond :: "'q crates \<Rightarrow> string \<Rightarrow> Value list \<Rightarrow> Value" where
  "fn_cond x f args =
     (if f = ''IF''
        then (if arg_or_null args 0 \<noteq> VInt 0 \<and> arg_or_null args 0 \<noteq> Null
              then arg_or_null args 1 else arg_or_null args 2)
      else if f \<in> {''IFNULL'', ''NVL''}
        then (if arg_or_null args 0 = Null then arg_or_null args 1 else arg_or_null args 0)
      else if f = ''NULLIF''
        then (if values_eq x (arg_or_null args 0) (arg_or_null args 1) then Null else arg_or_null args 0)
      else if f = ''COALESCE'' then null_if_none (find (\<lambda>v. v \<noteq> Null) args)
      else if f = ''ISNULL'' then VInt (if arg_or_null args 0 = Null then 1 else 0)
      else if f = ''GREATEST''
        then null_if_none (max_by (values_cmp x) (filter (\<lambda>v. v \<noteq> Null) args))
      else if f = ''LEAST''
        then null_if_none (min_by (values_cmp x) (filter (\<lambda>v. v \<noteq> Null) args))
      else if f = ''FIELD''
        then VInt (case position (values_eq x (arg_or_null args 0)) (drop 1 args) of
                     Some i \<Rightarrow> of_nat (i + 1) | None \<Rightarrow> 0)
      else VInt (case position (\<lambda>s. s = text_or [] args 0) (split_char CHR '','' (text_or [] args 1)) of
                   Some i \<Rightarrow> of_nat (i + 1) | None \<Rightarrow> 0))"

section \<open>Dispatch on the function name\<close>

definition text_functions :: "string list" where
  "text_functions = [''UPPER'', ''LOWER'', ''LENGTH'', ''CHAR_LENGTH'', ''CHARACTER_LENGTH'', ''TRIM'',
     ''LTRIM'', ''RTRIM'', ''REVERSE'', ''HEX'', ''CONCAT'', ''CONCAT_WS'', ''LEFT'', ''RIGHT'',
     ''SUBSTRING'', ''SUBSTR'', ''MID'', ''REPLACE'', ''REPEAT'', ''LPAD'', ''RPAD'']"

definition numeric_functions :: "string list" where
  "numeric_functions = [''ABS'', ''CEIL'', ''CEILING'', ''FLOOR'', ''ROUND'', ''MOD'', ''POW'', ''POWER'',
     ''SQRT'']"

definition time_functions :: "string list" where
  "time_functions = [''NOW'', ''CURRENT_TIMESTAMP'', ''SYSDATE'', ''CURDATE'', ''CURRENT_DATE'', ''CURTIME'',
     ''CURRENT_TIME'', ''UNIX_TIMESTAMP'', ''YEAR'', ''MONTH'', ''DAY'', ''DAYOFMONTH'', ''DATEDIFF'',
     ''DATE_FORMAT'', ''DATE'', ''TIME'', ''STR_TO_DATE'']"

definition cond_functions :: "string list" where
  "cond_functions = [''IF'', ''IFNULL'', ''NVL'', ''NULLIF'', ''COALESCE'', ''ISNULL'', ''GREATEST'',
     ''LEAST'', ''FIELD'', ''FIND_IN_SET'']"

definition eval_scalar :: "'q crates \<Rightarrow> string \<Rightarrow> Value list \<Rightarrow> Value option" where
  "eval_scalar x f args =
     (if f \<in> set text_functions then fn_text f args
      else if f \<in> set numeric_functions then fn_numeric x f args
      else if f \<in> set time_functions then fn_time x f args
      else if f = ''FORMAT'' then fn_format x args
      else if f = ''TRUNCATE'' then Some (fn_truncate x args)
      else if f = ''SIGN'' then Some (fn_sign args)
      else if f \<in> set cond_functions then Some (fn_cond x f args)
      else Some Null)"

end
