(* ===== verification/Eval.thy ===== *)
theory Eval
  imports Functions
begin

text \<open>
  Expression evaluation of src/engine.rs: \<open>eval_row_expr\<close> (the value of an expression on a row),
  \<open>eval_cond\<close> (\<open>eval_where\<close> in the source: a predicate on a row), and their counterparts for prepared statements,
  \<open>resolve_expr_bound\<close> and \<open>eval_where_bound\<close>. A result \<open>None\<close> is a panic of the evaluation.
\<close>

section \<open>Columns\<close>

definition cell_or_null :: "row \<Rightarrow> nat option \<Rightarrow> Value" where
  "cell_or_null row i = (case Option.bind i (vec_get row) of Some v \<Rightarrow> v | None \<Rightarrow> Null)"

definition lookup_ident :: "row \<Rightarrow> column list \<Rightarrow> string \<Rightarrow> Value" where
  "lookup_ident row cols n = cell_or_null row (col_position cols n)"

definition lookup_compound :: "row \<Rightarrow> column list \<Rightarrow> string list \<Rightarrow> Value" where
  "lookup_compound row cols parts =
     (if parts = [] then Null
      else cell_or_null row
             (case col_position cols (join ''.'' parts) of
                Some i \<Rightarrow> Some i
              | None \<Rightarrow> col_position cols (last parts)))"

section \<open>Operators\<close>

definition bool_value :: "bool \<Rightarrow> Value" where
  "bool_value b = VInt (if b then 1 else 0)"

definition truthy :: "Value \<Rightarrow> bool" where \<comment> \<open>the operands of AND and OR\<close>
  "truthy v = (case v of VInt n \<Rightarrow> n \<noteq> 0 | VText s \<Rightarrow> s \<noteq> [] \<and> s \<noteq> ''0'' | _ \<Rightarrow> False)"

definition truthy_int :: "Value \<Rightarrow> bool" where \<comment> \<open>the operands of XOR\<close>
  "truthy_int v = (case v of VInt n \<Rightarrow> n \<noteq> 0 | _ \<Rightarrow> False)"

definition int_binop :: "(i64 \<Rightarrow> i64 \<Rightarrow> i64) \<Rightarrow> Value \<Rightarrow> Value \<Rightarrow> Value" where
  "int_binop f l r = (case (l, r) of (VInt a, VInt b) \<Rightarrow> VInt (f a b) | _ \<Rightarrow> Null)"

definition shift_op :: "(nat \<Rightarrow> i64 \<Rightarrow> i64) \<Rightarrow> Value \<Rightarrow> Value \<Rightarrow> Value" where
  "shift_op f l r =
     (case (l, r) of
        (VInt a, VInt b) \<Rightarrow> if 0 \<le> sint b \<and> sint b < 64 then VInt (f (unat b) a) else Null
      | _ \<Rightarrow> Null)"

text \<open>\<open>DIV\<close>: the guard looks at the float divisor, the division uses its integer part.\<close>

definition integer_divide :: "Value \<Rightarrow> Value \<Rightarrow> Value option" where
  "integer_divide l r =
     (case (l, r) of
        (VInt a, VInt b) \<Rightarrow> if b \<noteq> 0 then map_option VInt (i64_div a b) else Some Null
      | (VFloat a, VInt b) \<Rightarrow> if b \<noteq> 0 then map_option VInt (i64_div (f64_to_i64 a) b) else Some Null
      | (VInt a, VFloat b) \<Rightarrow>
          if \<not> f64_is_zero b then map_option VInt (i64_div a (f64_to_i64 b)) else Some Null
      | _ \<Rightarrow> Some Null)"

definition int_arith :: "binary_op \<Rightarrow> i64 \<Rightarrow> i64 \<Rightarrow> Value option" where
  "int_arith op a b =
     (case op of
        OpAdd \<Rightarrow> Some (VInt (a + b))
      | OpSub \<Rightarrow> Some (VInt (a - b))
      | OpMultiply \<Rightarrow> Some (VInt (a * b))
      | OpDivide \<Rightarrow> if b \<noteq> 0 then map_option VInt (i64_div a b) else Some Null
      | _ \<Rightarrow> if b \<noteq> 0 then map_option VInt (i64_rem a b) else Some Null)"

definition float_arith :: "binary_op \<Rightarrow> f64 \<Rightarrow> f64 \<Rightarrow> Value" where
  "float_arith op a b =
     (case op of
        OpAdd \<Rightarrow> VFloat (f64_add a b)
      | OpSub \<Rightarrow> VFloat (f64_sub a b)
      | OpMultiply \<Rightarrow> VFloat (f64_mul a b)
      | OpDivide \<Rightarrow> if \<not> f64_is_zero b then VFloat (f64_div a b) else Null
      | _ \<Rightarrow> VFloat (f64_rem a b))"

definition arith :: "binary_op \<Rightarrow> Value \<Rightarrow> Value \<Rightarrow> Value option" where
  "arith op l r =
     (case (l, r) of
        (VInt a, VInt b) \<Rightarrow> int_arith op a b
      | (VFloat a, VFloat b) \<Rightarrow> Some (float_arith op a b)
      | (VInt a, VFloat b) \<Rightarrow> Some (float_arith op (f64_of_int (sint a)) b)
      | (VFloat a, VInt b) \<Rightarrow> Some (float_arith op a (f64_of_int (sint b)))
      | (VText a, VText b) \<Rightarrow> Some (if op = OpAdd then VText (a @ b) else Null)
      | _ \<Rightarrow> Some Null)"

definition compare_op :: "'q crates \<Rightarrow> binary_op \<Rightarrow> Value \<Rightarrow> Value \<Rightarrow> bool" where
  "compare_op x op l r =
     (case op of
        OpEq \<Rightarrow> values_eq x l r
      | OpNotEq \<Rightarrow> \<not> values_eq x l r
      | OpLt \<Rightarrow> values_cmp x l r = Less
      | OpLtEq \<Rightarrow> values_cmp x l r \<noteq> Greater
      | OpGt \<Rightarrow> values_cmp x l r = Greater
      | OpGtEq \<Rightarrow> values_cmp x l r \<noteq> Less
      | _ \<Rightarrow> True)"

definition binop_value :: "'q crates \<Rightarrow> binary_op \<Rightarrow> Value \<Rightarrow> Value \<Rightarrow> Value option" where
  "binop_value x op l r =
     (case op of
        OpMyIntegerDivide \<Rightarrow> integer_divide l r
      | OpBitwiseOr \<Rightarrow> Some (int_binop (OR) l r)
      | OpBitwiseAnd \<Rightarrow> Some (int_binop (AND) l r)
      | OpBitwiseXor \<Rightarrow> Some (int_binop (XOR) l r)
      | OpPGBitwiseShiftLeft \<Rightarrow> Some (shift_op push_bit l r)
      | OpPGBitwiseShiftRight \<Rightarrow> Some (shift_op signed_drop_bit l r)
      | OpStringConcat \<Rightarrow> Some (VText (default_str (into_text l) @ default_str (into_text r)))
      | OpAnd \<Rightarrow> Some (bool_value (truthy l \<and> truthy r))
      | OpOr \<Rightarrow> Some (bool_value (truthy l \<or> truthy r))
      | OpXor \<Rightarrow> Some (bool_value (truthy_int l \<noteq> truthy_int r))
      | OpAdd \<Rightarrow> arith op l r | OpSub \<Rightarrow> arith op l r | OpMultiply \<Rightarrow> arith op l r
      | OpDivide \<Rightarrow> arith op l r | OpModulo \<Rightarrow> arith op l r
      | OpBinaryOther \<Rightarrow> Some Null
      | _ \<Rightarrow> Some (bool_value (compare_op x op l r)))"

definition unop_value :: "unary_op \<Rightarrow> Value \<Rightarrow> Value" where
  "unop_value op v =
     (case op of
        OpMinus \<Rightarrow> (case v of VInt i \<Rightarrow> VInt (- i) | VFloat f \<Rightarrow> VFloat (f64_neg f) | _ \<Rightarrow> Null)
      | OpPlus \<Rightarrow> v
      | _ \<Rightarrow> Null)"

definition in_range :: "'q crates \<Rightarrow> Value \<Rightarrow> Value \<Rightarrow> Value \<Rightarrow> bool" where
  "in_range x v lo hi \<longleftrightarrow> values_cmp x v lo \<noteq> Less \<and> values_cmp x v hi \<noteq> Greater"

section \<open>CAST and CONVERT\<close>

definition cast_int :: "Value \<Rightarrow> Value" where
  "cast_int v =
     (case v of
        VInt i \<Rightarrow> VInt i
      | VFloat f \<Rightarrow> VInt (f64_to_i64 f)
      | VText s \<Rightarrow> int_or_null (parse_i64 (trim s))
      | _ \<Rightarrow> Null)"

definition cast_unsigned :: "Value \<Rightarrow> Value" where
  "cast_unsigned v =
     (case v of
        VInt i \<Rightarrow> VInt (i64_abs i)
      | VFloat f \<Rightarrow> VInt (f64_to_i64 (f64_abs f))
      | VText s \<Rightarrow> int_or_null (map_option i64_abs (parse_i64 (trim s)))
      | _ \<Rightarrow> Null)"

definition cast_text :: "Value \<Rightarrow> Value" where
  "cast_text v = (case into_text v of Some s \<Rightarrow> VText s | None \<Rightarrow> Null)"

definition cast_float :: "Value \<Rightarrow> Value" where
  "cast_float v =
     (case v of
        VFloat f \<Rightarrow> VFloat f
      | VInt i \<Rightarrow> VFloat (f64_of_int (sint i))
      | VText s \<Rightarrow> (case f64_parse (trim s) of Some f \<Rightarrow> VFloat f | None \<Rightarrow> Null)
      | _ \<Rightarrow> Null)"

definition cast_date :: "Value \<Rightarrow> Value" where
  "cast_date v =
     (case v of
        VText s \<Rightarrow> VText (case split_whitespace s of [] \<Rightarrow> [] | w # _ \<Rightarrow> w)
      | _ \<Rightarrow> Null)"

definition cast_datetime :: "Value \<Rightarrow> Value" where
  "cast_datetime v =
     (case v of
        VText s \<Rightarrow> VText s
      | VInt n \<Rightarrow>
          VText (show_ymd (unat n div 86400) @ '' '' @
                 show_pad 2 (sint (tmod (tdiv n 3600) 24)) @ '':'' @
                 show_pad 2 (sint (tmod (tdiv n 60) 60)) @ '':'' @ show_pad 2 (sint (tmod n 60)))
      | _ \<Rightarrow> Null)"

definition cast_boolean :: "Value \<Rightarrow> Value" where
  "cast_boolean v =
     (case v of
        VInt n \<Rightarrow> bool_value (n \<noteq> 0)
      | VText s \<Rightarrow> bool_value (eq_ignore_case s ''true'' \<or> s = ''1'')
      | _ \<Rightarrow> Null)"

fun is_varchar :: "data_type \<Rightarrow> bool" where
  "is_varchar (DtVarchar n) = True"
| "is_varchar _ = False"

definition cast_value :: "data_type \<Rightarrow> Value \<Rightarrow> Value" where
  "cast_value dt v =
     (if dt \<in> {DtInt, DtInteger, DtSmallInt, DtTinyInt, DtBigInt, DtSigned, DtSignedInteger} then cast_int v
      else if dt \<in> {DtText, DtChar, DtString} \<or> is_varchar dt then cast_text v
      else if dt \<in> {DtUnsigned, DtUnsignedInteger} then cast_unsigned v
      else if dt = DtDate then cast_date v
      else if dt \<in> {DtDatetime, DtTimestamp} then cast_datetime v
      else if dt = DtBoolean then cast_boolean v
      else if dt \<in> {DtFloat, DtReal, DtDouble, DtDoublePrecision} then cast_float v
      else v)"

text \<open>\<open>CONVERT\<close> has no arms for \<open>DATETIME\<close>, \<open>TIMESTAMP\<close> and \<open>BOOLEAN\<close>.\<close>

definition convert_value :: "data_type option \<Rightarrow> Value \<Rightarrow> Value" where
  "convert_value dt v =
     (case dt of
        None \<Rightarrow> v
      | Some d \<Rightarrow> if d \<in> {DtDatetime, DtTimestamp, DtBoolean} then v else cast_value d v)"

section \<open>Date arithmetic on evaluated arguments\<close>

definition date_shift :: "bool \<Rightarrow> string \<Rightarrow> i64 \<Rightarrow> string \<Rightarrow> string option" where
  "date_shift is_sub ds n unit =
     (let sg = (if is_sub then - 1 else 1) in
      if unit \<in> {''WEEK'', ''WEEKS''} then date_add_days ds (sg * n * 7)
      else if unit \<in> {''MONTH'', ''MONTHS''} then add_months ds (sg * n)
      else if unit \<in> {''YEAR'', ''YEARS''} then add_months ds (sg * n * 12)
      else if unit \<in> {''HOUR'', ''HOURS''} then date_add_days ds (tdiv (sg * n) 24)
      else date_add_days ds (sg * n))"

definition timestamp_diff :: "string \<Rightarrow> string \<Rightarrow> string \<Rightarrow> i64 option" where
  "timestamp_diff unit s1 s2 =
     (let days = (case (parse_date_str s2, parse_date_str s1) of
                    (Some d2, Some d1) \<Rightarrow> Some (d2 - d1) | _ \<Rightarrow> None);
          ymds = (case (parse_ymd s2, parse_ymd s1) of
                    (Some a, Some b) \<Rightarrow> Some (a, b) | _ \<Rightarrow> None)
      in if unit = ''YEAR'' then map_option (\<lambda>((y2, _, _), (y1, _, _)). y2 - y1) ymds
         else if unit = ''MONTH''
           then map_option (\<lambda>((y2, m2, _), (y1, m1, _)). (y2 - y1) * 12 + (m2 - m1)) ymds
         else if unit = ''WEEK'' then map_option (\<lambda>d. tdiv d 7) days
         else if unit = ''HOUR'' then map_option (\<lambda>d. d * 24) days
         else if unit = ''MINUTE'' then map_option (\<lambda>d. d * 24 * 60) days
         else if unit = ''SECOND'' then map_option (\<lambda>d. d * 86400) days
         else days)"

definition interval_count :: "Value \<Rightarrow> i64" where
  "interval_count v =
     (case v of VInt n \<Rightarrow> n | VText s \<Rightarrow> num_or_0 s | _ \<Rightarrow> 0)"

definition text_or_null :: "string option \<Rightarrow> Value" where
  "text_or_null s = (case s of Some t \<Rightarrow> VText t | None \<Rightarrow> Null)"

definition unit_arg :: "'q expr func_arg list \<Rightarrow> string" where
  "unit_arg args =
     (case args of UnnamedExpr (EIdentifier u) # _ \<Rightarrow> to_upper u | _ \<Rightarrow> ''DAY'')"

section \<open>Functions over their unevaluated arguments\<close>

text \<open>
  The expressions a call may evaluate: an argument, or the value of an \<open>INTERVAL\<close> argument.
  \<open>ev\<close> is the evaluator, which is passed in so that these stay plain definitions.
\<close>

fun arg_exprs :: "'q expr func_arg \<Rightarrow> 'q expr set" where
  "arg_exprs (UnnamedExpr (EInterval e u)) = {EInterval e u, e}"
| "arg_exprs (UnnamedExpr e) = {e}"
| "arg_exprs (NamedExpr e) = {e}"
| "arg_exprs _ = {}"

definition eval_arg_text :: "('q expr \<Rightarrow> Value option) \<Rightarrow> 'q expr func_arg \<Rightarrow> string option option" where
  "eval_arg_text ev a = (case a of UnnamedExpr e \<Rightarrow> map_option into_text (ev e) | _ \<Rightarrow> Some None)"

definition arg_interval :: "('q expr \<Rightarrow> Value option) \<Rightarrow> 'q expr func_arg \<Rightarrow>
    (i64 \<times> string) option option" where
  "arg_interval ev a =
     (case a of
        UnnamedExpr (EInterval e unit) \<Rightarrow>
          map_option (\<lambda>v. Some (interval_count v,
                            case unit of Some u \<Rightarrow> to_upper u | None \<Rightarrow> ''DAY'')) (ev e)
      | _ \<Rightarrow> Some None)"

definition arg_value :: "('q expr \<Rightarrow> Value option) \<Rightarrow> 'q expr func_arg \<Rightarrow> Value option" where
  "arg_value ev a = (case a of UnnamedExpr e \<Rightarrow> ev e | NamedExpr e \<Rightarrow> ev e | _ \<Rightarrow> Some Null)"

definition fn_date_add :: "('q expr \<Rightarrow> Value option) \<Rightarrow> bool \<Rightarrow> 'q expr func_arg list \<Rightarrow>
    Value option" where
  "fn_date_add ev is_sub args =
     (case args of
        a # b # _ \<Rightarrow>
          do { ds \<leftarrow> eval_arg_text ev a; iv \<leftarrow> arg_interval ev b;
               Some (case (ds, iv) of
                       (Some s, Some (n, unit)) \<Rightarrow> text_or_null (date_shift is_sub s n unit)
                     | _ \<Rightarrow> Null) }
      | _ \<Rightarrow> Some Null)"

definition fn_timestampdiff :: "('q expr \<Rightarrow> Value option) \<Rightarrow> 'q expr func_arg list \<Rightarrow>
    Value option" where
  "fn_timestampdiff ev args =
     (case args of
        _ # a # b # _ \<Rightarrow>
          do { s1 \<leftarrow> eval_arg_text ev a; s2 \<leftarrow> eval_arg_text ev b;
               Some (case (s1, s2) of
                       (Some d1, Some d2) \<Rightarrow> int_or_null (timestamp_diff (unit_arg args) d1 d2)
                     | _ \<Rightarrow> Null) }
      | [_, a] \<Rightarrow> do { s1 \<leftarrow> eval_arg_text ev a; Some Null }
      | _ \<Rightarrow> Some Null)"

definition eval_function :: "'q crates \<Rightarrow> ('q expr \<Rightarrow> Value option) \<Rightarrow> string \<Rightarrow>
    'q expr func_arg list \<Rightarrow> Value option" where
  "eval_function x ev f args =
     (if f \<in> {''DATE_ADD'', ''ADDDATE'', ''DATE_SUB'', ''SUBDATE''}
        then fn_date_add ev (f \<in> {''DATE_SUB'', ''SUBDATE''}) args
      else if f = ''TIMESTAMPDIFF'' then fn_timestampdiff ev args
      else do { vs \<leftarrow> map_panic (arg_value ev) args; eval_scalar x f vs })"

fun eval_case :: "'q crates \<Rightarrow> ('q expr \<Rightarrow> Value option) \<Rightarrow> ('q expr \<Rightarrow> bool option) \<Rightarrow>
    Value option \<Rightarrow> ('q expr \<times> 'q expr) list \<Rightarrow> 'q expr option \<Rightarrow> Value option" where
  "eval_case x ev wh base [] els = (case els of None \<Rightarrow> Some Null | Some e \<Rightarrow> ev e)"
| "eval_case x ev wh base ((c, r) # whens) els =
     do { matched \<leftarrow> (case base of Some b \<Rightarrow> map_option (values_eq x b) (ev c) | None \<Rightarrow> wh c);
          if matched then ev r else eval_case x ev wh base whens els }"

definition in_list :: "'q crates \<Rightarrow> ('q expr \<Rightarrow> Value option) \<Rightarrow> 'q expr \<Rightarrow> 'q expr list \<Rightarrow>
    bool option" where
  "in_list x ev e list =
     do { v \<leftarrow> ev e; any_panic (\<lambda>i. map_option (values_eq x v) (ev i)) list }"

definition between :: "'q crates \<Rightarrow> ('q expr \<Rightarrow> Value option) \<Rightarrow> 'q expr \<Rightarrow> 'q expr \<Rightarrow> 'q expr \<Rightarrow>
    bool option" where
  "between x ev e lo hi = do { v \<leftarrow> ev e; l \<leftarrow> ev lo; h \<leftarrow> ev hi; Some (in_range x v l h) }"

definition match_text :: "(Value \<Rightarrow> string option) \<Rightarrow> (string \<Rightarrow> string) \<Rightarrow> Value \<Rightarrow> Value \<Rightarrow> bool option" where
  "match_text conv norm v p =
     (case (conv v, conv p) of
        (Some vs, Some ps) \<Rightarrow> Some (like_match (norm vs) (norm ps)) | _ \<Rightarrow> None)"

definition like_value :: "(string \<Rightarrow> string) \<Rightarrow> bool \<Rightarrow> Value \<Rightarrow> Value \<Rightarrow> Value" where
  "like_value norm neg v p = bool_value ((match_text into_text norm v p = Some True) \<noteq> neg)"

definition like_where :: "bool \<Rightarrow> Value \<Rightarrow> Value \<Rightarrow> bool" where
  "like_where neg v p = (case match_text as_str id v p of Some m \<Rightarrow> m \<noteq> neg | None \<Rightarrow> False)"

lemma eval_arg_text_cong [fundef_cong]:
  "a = b \<Longrightarrow> (\<And>e. e \<in> arg_exprs b \<Longrightarrow> ev e = ev' e) \<Longrightarrow> eval_arg_text ev a = eval_arg_text ev' b"
  by (cases b rule: arg_exprs.cases) (simp_all add: eval_arg_text_def)

lemma arg_interval_cong [fundef_cong]:
  "a = b \<Longrightarrow> (\<And>e. e \<in> arg_exprs b \<Longrightarrow> ev e = ev' e) \<Longrightarrow> arg_interval ev a = arg_interval ev' b"
  by (cases b rule: arg_exprs.cases) (simp_all add: arg_interval_def)

lemma arg_value_cong:
  "(\<And>e. e \<in> arg_exprs b \<Longrightarrow> ev e = ev' e) \<Longrightarrow> arg_value ev b = arg_value ev' b"
  by (cases b rule: arg_exprs.cases) (simp_all add: arg_value_def)

lemma fn_date_add_cong:
  assumes "\<And>a e. a \<in> set args \<Longrightarrow> e \<in> arg_exprs a \<Longrightarrow> ev e = ev' e"
  shows "fn_date_add ev s args = fn_date_add ev' s args"
proof (cases args)
  case (Cons a as)
  note outer = this
  show ?thesis
  proof (cases as)
    case (Cons b bs)
    have "eval_arg_text ev a = eval_arg_text ev' a" "arg_interval ev b = arg_interval ev' b"
      using assms outer Cons by (auto intro!: eval_arg_text_cong arg_interval_cong)
    then show ?thesis using outer Cons by (simp add: fn_date_add_def)
  qed (use outer in \<open>simp add: fn_date_add_def\<close>)
qed (simp add: fn_date_add_def)

lemma fn_timestampdiff_cong:
  assumes "\<And>a e. a \<in> set args \<Longrightarrow> e \<in> arg_exprs a \<Longrightarrow> ev e = ev' e"
  shows "fn_timestampdiff ev args = fn_timestampdiff ev' args"
proof -
  have t: "eval_arg_text ev a = eval_arg_text ev' a" if "a \<in> set args" for a
    using assms that by (auto intro!: eval_arg_text_cong)
  show ?thesis
    unfolding fn_timestampdiff_def using t by (auto split: list.splits)
qed

lemma eval_function_cong [fundef_cong]:
  assumes "x = y" "f = g" "args = args'"
    and "\<And>a e. a \<in> set args' \<Longrightarrow> e \<in> arg_exprs a \<Longrightarrow> ev e = ev' e"
  shows "eval_function x ev f args = eval_function y ev' g args'"
proof -
  have "map_panic (arg_value ev) args' = map_panic (arg_value ev') args'"
    using assms(4) by (intro map_panic_cong refl arg_value_cong) blast
  then show ?thesis
    using assms fn_date_add_cong [of args' ev ev'] fn_timestampdiff_cong [of args' ev ev']
    by (simp add: eval_function_def)
qed

lemma eval_case_cong [fundef_cong]:
  assumes "x = y" "base = base'" "whens = whens'" "els = els'"
    and "\<And>c r. (c, r) \<in> set whens' \<Longrightarrow> ev c = ev' c"
    and "\<And>c r. (c, r) \<in> set whens' \<Longrightarrow> ev r = ev' r"
    and "\<And>c r. (c, r) \<in> set whens' \<Longrightarrow> wh c = wh' c"
    and "\<And>e. els' = Some e \<Longrightarrow> ev e = ev' e"
  shows "eval_case x ev wh base whens els = eval_case y ev' wh' base' whens' els'"
  unfolding assms(1-4) using assms(5-8)
proof (induction whens')
  case (Cons w ws)
  obtain c r where w: "w = (c, r)" by (cases w)
  have heads: "ev c = ev' c" "ev r = ev' r" "wh c = wh' c"
    using Cons.prems(1-3) [of c r] w by simp_all
  have "eval_case y ev wh base' ws els' = eval_case y ev' wh' base' ws els'"
    using Cons.prems(4)
    by (intro Cons.IH) (auto intro: Cons.prems(1-3))
  then show ?case using heads by (cases base') (simp_all add: w cong: if_cong)
qed (simp split: option.split)

lemma in_list_cong [fundef_cong]:
  assumes "x = y" "e = e'" "list = list'" "ev e' = ev' e'" "\<And>i. i \<in> set list' \<Longrightarrow> ev i = ev' i"
  shows "in_list x ev e list = in_list y ev' e' list'"
  using assms by (auto simp: in_list_def intro!: Option.bind_cong any_panic_cong)

lemma between_cong [fundef_cong]:
  assumes "x = y" "e = e'" "lo = lo'" "hi = hi'" "ev e' = ev' e'" "ev lo' = ev' lo'" "ev hi' = ev' hi'"
  shows "between x ev e lo hi = between y ev' e' lo' hi'"
  using assms by (simp add: between_def)

section \<open>The evaluator\<close>

lemma size_arg_exprs:
  assumes "a \<in> set args" "e \<in> arg_exprs a"
  shows "size e \<le> size_list (size_func_arg size) args"
proof -
  have "size e \<le> size_func_arg size a"
    using assms(2) by (cases a rule: arg_exprs.cases) auto
  also have "\<dots> \<le> size_list (size_func_arg size) args"
    using assms(1) by (rule size_list_estimation') simp
  finally show ?thesis .
qed

lemma size_whens:
  assumes "(c, r) \<in> set whens"
  shows "size c < size (ECase operand whens els)"
    and "size r < size (ECase operand whens els)"
proof -
  have "size_prod size size (c, r) \<le> size_list (size_prod size size) whens"
    using assms by (rule size_list_estimation') simp
  then show "size c < size (ECase operand whens els)"
    "size r < size (ECase operand whens els)" by simp_all
qed

lemma size_list_item: "i \<in> set list \<Longrightarrow> size i < size (EInList e list neg)"
  using size_list_estimation' [of i list "size i" size] by simp

definition arg_list :: "'q expr func_arg list option \<Rightarrow> 'q expr func_arg list" where
  "arg_list args = (case args of Some as \<Rightarrow> as | None \<Rightarrow> [])"

lemma size_arg_list:
  assumes "a \<in> set (arg_list args)" "e \<in> arg_exprs a"
  shows "size e < size (EFunction f args dis cls ov)"
proof (cases args)
  case (Some as)
  then have "size e \<le> size_list (size_func_arg size) as"
    using assms by (intro size_arg_exprs) (auto simp: arg_list_def)
  then show ?thesis by (simp add: Some)
qed (use assms in \<open>simp add: arg_list_def\<close>)

function eval_row_expr :: "'q crates \<Rightarrow> row \<Rightarrow> column list \<Rightarrow> 'q expr \<Rightarrow> Value option"
and eval_cond :: "'q crates \<Rightarrow> row \<Rightarrow> column list \<Rightarrow> 'q expr \<Rightarrow> bool option"
where
  "eval_row_expr x row cols expr =
     (case expr of
        EValue v \<Rightarrow> Some (expr_to_value x (EValue v))
      | EIdentifier n \<Rightarrow> Some (lookup_ident row cols n)
      | ECompoundIdentifier ps \<Rightarrow> Some (lookup_compound row cols ps)
      | ENested e \<Rightarrow> eval_row_expr x row cols e
      | EUnaryOp op e \<Rightarrow> map_option (unop_value op) (eval_row_expr x row cols e)
      | EBinaryOp l op r \<Rightarrow>
          if op = OpBinaryOther then Some Null
          else do { lv \<leftarrow> eval_row_expr x row cols l; rv \<leftarrow> eval_row_expr x row cols r;
                    binop_value x op lv rv }
      | EConvert e dt \<Rightarrow> map_option (convert_value dt) (eval_row_expr x row cols e)
      | ECast e dt \<Rightarrow> map_option (cast_value dt) (eval_row_expr x row cols e)
      | EFunction name args _ _ _ \<Rightarrow>
          eval_function x (eval_row_expr x row cols) (to_upper name) (arg_list args)
      | EInList e list neg \<Rightarrow>
          map_option (\<lambda>found. bool_value (found \<noteq> neg)) (in_list x (eval_row_expr x row cols) e list)
      | EIsNull e \<Rightarrow> map_option (\<lambda>v. bool_value (v = Null)) (eval_row_expr x row cols e)
      | EIsNotNull e \<Rightarrow> map_option (\<lambda>v. bool_value (v \<noteq> Null)) (eval_row_expr x row cols e)
      | EBetween e lo hi neg \<Rightarrow>
          map_option (\<lambda>b. bool_value (b \<noteq> neg)) (between x (eval_row_expr x row cols) e lo hi)
      | ELike e p neg \<Rightarrow>
          do { v \<leftarrow> eval_row_expr x row cols e; q \<leftarrow> eval_row_expr x row cols p;
               Some (like_value id neg v q) }
      | EILike e p neg \<Rightarrow>
          do { v \<leftarrow> eval_row_expr x row cols e; q \<leftarrow> eval_row_expr x row cols p;
               Some (like_value to_lower neg v q) }
      | ECase operand whens els \<Rightarrow>
          do { base \<leftarrow> (case operand of None \<Rightarrow> Some None
                                    | Some e \<Rightarrow> map_option Some (eval_row_expr x row cols e));
               eval_case x (eval_row_expr x row cols) (eval_cond x row cols) base whens els }
      | _ \<Rightarrow> Some Null)"
| "eval_cond x row cols expr =
     (case expr of
        EBinaryOp l op r \<Rightarrow>
          if op = OpAnd then
            do { a \<leftarrow> eval_cond x row cols l; if a then eval_cond x row cols r else Some False }
          else if op = OpOr then
            do { a \<leftarrow> eval_cond x row cols l; if a then Some True else eval_cond x row cols r }
          else do { lv \<leftarrow> eval_row_expr x row cols l; rv \<leftarrow> eval_row_expr x row cols r;
                    Some (compare_op x op lv rv) }
      | EIsNull e \<Rightarrow> map_option (\<lambda>v. v = Null) (eval_row_expr x row cols e)
      | EIsNotNull e \<Rightarrow> map_option (\<lambda>v. v \<noteq> Null) (eval_row_expr x row cols e)
      | ELike e p neg \<Rightarrow>
          do { v \<leftarrow> eval_row_expr x row cols e; q \<leftarrow> eval_row_expr x row cols p;
               Some (like_where neg v q) }
      | ENested e \<Rightarrow> eval_cond x row cols e
      | EUnaryOp op e \<Rightarrow> if op = OpNot then map_option Not (eval_cond x row cols e) else Some True
      | EBetween e lo hi neg \<Rightarrow>
          map_option (\<lambda>b. b \<noteq> neg) (between x (eval_row_expr x row cols) e lo hi)
      | EInList e list neg \<Rightarrow>
          map_option (\<lambda>found. found \<noteq> neg) (in_list x (eval_row_expr x row cols) e list)
      | _ \<Rightarrow> Some True)"
  by pat_completeness auto

termination
  by (relation "measure (case_sum (\<lambda>(x, row, cols, e). size e) (\<lambda>(x, row, cols, e). size e))")
    (auto intro: size_list_item [simplified] size_whens [simplified] size_arg_list [simplified])

declare eval_row_expr.simps [simp del] eval_cond.simps [simp del]

lemma eval_row_simps [simp]:
  "eval_row_expr x row cols (EValue v) = Some (expr_to_value x (EValue v))"
  "eval_row_expr x row cols (EIdentifier n) = Some (lookup_ident row cols n)"
  "eval_row_expr x row cols (ECompoundIdentifier ps) = Some (lookup_compound row cols ps)"
  "eval_row_expr x row cols (ENested e) = eval_row_expr x row cols e"
  "eval_row_expr x row cols (EUnaryOp uop e) = map_option (unop_value uop) (eval_row_expr x row cols e)"
  "eval_row_expr x row cols (EBinaryOp l op r) =
     (if op = OpBinaryOther then Some Null
      else do { lv \<leftarrow> eval_row_expr x row cols l; rv \<leftarrow> eval_row_expr x row cols r;
                binop_value x op lv rv })"
  "eval_row_expr x row cols (EIsNull e) =
     map_option (\<lambda>v. bool_value (v = Null)) (eval_row_expr x row cols e)"
  "eval_row_expr x row cols (EIsNotNull e) =
     map_option (\<lambda>v. bool_value (v \<noteq> Null)) (eval_row_expr x row cols e)"
  by (subst eval_row_expr.simps, simp)+

lemma eval_cond_simps [simp]:
  "eval_cond x row cols (ENested e) = eval_cond x row cols e"
  "eval_cond x row cols (EUnaryOp OpNot e) = map_option Not (eval_cond x row cols e)"
  "eval_cond x row cols (EIsNull e) = map_option (\<lambda>v. v = Null) (eval_row_expr x row cols e)"
  "eval_cond x row cols (EIsNotNull e) = map_option (\<lambda>v. v \<noteq> Null) (eval_row_expr x row cols e)"
  "eval_cond x row cols (EBetween e lo hi neg) =
     map_option (\<lambda>b. b \<noteq> neg) (between x (eval_row_expr x row cols) e lo hi)"
  "eval_cond x row cols (EInList e list neg) =
     map_option (\<lambda>found. found \<noteq> neg) (in_list x (eval_row_expr x row cols) e list)"
  "eval_cond x row cols (EBinaryOp l OpAnd r) =
     do { a \<leftarrow> eval_cond x row cols l; if a then eval_cond x row cols r else Some False }"
  "eval_cond x row cols (EBinaryOp l OpOr r) =
     do { a \<leftarrow> eval_cond x row cols l; if a then Some True else eval_cond x row cols r }"
  by (subst eval_cond.simps, simp)+

lemma eval_cond_compare:
  "op \<noteq> OpAnd \<Longrightarrow> op \<noteq> OpOr \<Longrightarrow>
   eval_cond x row cols (EBinaryOp l op r) =
     do { lv \<leftarrow> eval_row_expr x row cols l; rv \<leftarrow> eval_row_expr x row cols r;
          Some (compare_op x op lv rv) }"
  by (subst eval_cond.simps) simp

definition eval_opt_where :: "'q crates \<Rightarrow> row \<Rightarrow> column list \<Rightarrow> 'q expr option \<Rightarrow> bool option" where
  "eval_opt_where x row cols cond =
     (case cond of Some e \<Rightarrow> eval_cond x row cols e | None \<Rightarrow> Some True)"

section \<open>Logical laws of the predicate evaluator\<close>

text \<open>The laws hold with panics: a side that is not evaluated on the left is not on the right.\<close>

lemma where_not_not:
  "eval_cond x row cols (EUnaryOp OpNot (EUnaryOp OpNot e)) = eval_cond x row cols e"
  by (simp add: option.map_comp comp_def option.map_ident)

lemma where_not_and:
  "eval_cond x row cols (EUnaryOp OpNot (EBinaryOp l OpAnd r)) =
   eval_cond x row cols (EBinaryOp (EUnaryOp OpNot l) OpOr (EUnaryOp OpNot r))"
  by (cases "eval_cond x row cols l"; cases "eval_cond x row cols r") simp_all

lemma where_not_or:
  "eval_cond x row cols (EUnaryOp OpNot (EBinaryOp l OpOr r)) =
   eval_cond x row cols (EBinaryOp (EUnaryOp OpNot l) OpAnd (EUnaryOp OpNot r))"
  by (cases "eval_cond x row cols l"; cases "eval_cond x row cols r") simp_all

definition comparison :: "binary_op \<Rightarrow> bool" where
  "comparison op \<longleftrightarrow> op \<in> {OpEq, OpNotEq, OpLt, OpLtEq, OpGt, OpGtEq}"

lemma binop_comparison:
  "comparison op \<Longrightarrow> binop_value x op l r = Some (bool_value (compare_op x op l r))"
  by (auto simp: comparison_def binop_value_def)

lemma row_compare_where:
  assumes "comparison op"
  shows "eval_row_expr x row cols (EBinaryOp l op r) =
         map_option bool_value (eval_cond x row cols (EBinaryOp l op r))"
proof -
  have op: "op \<noteq> OpAnd" "op \<noteq> OpOr" "op \<noteq> OpBinaryOther"
    using assms by (auto simp: comparison_def)
  then show ?thesis
    by (cases "eval_row_expr x row cols l"; cases "eval_row_expr x row cols r")
      (simp_all add: eval_cond_compare binop_comparison [OF assms])
qed

fun or_list :: "'q expr \<Rightarrow> 'q expr list \<Rightarrow> 'q expr" where
  "or_list e [] = EBinaryOp (EValue (SBoolean True)) OpEq (EValue (SBoolean False))"
| "or_list e [i] = EBinaryOp e OpEq i"
| "or_list e (i # list) = EBinaryOp (EBinaryOp e OpEq i) OpOr (or_list e list)"

lemma where_in_list_or:
  assumes "eval_row_expr x row cols e = Some v" "list \<noteq> []"
  shows "eval_cond x row cols (EInList e list False) = eval_cond x row cols (or_list e list)"
  using assms(2)
proof (induction list rule: list_nonempty_induct)
  case (single i)
  show ?case
    by (cases "eval_row_expr x row cols i")
      (simp_all add: assms(1) in_list_def eval_cond_compare compare_op_def)
next
  case (cons i list)
  obtain j js where "list = j # js" using cons.hyps by (cases list) auto
  then have "or_list e (i # list) = EBinaryOp (EBinaryOp e OpEq i) OpOr (or_list e list)" by simp
  then show ?case using cons.IH
    by (cases "eval_row_expr x row cols i")
      (simp_all add: assms(1) in_list_def eval_cond_compare compare_op_def)
qed

lemma where_between_and:
  assumes "eval_row_expr x row cols e = Some v" "eval_row_expr x row cols lo = Some l"
    and "eval_row_expr x row cols hi = Some h"
  shows "eval_cond x row cols (EBetween e lo hi False) =
         eval_cond x row cols (EBinaryOp (EBinaryOp e OpGtEq lo) OpAnd (EBinaryOp e OpLtEq hi))"
  using assms by (simp add: between_def in_range_def eval_cond_compare compare_op_def)

section \<open>Bound parameters\<close>

definition is_placeholder :: "'q crates \<Rightarrow> 'q expr \<Rightarrow> bool" where
  "is_placeholder x e = (case e of EValue v \<Rightarrow> show_value x v = ''?'' | _ \<Rightarrow> False)"

definition first_or_null :: "Value list \<Rightarrow> Value" where
  "first_or_null bound = (case bound of [] \<Rightarrow> Null | v # _ \<Rightarrow> v)"

definition resolve_expr_bound :: "'q crates \<Rightarrow> row \<Rightarrow> column list \<Rightarrow> 'q expr \<Rightarrow> Value list \<Rightarrow> Value" where
  "resolve_expr_bound x row cols e bound =
     (if is_placeholder x e then first_or_null bound
      else case e of
             EIdentifier n \<Rightarrow> lookup_ident row cols n
           | EValue v \<Rightarrow> value_from_sqlparser v
           | _ \<Rightarrow> Null)"

fun eval_where_bound :: "'q crates \<Rightarrow> row \<Rightarrow> column list \<Rightarrow> 'q expr \<Rightarrow> Value list \<Rightarrow> bool option" where
  "eval_where_bound x row cols (EBinaryOp l op r) bound =
     (if op = OpAnd then
        do { a \<leftarrow> eval_where_bound x row cols l bound;
             if a then eval_where_bound x row cols r bound else Some False }
      else if op = OpOr then
        do { a \<leftarrow> eval_where_bound x row cols l bound;
             if a then Some True else eval_where_bound x row cols r bound }
      else Some (compare_op x op (resolve_expr_bound x row cols l bound)
                                 (resolve_expr_bound x row cols r bound)))"
| "eval_where_bound x row cols (EUnaryOp op e) bound =
     (if op = OpNot then map_option Not (eval_where_bound x row cols e bound)
      else eval_cond x row cols (EUnaryOp op e))"
| "eval_where_bound x row cols (EIsNull e) bound = Some (resolve_expr_bound x row cols e bound = Null)"
| "eval_where_bound x row cols (EIsNotNull e) bound = Some (resolve_expr_bound x row cols e bound \<noteq> Null)"
| "eval_where_bound x row cols (ENested e) bound = eval_where_bound x row cols e bound"
| "eval_where_bound x row cols e bound = eval_cond x row cols e"

section \<open>Keys of the primary-key index\<close>

definition row_pk_key :: "'q crates \<Rightarrow> row \<Rightarrow> nat \<Rightarrow> string" where
  "row_pk_key x row i =
     (case vec_get row i of
        Some (VInt n) \<Rightarrow> show_i64 n
      | Some (VText s) \<Rightarrow> s
      | Some v \<Rightarrow> default_str (to_display x v)
      | None \<Rightarrow> [])"

fun value_to_pk_str :: "Value \<Rightarrow> string" where
  "value_to_pk_str (VInt n) = show_i64 n"
| "value_to_pk_str (VFloat f) = f64_show f"
| "value_to_pk_str (VText s) = s"
| "value_to_pk_str Null = []"
| "value_to_pk_str (VBytes b) = []"

definition is_column_expr :: "'q expr \<Rightarrow> bool" where
  "is_column_expr e = (case e of EIdentifier _ \<Rightarrow> True | ECompoundIdentifier _ \<Rightarrow> True | _ \<Rightarrow> False)"

definition column_name :: "'q expr \<Rightarrow> string option" where
  "column_name e =
     (case e of
        EIdentifier n \<Rightarrow> Some n
      | ECompoundIdentifier parts \<Rightarrow> if parts = [] then None else Some (last parts)
      | _ \<Rightarrow> None)"

text \<open>\<open>col = val\<close> and \<open>val = col\<close>: the other operand of an equation on the column \<open>pk\<close>.\<close>

definition pk_operand :: "string \<Rightarrow> 'q expr \<Rightarrow> 'q expr option" where
  "pk_operand pk e =
     (case e of
        EBinaryOp l OpEq r \<Rightarrow>
          (let (c, v) = (if is_column_expr l then (l, r) else (r, l)) in
           case column_name c of
             Some n \<Rightarrow> if eq_ignore_case n pk then Some v else None
           | None \<Rightarrow> None)
      | _ \<Rightarrow> None)"

definition literal_key :: "'q expr \<Rightarrow> string option" where
  "literal_key e =
     (case e of
        EValue (SNumber n) \<Rightarrow> Some n | EValue (SSingleQuotedString s) \<Rightarrow> Some s | _ \<Rightarrow> None)"

definition extract_pk_eq :: "string \<Rightarrow> 'q expr \<Rightarrow> string option" where
  "extract_pk_eq pk e = Option.bind (pk_operand pk e) literal_key"

definition extract_pk_eq_param :: "'q crates \<Rightarrow> string \<Rightarrow> 'q expr \<Rightarrow> nat \<Rightarrow> nat option" where
  "extract_pk_eq_param x pk e param_offset =
     (case pk_operand pk e of
        Some v \<Rightarrow> if is_placeholder x v then Some param_offset else None
      | None \<Rightarrow> None)"

end
