(* ===== verification/Grouping.thy ===== *)
theory Grouping
  imports Ordering Eval "HOL-Library.Monad_Syntax"
begin

text \<open>
  GROUP BY and the aggregates of src/engine.rs over one table: the groups in the order of a
  \<open>BTreeMap\<close> keyed by the displayed columns, the aggregate functions with and without GROUP BY,
  and HAVING with its aliases. An alias that names itself makes the code recurse for ever, so the
  evaluation of HAVING is a partial function.
\<close>

section \<open>Groups\<close>

definition cmp_opt_str :: "string option \<Rightarrow> string option \<Rightarrow> ordering" where
  "cmp_opt_str a b =
     (case (a, b) of
        (None, None) \<Rightarrow> Equal
      | (None, Some _) \<Rightarrow> Less
      | (Some _, None) \<Rightarrow> Greater
      | (Some s, Some t) \<Rightarrow> cmp_str s t)"

fun cmp_key :: "string option list \<Rightarrow> string option list \<Rightarrow> ordering" where
  "cmp_key [] [] = Equal"
| "cmp_key [] (_ # _) = Less"
| "cmp_key (_ # _) [] = Greater"
| "cmp_key (a # as) (b # bs) =
     (case cmp_opt_str a b of Equal \<Rightarrow> cmp_key as bs | o' \<Rightarrow> o')"

fun group_insert :: "('k \<Rightarrow> 'k \<Rightarrow> ordering) \<Rightarrow> 'k \<Rightarrow> 'r \<Rightarrow> ('k \<times> 'r list) list \<Rightarrow> ('k \<times> 'r list) list" where
  "group_insert cmp k r [] = [(k, [r])]"
| "group_insert cmp k r ((k', rs) # gs) =
     (case cmp k k' of
        Less \<Rightarrow> (k, [r]) # (k', rs) # gs
      | Equal \<Rightarrow> (k', rs @ [r]) # gs
      | Greater \<Rightarrow> (k', rs) # group_insert cmp k r gs)"

definition group_rows :: "('r \<Rightarrow> string option list) \<Rightarrow> 'r list \<Rightarrow> (string option list \<times> 'r list) list" where
  "group_rows key rs = fold (\<lambda>r gs. group_insert cmp_key (key r) r gs) rs []"

definition display_at :: "'q crates \<Rightarrow> row \<Rightarrow> nat \<Rightarrow> string option" where
  "display_at x r i = Option.bind (vec_get r i) (to_display x)"

definition group_key :: "'q crates \<Rightarrow> nat list \<Rightarrow> row \<Rightarrow> string option list" where
  "group_key x gcols r = map (display_at x r) gcols"

section \<open>Aggregates\<close>

definition column_ints :: "nat \<Rightarrow> row list \<Rightarrow> i64 list" where
  "column_ints i rs =
     List.map_filter (\<lambda>r. case vec_get r i of Some (VInt n) \<Rightarrow> Some n | _ \<Rightarrow> None) rs"

definition max_i64 :: "i64 list \<Rightarrow> i64 option" where
  "max_i64 ns = (if ns = [] then None else Some (word_of_int (Max (sint ` set ns))))"

definition min_i64 :: "i64 list \<Rightarrow> i64 option" where
  "min_i64 ns = (if ns = [] then None else Some (word_of_int (Min (sint ` set ns))))"

definition avg_i64 :: "i64 list \<Rightarrow> i64 option" where
  "avg_i64 ns = (if ns = [] then None else Some (tdiv (sum_list ns) (word_of_nat (length ns))))"

definition count_distinct :: "'q crates \<Rightarrow> nat \<Rightarrow> row list \<Rightarrow> nat" where
  "count_distinct x i rs =
     length (keep_first {} (List.map_filter (\<lambda>r. case vec_get r i of
        Some v \<Rightarrow> if v = Null then None else to_display x v | None \<Rightarrow> None) rs))"

definition plain_arg :: "'q expr func_arg list option \<Rightarrow> string option" where
  "plain_arg args =
     (case args of
        Some (UnnamedExpr (EIdentifier n) # _) \<Rightarrow> Some n
      | Some (UnnamedExpr (ECompoundIdentifier ps) # _) \<Rightarrow> (if ps = [] then None else Some (last ps))
      | _ \<Rightarrow> None)"

fun find_separator :: "arg_clause list \<Rightarrow> string option" where
  "find_separator [] = None"
| "find_separator (Separator (SSingleQuotedString s) # cs) = Some s"
| "find_separator (Separator (SDoubleQuotedString s) # cs) = Some s"
| "find_separator (_ # cs) = find_separator cs"

definition separator :: "'q expr func_arg list option \<Rightarrow> arg_clause list \<Rightarrow> string" where
  "separator args cls =
     (if args = None then '','' else case find_separator cls of Some s \<Rightarrow> s | None \<Rightarrow> '','')"

text \<open>The argument list as displayed, without its parentheses.\<close>

definition shown_arg :: "'q crates \<Rightarrow> 'q expr func_arg list option \<Rightarrow> bool \<Rightarrow> arg_clause list \<Rightarrow> string" where
  "shown_arg x args dis cls =
     trim (trim_end_by (\<lambda>c. c = CHR '')'') (trim_start_by (\<lambda>c. c = CHR ''('') (trim (show_args x args dis cls))))"

definition column_texts :: "'q crates \<Rightarrow> nat \<Rightarrow> row list \<Rightarrow> string list" where
  "column_texts x i rs = List.map_filter (\<lambda>r. display_at x r i) rs"

definition int_aggregate :: "string \<Rightarrow> i64 list \<Rightarrow> i64 option" where
  "int_aggregate f ns =
     (if f = ''MAX'' then max_i64 ns
      else if f = ''MIN'' then min_i64 ns
      else if f = ''SUM'' then Some (sum_list ns)
      else avg_i64 ns)"

text \<open>The value of an aggregate in a projection without GROUP BY.\<close>

definition total_aggregate :: "'q crates \<Rightarrow> column list \<Rightarrow> row list \<Rightarrow> string \<Rightarrow>
    'q expr func_arg list option \<Rightarrow> bool \<Rightarrow> arg_clause list \<Rightarrow> string option" where
  "total_aggregate x cols rs name args dis cls =
     (let f = to_upper name in
      if f = ''COUNT'' then
        (if args \<noteq> None \<and> dis then
           Some (show_nat (case col_position cols (default_str (plain_arg args)) of
                             Some i \<Rightarrow> count_distinct x i rs | None \<Rightarrow> 0))
         else Some (show_nat (length rs)))
      else if f = ''GROUP_CONCAT'' then
        (case col_position cols (default_str (plain_arg args)) of
           Some i \<Rightarrow> (let s = join (separator args cls) (column_texts x i rs)
                      in if s = [] then None else Some s)
         | None \<Rightarrow> None)
      else if f \<in> {''MAX'', ''MIN'', ''SUM'', ''AVG''} then
        (case col_position cols (shown_arg x args dis cls) of
           Some i \<Rightarrow> map_option show_i64 (int_aggregate f (column_ints i rs))
         | None \<Rightarrow> None)
      else Some ''0'')"

text \<open>The value of an aggregate for one group.\<close>

definition group_aggregate :: "'q crates \<Rightarrow> column list \<Rightarrow> row list \<Rightarrow> string \<Rightarrow>
    'q expr func_arg list option \<Rightarrow> bool \<Rightarrow> arg_clause list \<Rightarrow> string option" where
  "group_aggregate x cols rs name args dis cls =
     (let f = to_upper name in
      if f = ''COUNT'' then
        (let col = default_str (plain_arg args)
         in if args \<noteq> None \<and> dis \<and> col \<noteq> ''*'' \<and> col \<noteq> [] then
              Some (case col_position cols col of
                      Some i \<Rightarrow> show_nat (count_distinct x i rs) | None \<Rightarrow> ''0'')
            else Some (show_nat (length rs)))
      else if f = ''GROUP_CONCAT'' then
        (case col_position cols (default_str (plain_arg args)) of
           Some i \<Rightarrow> (let ws = column_texts x i rs
                      in if ws = [] then None else Some (join (separator args cls) ws))
         | None \<Rightarrow> None)
      else if f \<in> {''SUM'', ''AVG'', ''MAX'', ''MIN''} then
        (case col_position cols (shown_arg x args dis cls) of
           Some i \<Rightarrow> map_option show_i64 (int_aggregate f (column_ints i rs))
         | None \<Rightarrow> None)
      else None)"

section \<open>HAVING\<close>

definition having_aggregate :: "'q crates \<Rightarrow> column list \<Rightarrow> row list \<Rightarrow> string \<Rightarrow>
    'q expr func_arg list option \<Rightarrow> bool \<Rightarrow> arg_clause list \<Rightarrow> Value" where
  "having_aggregate x cols rs name args dis cls =
     (let f = to_upper name in
      if f = ''COUNT'' then VInt (word_of_nat (length rs))
      else if f \<in> {''SUM'', ''AVG'', ''MAX'', ''MIN''} then
        (case col_position cols (shown_arg x args dis cls) of
           Some i \<Rightarrow> (case int_aggregate f (column_ints i rs) of Some n \<Rightarrow> VInt n | None \<Rightarrow> Null)
         | None \<Rightarrow> Null)
      else Null)"

definition first_cell :: "column list \<Rightarrow> row list \<Rightarrow> string \<Rightarrow> Value" where
  "first_cell cols rs n =
     (case col_position cols n of
        Some i \<Rightarrow> (case rs of r # _ \<Rightarrow> cell_or_null r (Some i) | [] \<Rightarrow> Null)
      | None \<Rightarrow> Null)"

type_synonym 'q aliases = "string \<rightharpoonup> 'q expr"

partial_function (option) eval_having_agg_val ::
  "'q crates \<Rightarrow> row list \<Rightarrow> column list \<Rightarrow> 'q aliases \<Rightarrow> 'q expr \<Rightarrow> Value option" where
  "eval_having_agg_val x rs cols als e =
     (case e of
        EFunction name args dis cls _ \<Rightarrow> Some (having_aggregate x cols rs name args dis cls)
      | EValue v \<Rightarrow> Some (expr_to_value x (EValue v))
      | EIdentifier n \<Rightarrow>
          (case als (to_upper n) of
             Some e' \<Rightarrow> eval_having_agg_val x rs cols als e'
           | None \<Rightarrow> Some (first_cell cols rs n))
      | _ \<Rightarrow> Some Null)"

fun eval_having_agg :: "'q crates \<Rightarrow> row list \<Rightarrow> column list \<Rightarrow> 'q aliases \<Rightarrow> 'q expr \<Rightarrow> bool option" where
  "eval_having_agg x rs cols als (EBinaryOp l op r) =
     (if op = OpAnd then
        do { a \<leftarrow> eval_having_agg x rs cols als l;
             if a then eval_having_agg x rs cols als r else Some False }
      else if op = OpOr then
        do { a \<leftarrow> eval_having_agg x rs cols als l;
             if a then Some True else eval_having_agg x rs cols als r }
      else
        do { lv \<leftarrow> eval_having_agg_val x rs cols als l;
             rv \<leftarrow> eval_having_agg_val x rs cols als r;
             Some (compare_op x op lv rv) })"
| "eval_having_agg x rs cols als (EUnaryOp op e) =
     (if op = OpNot then map_option Not (eval_having_agg x rs cols als e) else Some True)"
| "eval_having_agg x rs cols als _ = Some True"

definition alias_map :: "'q select_item list \<Rightarrow> 'q aliases" where
  "alias_map items =
     fold (\<lambda>p m. case p of SelAlias e n \<Rightarrow> m(to_upper n \<mapsto> e) | _ \<Rightarrow> m) items Map.empty"

section \<open>Laws of the groups\<close>

locale key_order = total_cmp +
  assumes cmp_Equal: "a \<in> keys \<Longrightarrow> b \<in> keys \<Longrightarrow> cmp a b = Equal \<longleftrightarrow> a = b"
begin

lemma cmp_less_trans:
  assumes "a \<in> keys" "b \<in> keys" "c \<in> keys" "cmp a b = Less" "cmp b c = Less"
  shows "cmp a c = Less"
proof -
  have "cmp a c \<noteq> Greater" using cmp_le_trans [of a b c] assms by simp
  moreover have "cmp a c \<noteq> Equal"
    using assms cmp_rev [of a b] by (auto simp: cmp_Equal)
  ultimately show ?thesis by (cases "cmp a c") auto
qed

lemma group_insert_keys:
  assumes "k \<in> keys" "fst ` set gs \<subseteq> keys"
  shows "fst ` set (group_insert cmp k r gs) = insert k (fst ` set gs)"
  using assms
proof (induction gs)
  case (Cons g gs)
  obtain k' rs where g: "g = (k', rs)" by (cases g)
  show ?case
  proof (cases "cmp k k'")
    case Equal
    then have "k = k'" using Cons.prems g cmp_Equal by simp
    then show ?thesis using Equal g by simp
  qed (use Cons g in \<open>simp_all add: insert_commute\<close>)
qed simp

lemma group_insert_sorted:
  assumes "k \<in> keys" "fst ` set gs \<subseteq> keys" "sorted_wrt (\<lambda>a b. cmp a b = Less) (map fst gs)"
  shows "sorted_wrt (\<lambda>a b. cmp a b = Less) (map fst (group_insert cmp k r gs))"
  using assms
proof (induction gs)
  case (Cons g gs)
  obtain k' rs where g: "g = (k', rs)" by (cases g)
  have keys: "k' \<in> keys" "\<forall>c\<in>set gs. fst c \<in> keys" using Cons.prems g by auto
  show ?case
  proof (cases "cmp k k'")
    case Less
    then show ?thesis using Cons.prems keys g by (auto intro: cmp_less_trans [of k k'])
  next
    case Greater
    then have "cmp k' k = Less" using cmp_rev [of k k'] Cons.prems(1) keys by simp
    moreover have "fst ` set (group_insert cmp k r gs) = insert k (fst ` set gs)"
      using Cons.prems keys by (intro group_insert_keys) auto
    then have "\<forall>c\<in>set (group_insert cmp k r gs). fst c = k \<or> fst c \<in> fst ` set gs" by blast
    ultimately show ?thesis using Cons Greater g by fastforce
  qed (use Cons g in simp)
qed simp

lemma group_insert_at:
  assumes "k \<in> keys" "fst ` set gs \<subseteq> keys" "sorted_wrt (\<lambda>a b. cmp a b = Less) (map fst gs)"
  shows "map_of (group_insert cmp k r gs) =
    (map_of gs)(k \<mapsto> (case map_of gs k of Some rs \<Rightarrow> rs | None \<Rightarrow> []) @ [r])"
  using assms
proof (induction gs)
  case (Cons g gs)
  obtain k' rs where g: "g = (k', rs)" by (cases g)
  have keys: "k' \<in> keys" "\<forall>c\<in>set gs. fst c \<in> keys" using Cons.prems g by auto
  show ?case
  proof (cases "cmp k k'")
    case Less
    have "cmp k (fst c) = Less" if "c \<in> set gs" for c
      using that Less Cons.prems keys g by (auto intro: cmp_less_trans [of k k'])
    moreover have "cmp k k = Equal" using cmp_Equal Cons.prems(1) by simp
    ultimately have "k \<noteq> fst c" if "c \<in> set gs" for c using that by fastforce
    then have "map_of gs k = None" by (auto simp: map_of_eq_None_iff)
    moreover have "k \<noteq> k'" using Less cmp_Equal [of k k'] Cons.prems(1) keys by auto
    ultimately show ?thesis using Less g by (auto simp: fun_eq_iff)
  next
    case Equal
    then have "k = k'" using cmp_Equal Cons.prems(1) keys by blast
    then show ?thesis using Equal g by (auto simp: fun_eq_iff)
  next
    case Greater
    then have "k \<noteq> k'" using cmp_Equal [of k k'] Cons.prems(1) keys by auto
    then show ?thesis using Cons Greater g by (auto simp: fun_eq_iff)
  qed
qed (simp add: fun_eq_iff)

end

lemma cmp_opt_str_simps [simp]:
  "cmp_opt_str a b = Equal \<longleftrightarrow> a = b" "rev_ord (cmp_opt_str a b) = cmp_opt_str b a"
  by (auto simp: cmp_opt_str_def split: option.split)

lemma cmp_opt_str_refl [simp]: "cmp_opt_str a a = Equal"
  by simp

lemma cmp_opt_str_trans:
  "cmp_opt_str a b \<noteq> Greater \<Longrightarrow> cmp_opt_str b c \<noteq> Greater \<Longrightarrow> cmp_opt_str a c \<noteq> Greater"
  using cmp_str_trans by (auto simp: cmp_opt_str_def split: option.splits)

lemma cmp_key_Equal [simp]: "cmp_key a b = Equal \<longleftrightarrow> a = b"
proof (induction a b rule: cmp_key.induct)
  case (4 a as b bs)
  then show ?case by (cases "cmp_opt_str a b") (auto simp: cmp_opt_str_simps(1) [symmetric] simp del: cmp_opt_str_simps(1))
qed simp_all

lemma cmp_key_rev [simp]: "rev_ord (cmp_key a b) = cmp_key b a"
proof (induction a b rule: cmp_key.induct)
  case (4 a as b bs)
  have "cmp_opt_str b a = rev_ord (cmp_opt_str a b)" by simp
  then show ?case using 4 by (cases "cmp_opt_str a b") simp_all
qed simp_all

lemma cmp_key_trans: "cmp_key a b \<noteq> Greater \<Longrightarrow> cmp_key b c \<noteq> Greater \<Longrightarrow> cmp_key a c \<noteq> Greater"
proof (induction a b arbitrary: c rule: cmp_key.induct)
  case (4 a as b bs)
  show ?case
  proof (cases c)
    case (Cons d ds)
    have ab: "cmp_opt_str a b \<noteq> Greater" and bd: "cmp_opt_str b d \<noteq> Greater"
      using "4.prems" Cons by (auto split: ordering.splits)
    then have ad: "cmp_opt_str a d \<noteq> Greater" by (rule cmp_opt_str_trans)
    show ?thesis
    proof (cases "cmp_opt_str a d")
      case Equal
      then have "a = d" by simp
      moreover from this have "cmp_opt_str a b = rev_ord (cmp_opt_str b d)" by simp
      ultimately have "cmp_opt_str a b = Equal" "cmp_opt_str b d = Equal"
        using ab bd by (cases "cmp_opt_str b d"; simp)+
      then show ?thesis using "4.IH" [of ds] "4.prems" Cons Equal by simp
    qed (use ad Cons in simp_all)
  qed (use "4.prems" in simp)
next
  case (2 b bs)
  then show ?case by (cases c) simp_all
qed simp_all

interpretation group: key_order UNIV cmp_key
proof unfold_locales
  show "cmp_key b a = rev_ord (cmp_key a b)" for a b by simp
qed (auto dest: cmp_key_trans)

text \<open>The groups partition the rows: sorted keys, each with its own rows in their order.\<close>

lemma group_rows_step:
  "group_rows key (rs @ [r]) = group_insert cmp_key (key r) r (group_rows key rs)"
  by (simp add: group_rows_def)

lemma group_rows_sorted: "sorted_wrt (\<lambda>a b. cmp_key a b = Less) (map fst (group_rows key rs))"
  by (induction rs rule: rev_induct) (simp_all add: group_rows_step group.group_insert_sorted group_rows_def)

lemma map_of_group_rows:
  "map_of (group_rows key rs) k =
     (if k \<in> key ` set rs then Some (filter (\<lambda>r. key r = k) rs) else None)"
proof (induction rs rule: rev_induct)
  case (snoc r rs)
  have none: "filter (\<lambda>r. key r = k) rs = []" if "k \<notin> key ` set rs" for k
    using that by (auto simp: filter_empty_conv)
  show ?case
    unfolding group_rows_step
    by (subst group.group_insert_at) (use snoc none in \<open>auto simp: group_rows_sorted\<close>)
qed (simp add: group_rows_def)

lemma distinct_sorted_wrt: "sorted_wrt (\<noteq>) as \<Longrightarrow> distinct as"
  by (induction as) auto

lemma group_rows_iff:
  "(k, g) \<in> set (group_rows key rs) \<longleftrightarrow> k \<in> key ` set rs \<and> g = filter (\<lambda>r. key r = k) rs"
proof -
  have "distinct (map fst (group_rows key rs))"
  proof -
    have "a \<noteq> b" if "cmp_key a b = Less" for a b using that cmp_key_Equal [of a b] by auto
    then have "sorted_wrt (\<noteq>) (map fst (group_rows key rs))"
      using group_rows_sorted [of key rs] by (blast intro: sorted_wrt_mono_rel [rotated])
    then show ?thesis by (rule distinct_sorted_wrt)
  qed
  then have "(k, g) \<in> set (group_rows key rs) \<longleftrightarrow> map_of (group_rows key rs) k = Some g"
    by (metis map_of_eq_Some_iff)
  then show ?thesis by (auto simp: map_of_group_rows)
qed

end
