(* ===== verification/Simd.thy ===== *)
theory Simd
  imports Prelude Rust_Text
begin

text \<open>
  src/simd_scan.rs: the scans over the column stores and the hash of a query text. The AVX2
  intrinsics of \<open>std::arch\<close> are modelled on lists of lanes, with \<open>_mm256_movemask_epi8\<close> reading
  the sign bits of the 32 bytes. The loops are those of the code: four lanes per step over
  \<open>len / 4 * 4\<close> elements, then the scalar tail. Each vectorised scan is proved equal to the
  scalar fallback, which is \<open>indices_where\<close>, on every input.
\<close>

section \<open>AVX2 intrinsics\<close>

definition lane_bytes :: "i64 \<Rightarrow> u8 list" where
  "lane_bytes w = map (\<lambda>k. ucast (drop_bit (8 * k) w)) [0, 1, 2, 3, 4, 5, 6, 7]"

definition set1_epi64x :: "i64 \<Rightarrow> i64 list" where
  "set1_epi64x t = replicate 4 t"

definition loadu_epi64 :: "i64 list \<Rightarrow> nat \<Rightarrow> i64 list" where
  "loadu_epi64 data i = take 4 (drop i data)"

definition cmpeq_epi64 :: "i64 list \<Rightarrow> i64 list \<Rightarrow> i64 list" where
  "cmpeq_epi64 a b = map2 (\<lambda>x y. if x = y then - 1 else 0) a b"

definition cmpgt_epi64 :: "i64 list \<Rightarrow> i64 list \<Rightarrow> i64 list" where
  "cmpgt_epi64 a b = map2 (\<lambda>x y. if sint x > sint y then - 1 else 0) a b"

definition cmpeq_epi8 :: "u8 list \<Rightarrow> u8 list \<Rightarrow> u8 list" where
  "cmpeq_epi8 a b = map2 (\<lambda>x y. if x = y then 0xFF else 0) a b"

definition movemask_epi8 :: "u8 list \<Rightarrow> u32" where
  "movemask_epi8 bs = horner_sum of_bool 2 (map (\<lambda>b. bit b 7) bs)"

lemma ucast_mask: "8 \<le> k \<Longrightarrow> k \<le> 64 \<Longrightarrow> ucast (mask k :: i64) = (- 1 :: u8)"
  by (rule bit_word_eqI) (simp add: bit_simps)

lemma lane_bytes_ends:
  "lane_bytes 0 = [0, 0, 0, 0, 0, 0, 0, 0]"
  "lane_bytes (- 1) = [- 1, - 1, - 1, - 1, - 1, - 1, - 1, - 1]"
  by (simp_all add: lane_bytes_def ucast_mask)

section \<open>The four-lane loop\<close>

definition push_lanes :: "u32 \<Rightarrow> nat \<Rightarrow> nat list \<Rightarrow> nat list" where
  "push_lanes msk i out =
     (let out = (if msk AND 0x000000FF \<noteq> 0 then out @ [i] else out);
          out = (if msk AND 0x0000FF00 \<noteq> 0 then out @ [i + 1] else out);
          out = (if msk AND 0x00FF0000 \<noteq> 0 then out @ [i + 2] else out)
      in if msk AND 0xFF000000 \<noteq> 0 then out @ [i + 3] else out)"

function scan_lanes :: "(i64 list \<Rightarrow> i64 list) \<Rightarrow> i64 list \<Rightarrow> nat \<Rightarrow> nat \<Rightarrow> nat list \<Rightarrow> nat list" where
  "scan_lanes cmp data n4 i out =
     (if i < n4 then
        let msk = movemask_epi8 (concat (map lane_bytes (cmp (loadu_epi64 data i))))
        in scan_lanes cmp data n4 (i + 4) (if msk \<noteq> 0 then push_lanes msk i out else out)
      else out)"
  by pat_completeness auto
termination by (relation "measure (\<lambda>(_, _, n4, i, _). n4 - i)") auto

function scan_tail :: "(i64 \<Rightarrow> bool) \<Rightarrow> i64 list \<Rightarrow> nat \<Rightarrow> nat list \<Rightarrow> nat list" where
  "scan_tail P data i out =
     (if i < length data then scan_tail P data (i + 1) (if P (data ! i) then out @ [i] else out)
      else out)"
  by pat_completeness auto
termination by (relation "measure (\<lambda>(_, data, i, _). length data - i)") auto

declare scan_lanes.simps [simp del] scan_tail.simps [simp del]

definition scan_eq_avx2 :: "i64 list \<Rightarrow> i64 \<Rightarrow> nat list" where
  "scan_eq_avx2 data t =
     (let splat = set1_epi64x t; n4 = length data div 4 * 4
      in scan_tail (\<lambda>v. v = t) data n4
           (scan_lanes (\<lambda>v. cmpeq_epi64 v splat) data n4 0 []))"

definition scan_gt_avx2 :: "i64 list \<Rightarrow> i64 \<Rightarrow> nat list" where
  "scan_gt_avx2 data t =
     (let splat = set1_epi64x t; n4 = length data div 4 * 4
      in scan_tail (\<lambda>v. sint v > sint t) data n4
           (scan_lanes (\<lambda>v. cmpgt_epi64 v splat) data n4 0 []))"

definition scan_lt_avx2 :: "i64 list \<Rightarrow> i64 \<Rightarrow> nat list" where
  "scan_lt_avx2 data t =
     (let splat = set1_epi64x t; n4 = length data div 4 * 4
      in scan_tail (\<lambda>v. sint v < sint t) data n4
           (scan_lanes (\<lambda>v. cmpgt_epi64 splat v) data n4 0 []))"

text \<open>The dispatchers: the first argument is \<open>is_x86_feature_detected!("avx2")\<close>.\<close>

definition scan_eq_i64 :: "bool \<Rightarrow> i64 list \<Rightarrow> i64 \<Rightarrow> nat list" where
  "scan_eq_i64 avx2 data t =
     (if avx2 then scan_eq_avx2 data t else indices_where (\<lambda>v. v = t) data)"

definition scan_gt_i64 :: "bool \<Rightarrow> i64 list \<Rightarrow> i64 \<Rightarrow> nat list" where
  "scan_gt_i64 avx2 data t =
     (if avx2 then scan_gt_avx2 data t else indices_where (\<lambda>v. sint v > sint t) data)"

definition scan_lt_i64 :: "bool \<Rightarrow> i64 list \<Rightarrow> i64 \<Rightarrow> nat list" where
  "scan_lt_i64 avx2 data t =
     (if avx2 then scan_lt_avx2 data t else indices_where (\<lambda>v. sint v < sint t) data)"

section \<open>The vectorised scans agree with the scalar ones\<close>

lemma lane_mask:
  fixes a b c d :: i64
  shows "push_lanes (movemask_epi8 (concat (map lane_bytes
            [if p0 then - 1 else 0, if p1 then - 1 else 0, if p2 then - 1 else 0,
             if p3 then - 1 else 0]))) i out =
         out @ (if p0 then [i] else []) @ (if p1 then [i + 1] else []) @
               (if p2 then [i + 2] else []) @ (if p3 then [i + 3] else [])"
  by (cases p0; cases p1; cases p2; cases p3)
    (simp_all add: lane_bytes_ends movemask_epi8_def push_lanes_def)

lemma push_lanes_zero: "push_lanes 0 i out = out"
  by (simp add: push_lanes_def)

lemma take4_drop:
  assumes "i + 4 \<le> length xs"
  shows "take 4 (drop i xs) = [xs ! i, xs ! (i + 1), xs ! (i + 2), xs ! (i + 3)]"
  using assms
  by (intro nth_equalityI) (auto simp: less_Suc_eq numeral_eq_Suc nth_Cons' add.commute)

definition hits :: "('a \<Rightarrow> bool) \<Rightarrow> 'a list \<Rightarrow> nat \<Rightarrow> nat \<Rightarrow> nat list" where
  "hits P xs i j = filter (\<lambda>k. P (xs ! k)) [i..<j]"

lemma hits_step4:
  assumes "i + 4 \<le> j"
  shows "hits P xs i j =
         (if P (xs ! i) then [i] else []) @ (if P (xs ! (i + 1)) then [i + 1] else []) @
         (if P (xs ! (i + 2)) then [i + 2] else []) @ (if P (xs ! (i + 3)) then [i + 3] else []) @
         hits P xs (i + 4) j"
proof -
  have "[i..<j] = [i, i + 1, i + 2, i + 3] @ [i + 4..<j]"
    using assms by (auto simp: upt_conv_Cons numeral_eq_Suc)
  then show ?thesis by (simp add: hits_def)
qed

lemma hits_empty: "j \<le> i \<Longrightarrow> hits P xs i j = []"
  by (simp add: hits_def)

lemma hits_append: "i \<le> j \<Longrightarrow> j \<le> k \<Longrightarrow> hits P xs i j @ hits P xs j k = hits P xs i k"
  unfolding hits_def using upt_add_eq_append [of i j "k - j"] by (simp flip: filter_append)

lemma scan_lanes_hits:
  assumes cmp: "\<And>v. length v = 4 \<Longrightarrow> cmp v = map (\<lambda>x. if P x then - 1 else 0) v"
    and "n4 \<le> length data" "4 dvd n4" "4 dvd i"
  shows "scan_lanes cmp data n4 i out = out @ hits P data i n4"
  using assms(2-)
proof (induction "n4 - i" arbitrary: i out rule: less_induct)
  case less
  show ?case
  proof (cases "i < n4")
    case True
    then have le: "i + 4 \<le> n4" using less.prems(2,3) by (auto elim!: dvdE)
    let ?m = "movemask_epi8 (concat (map lane_bytes (cmp (loadu_epi64 data i))))"
    have load: "loadu_epi64 data i = [data ! i, data ! (i + 1), data ! (i + 2), data ! (i + 3)]"
      using le less.prems(1) by (simp add: loadu_epi64_def take4_drop)
    have "scan_lanes cmp data n4 i out =
          scan_lanes cmp data n4 (i + 4) (push_lanes ?m i out)"
      using True by (subst scan_lanes.simps) (simp add: Let_def push_lanes_zero)
    also have "\<dots> = push_lanes ?m i out @ hits P data (i + 4) n4"
      using less.prems True by (intro less.hyps) simp_all
    also have "push_lanes ?m i out = out @ (if P (data ! i) then [i] else []) @
        (if P (data ! (i + 1)) then [i + 1] else []) @ (if P (data ! (i + 2)) then [i + 2] else []) @
        (if P (data ! (i + 3)) then [i + 3] else [])"
      using lane_mask by (simp add: load cmp del: concat.simps)
    finally show ?thesis using hits_step4 [OF le, of P data] by simp
  qed (subst scan_lanes.simps, simp add: hits_empty)
qed

lemma scan_tail_hits: "scan_tail P data i out = out @ hits P data i (length data)"
proof (induction P data i out rule: scan_tail.induct)
  case (1 P data i out)
  show ?case
  proof (cases "i < length data")
    case True
    then have "hits P data i (length data) =
               (if P (data ! i) then [i] else []) @ hits P data (i + 1) (length data)"
      by (simp add: hits_def upt_conv_Cons)
    then show ?thesis using 1 True by (subst scan_tail.simps) simp
  qed (subst scan_tail.simps, simp add: hits_empty)
qed

lemma scan_lanes_tail:
  assumes "\<And>v. length v = 4 \<Longrightarrow> cmp v = map (\<lambda>x. if P x then - 1 else 0) v"
  shows "scan_tail P data (length data div 4 * 4)
           (scan_lanes cmp data (length data div 4 * 4) 0 []) = indices_where P data"
proof -
  have "scan_lanes cmp data (length data div 4 * 4) 0 [] = hits P data 0 (length data div 4 * 4)"
    using scan_lanes_hits [OF assms, of "length data div 4 * 4" data 0 "[]"] by simp
  moreover have "hits P data 0 (length data div 4 * 4) @
      hits P data (length data div 4 * 4) (length data) = hits P data 0 (length data)"
    by (rule hits_append) simp_all
  ultimately show ?thesis by (simp add: scan_tail_hits) (simp add: hits_def indices_where_def)
qed

lemma map2_splat: "map2 f v (replicate (length v) t) = map (\<lambda>x. f x t) v"
  "map2 f (replicate (length v) t) v = map (\<lambda>x. f t x) v"
  by (induction v) simp_all

lemma scan_eq_avx2: "scan_eq_avx2 data t = indices_where (\<lambda>v. v = t) data"
  unfolding scan_eq_avx2_def Let_def cmpeq_epi64_def set1_epi64x_def
  by (rule scan_lanes_tail) (drule sym, simp only: map2_splat)

lemma scan_gt_avx2: "scan_gt_avx2 data t = indices_where (\<lambda>v. sint v > sint t) data"
  unfolding scan_gt_avx2_def Let_def cmpgt_epi64_def set1_epi64x_def
  by (rule scan_lanes_tail) (drule sym, simp only: map2_splat)

lemma scan_lt_avx2: "scan_lt_avx2 data t = indices_where (\<lambda>v. sint v < sint t) data"
  unfolding scan_lt_avx2_def Let_def cmpgt_epi64_def set1_epi64x_def
  by (rule scan_lanes_tail) (drule sym, simp only: map2_splat)

lemma scan_i64 [simp]:
  "scan_eq_i64 avx2 data t = indices_where (\<lambda>v. v = t) data"
  "scan_gt_i64 avx2 data t = indices_where (\<lambda>v. sint v > sint t) data"
  "scan_lt_i64 avx2 data t = indices_where (\<lambda>v. sint v < sint t) data"
  by (simp_all add: scan_eq_i64_def scan_gt_i64_def scan_lt_i64_def
      scan_eq_avx2 scan_gt_avx2 scan_lt_avx2)

section \<open>String column scans\<close>

definition as_bytes :: "string \<Rightarrow> u8 list" where
  "as_bytes s = map (\<lambda>c. word_of_nat (of_char c)) s"

definition pad32 :: "u8 list \<Rightarrow> u8 list" where
  "pad32 bs = bs @ replicate (32 - length bs) 0"

definition eq_str_avx2 :: "string \<Rightarrow> string \<Rightarrow> bool" where \<comment> \<open>one turn of the loop\<close>
  "eq_str_avx2 target s =
     (let tb = as_bytes target; sb = as_bytes s in
      length sb = length tb \<and>
      movemask_epi8 (cmpeq_epi8 (pad32 sb) (pad32 tb)) = 0xFFFFFFFF)"

definition scan_eq_str_avx2 :: "string list \<Rightarrow> string \<Rightarrow> nat list" where
  "scan_eq_str_avx2 data target = indices_where (eq_str_avx2 target) data"

definition scan_eq_str :: "bool \<Rightarrow> string list \<Rightarrow> string \<Rightarrow> nat list" where
  "scan_eq_str avx2 data target =
     (if avx2 \<and> target \<noteq> [] \<and> length target \<le> 32 then scan_eq_str_avx2 data target
      else indices_where (\<lambda>s. s = target) data)"

definition scan_prefix_str :: "string list \<Rightarrow> string \<Rightarrow> nat list" where
  "scan_prefix_str data p = indices_where (\<lambda>s. starts_with s p) data"

lemma length_as_bytes [simp]: "length (as_bytes s) = length s"
  by (simp add: as_bytes_def)

lemma as_bytes_inject: "as_bytes s = as_bytes t \<longleftrightarrow> s = t"
proof
  have inj: "inj (\<lambda>c. word_of_nat (of_char c) :: u8)"
  proof (rule injI)
    fix c d :: char
    assume "(word_of_nat (of_char c) :: u8) = word_of_nat (of_char d)"
    then have "unat (word_of_nat (of_char c) :: u8) = unat (word_of_nat (of_char d) :: u8)" by simp
    then have "(of_char c :: nat) = of_char d" by (simp add: unat_of_nat)
    then show "c = d" by (simp only: of_char_eq_iff)
  qed
  assume "as_bytes s = as_bytes t"
  then show "s = t" using inj by (simp add: as_bytes_def)
qed simp

lemma movemask_all:
  assumes "length bs = 32"
  shows "movemask_epi8 bs = 0xFFFFFFFF \<longleftrightarrow> (\<forall>b\<in>set bs. bit b 7)"
proof -
  have "(0xFFFFFFFF :: u32) = - 1" by simp
  then have "movemask_epi8 bs = 0xFFFFFFFF \<longleftrightarrow> (\<forall>n<32. bit (movemask_epi8 bs) n)"
    by (auto simp: bit_eq_iff)
  then show ?thesis
    using assms by (auto simp: movemask_epi8_def bit_horner_sum_bit_word_iff all_set_conv_all_nth)
qed

lemma eq_str_avx2:
  assumes "length target \<le> 32"
  shows "eq_str_avx2 target s \<longleftrightarrow> s = target"
proof (cases "length s = length target")
  case True
  let ?a = "pad32 (as_bytes s)" and ?b = "pad32 (as_bytes target)"
  have len: "length ?a = 32" "length ?b = 32" using assms True by (simp_all add: pad32_def)
  have "movemask_epi8 (cmpeq_epi8 ?a ?b) = 0xFFFFFFFF \<longleftrightarrow> ?a = ?b"
    using len
    by (subst movemask_all) (auto simp: cmpeq_epi8_def set_zip list_eq_iff_nth_eq split: if_splits)
  also have "?a = ?b \<longleftrightarrow> as_bytes s = as_bytes target" using True by (simp add: pad32_def)
  finally show ?thesis using True by (simp add: eq_str_avx2_def as_bytes_inject)
qed (auto simp: eq_str_avx2_def)

lemma scan_eq_str [simp]: "scan_eq_str avx2 data target = indices_where (\<lambda>s. s = target) data"
  by (auto simp: scan_eq_str_def scan_eq_str_avx2_def eq_str_avx2 indices_where_def)

section \<open>Query hashes\<close>

text \<open>
  \<open>_mm_crc32_u64\<close> on the low half of the accumulator: CRC-32C, reflected polynomial
  \<open>0x82F63B78\<close>, over the eight bytes of the operand, low byte first.
\<close>

definition crc32c_bit :: "u32 \<Rightarrow> u32" where
  "crc32c_bit c = (if bit c 0 then drop_bit 1 c XOR 0x82F63B78 else drop_bit 1 c)"

definition crc32c_byte :: "u32 \<Rightarrow> u8 \<Rightarrow> u32" where
  "crc32c_byte c b = (crc32c_bit ^^ 8) (c XOR ucast b)"

definition mm_crc32_u64 :: "u64 \<Rightarrow> u64 \<Rightarrow> u64" where
  "mm_crc32_u64 crc v = ucast (fold (\<lambda>b c. crc32c_byte c b) (lane_bytes v) (ucast crc))"

fun le_u64 :: "u8 list \<Rightarrow> u64" where
  "le_u64 [] = 0"
| "le_u64 (b # bs) = ucast b OR push_bit 8 (le_u64 bs)"

function crc_words :: "u8 list \<Rightarrow> u64 \<Rightarrow> nat \<Rightarrow> u64 \<times> nat" where
  "crc_words data crc i =
     (if i + 8 \<le> length data
      then crc_words data (mm_crc32_u64 crc (le_u64 (take 8 (drop i data)))) (i + 8)
      else (crc, i))"
  by pat_completeness auto
termination by (relation "measure (\<lambda>(data, _, i). length data - i)") auto

function crc_tail :: "u8 list \<Rightarrow> u64 \<Rightarrow> nat \<Rightarrow> u64" where
  "crc_tail data crc i =
     (if i < length data then crc_tail data (mm_crc32_u64 crc (ucast (data ! i))) (i + 1) else crc)"
  by pat_completeness auto
termination by (relation "measure (\<lambda>(data, _, i). length data - i)") auto

declare crc_words.simps [simp del] crc_tail.simps [simp del]

definition crc32_sse42 :: "u8 list \<Rightarrow> u64" where
  "crc32_sse42 data = (case crc_words data (NOT 0) 0 of (crc, i) \<Rightarrow> NOT (crc_tail data crc i))"

definition fnv1a :: "u8 list \<Rightarrow> u64" where
  "fnv1a data = fold (\<lambda>b h. (h XOR ucast b) * 0x100000001b3) data 0xcbf29ce484222325"

definition hash_query :: "bool \<Rightarrow> u8 list \<Rightarrow> u64" where
  "hash_query sse42 sql = (if sse42 then crc32_sse42 sql else fnv1a sql)"

text \<open>
  A tail byte is fed as a whole 64-bit word, so a tail of one byte hashes as that byte followed
  by seven zero bytes.
\<close>

lemma crc_pad_byte: "crc32_sse42 [b] = crc32_sse42 [b, 0, 0, 0, 0, 0, 0, 0]"
  by (simp add: crc32_sse42_def crc_words.simps crc_tail.simps)

text \<open>The upper half of a CRC key carries no information: at most \<open>2 ^ 32\<close> keys exist.\<close>

definition crc_range :: "u64 \<Rightarrow> bool" where
  "crc_range crc \<longleftrightarrow> (\<forall>n. bit crc n \<longrightarrow> n < 32)"

lemma mm_crc32_range: "crc_range (mm_crc32_u64 crc v)"
  by (auto simp: crc_range_def mm_crc32_u64_def bit_simps dest: bit_imp_le_length)

lemma crc_words_range: "crc_range crc \<Longrightarrow> crc_range (fst (crc_words data crc i))"
  by (induction data crc i rule: crc_words.induct) (subst crc_words.simps, simp add: mm_crc32_range)

lemma crc_tail_range: "crc_range crc \<Longrightarrow> crc_range (crc_tail data crc i)"
  by (induction data crc i rule: crc_tail.induct) (subst crc_tail.simps, simp add: mm_crc32_range)

lemma crc32_upper_half:
  assumes "data \<noteq> []"
  shows "drop_bit 32 (crc32_sse42 data) = 0xFFFFFFFF"
proof -
  obtain crc i where w: "crc_words data (NOT 0) 0 = (crc, i)" by (cases "crc_words data (NOT 0) 0")
  have "crc_range (crc_tail data crc i)"
  proof (cases "8 \<le> length data")
    case True
    then have "crc_words data (NOT 0) 0 =
        crc_words data (mm_crc32_u64 (NOT 0) (le_u64 (take 8 data))) 8"
      by (subst crc_words.simps) simp
    then have "crc_range crc"
      using w crc_words_range [OF mm_crc32_range] by (metis fst_conv)
    then show ?thesis by (rule crc_tail_range)
  next
    case False
    then have "crc = NOT 0" "i = 0" using w by (simp_all add: crc_words.simps)
    then have "crc_tail data crc i = crc_tail data (mm_crc32_u64 (NOT 0) (ucast (data ! 0))) 1"
      using assms by (subst crc_tail.simps) simp
    then show ?thesis using crc_tail_range [OF mm_crc32_range] by simp
  qed
  then have "drop_bit 32 (NOT (crc_tail data crc i)) = drop_bit 32 (NOT 0)"
    by (intro bit_word_eqI) (auto simp: crc_range_def bit_simps)
  then show ?thesis using w by (simp add: crc32_sse42_def mask_eq_exp_minus_1)
qed

end
