(* ===== verification/Storage.thy ===== *)
theory Storage
  imports Eval Simd
begin

text \<open>
  The table of src/engine.rs: rows, the primary-key index \<open>pk_index\<close>, and the column stores
  \<open>col_int_data\<close> and \<open>col_str_data\<close> the SIMD scans read. The operations that keep the three
  together (push, remove, swap-remove, clear, rebuild) are the pieces the statements are made
  of. \<open>store_ok\<close> says that the column stores mirror the rows, \<open>index_ok\<close> that the index maps
  exactly the keys of the rows to their positions; the locale \<open>table_parts\<close> is the contract of
  the pieces, interpreted here on both invariants.
\<close>

section \<open>Tables\<close>

record table =
  tbl_name :: string
  tbl_schema :: string
  columns :: "column list"
  rows :: "row list"
  pk_col_idx :: "nat option"
  pk_index :: "string \<rightharpoonup> nat"
  col_int_data :: "i64 list option list"
  col_str_data :: "string list option list"
  next_auto :: i64

definition is_int_type :: "column_type \<Rightarrow> bool" where
  "is_int_type ct \<longleftrightarrow> ct = CInt \<or> ct = CBigInt"

fun is_str_type :: "column_type \<Rightarrow> bool" where
  "is_str_type CText = True"
| "is_str_type (CVarChar n) = True"
| "is_str_type _ = False"

definition int_cell :: "row \<Rightarrow> nat \<Rightarrow> i64" where
  "int_cell row ci = (case vec_get row ci of Some (VInt n) \<Rightarrow> n | _ \<Rightarrow> 0)"

definition str_cell :: "row \<Rightarrow> nat \<Rightarrow> string" where
  "str_cell row ci = (case vec_get row ci of Some (VText s) \<Rightarrow> s | _ \<Rightarrow> [])"

definition empty_table :: "string \<Rightarrow> string \<Rightarrow> column list \<Rightarrow> table" where
  "empty_table name schema cs =
     \<lparr> tbl_name = name, tbl_schema = schema, columns = cs, rows = [],
       pk_col_idx = position primary_key cs, pk_index = Map.empty,
       col_int_data = map (\<lambda>c. if is_int_type (col_type c) then Some [] else None) cs,
       col_str_data = map (\<lambda>c. if is_str_type (col_type c) then Some [] else None) cs,
       next_auto = 1 \<rparr>"

section \<open>Column stores\<close>

text \<open>\<open>stores.iter_mut().enumerate()\<close> with an action on the stores that exist.\<close>

definition each_store :: "(nat \<Rightarrow> 'c list \<Rightarrow> 'c list) \<Rightarrow> 'c list option list \<Rightarrow> 'c list option list" where
  "each_store f stores = map (\<lambda>(ci, st). map_option (f ci) st) (List.enumerate 0 stores)"

definition push_stores :: "row \<Rightarrow> table \<Rightarrow> table" where
  "push_stores row t =
     t\<lparr> col_int_data := each_store (\<lambda>ci v. v @ [int_cell row ci]) (col_int_data t),
        col_str_data := each_store (\<lambda>ci v. v @ [str_cell row ci]) (col_str_data t) \<rparr>"

definition remove_stores :: "nat \<Rightarrow> table \<Rightarrow> table" where
  "remove_stores i t =
     t\<lparr> col_int_data := each_store (\<lambda>ci v. if i < length v then remove_at i v else v) (col_int_data t),
        col_str_data := each_store (\<lambda>ci v. if i < length v then remove_at i v else v) (col_str_data t) \<rparr>"

definition swap_remove_stores :: "nat \<Rightarrow> table \<Rightarrow> table" where
  "swap_remove_stores i t =
     t\<lparr> col_int_data := each_store (\<lambda>ci v. if i < length v then swap_remove i v else v) (col_int_data t),
        col_str_data := each_store (\<lambda>ci v. if i < length v then swap_remove i v else v) (col_str_data t) \<rparr>"

definition clear_stores :: "table \<Rightarrow> table" where
  "clear_stores t =
     t\<lparr> col_int_data := each_store (\<lambda>_ _. []) (col_int_data t),
        col_str_data := each_store (\<lambda>_ _. []) (col_str_data t) \<rparr>"

definition rebuild_stores :: "table \<Rightarrow> table" where
  "rebuild_stores t =
     t\<lparr> col_int_data := each_store (\<lambda>ci _. map (\<lambda>r. int_cell r ci) (rows t)) (col_int_data t),
        col_str_data := each_store (\<lambda>ci _. map (\<lambda>r. str_cell r ci) (rows t)) (col_str_data t) \<rparr>"

section \<open>The primary-key index\<close>

definition index_of_rows :: "'q crates \<Rightarrow> nat \<Rightarrow> row list \<Rightarrow> (string \<rightharpoonup> nat)" where
  "index_of_rows x p rs =
     fold (\<lambda>(i, r) m. m(row_pk_key x r p \<mapsto> i)) (List.enumerate 0 rs) Map.empty"

definition rebuild_index :: "'q crates \<Rightarrow> table \<Rightarrow> table" where
  "rebuild_index x t =
     (case pk_col_idx t of
        Some p \<Rightarrow> t\<lparr> pk_index := index_of_rows x p (rows t) \<rparr>
      | None \<Rightarrow> t)"

definition push_index :: "'q crates \<Rightarrow> row \<Rightarrow> table \<Rightarrow> table" where
  "push_index x row t =
     (case pk_col_idx t of
        Some p \<Rightarrow> t\<lparr> pk_index := (pk_index t)(row_pk_key x row p \<mapsto> length (rows t)) \<rparr>
      | None \<Rightarrow> t)"

section \<open>The rows of a table\<close>

text \<open>The end of the insertion loop: index, stores, then the row itself.\<close>

definition push_row :: "'q crates \<Rightarrow> row \<Rightarrow> table \<Rightarrow> table" where
  "push_row x row t =
     (let t = push_stores row (push_index x row t) in t\<lparr> rows := rows t @ [row] \<rparr>)"

text \<open>The removal of \<open>REPLACE\<close>; \<open>rows.remove\<close> panics out of range.\<close>

definition remove_row :: "'q crates \<Rightarrow> nat \<Rightarrow> table \<Rightarrow> table option" where
  "remove_row x i t =
     (if i < length (rows t)
      then Some (rebuild_index x (remove_stores i (t\<lparr> rows := remove_at i (rows t) \<rparr>)))
      else None)"

text \<open>The removal of \<open>DELETE\<close> by key: the last row moves into the hole.\<close>

definition delete_key :: "'q crates \<Rightarrow> string \<Rightarrow> table \<Rightarrow> table" where
  "delete_key x k t =
     (case pk_index t k of
        None \<Rightarrow> t
      | Some ri \<Rightarrow>
          let t = t\<lparr> pk_index := (pk_index t)(k := None) \<rparr> in
          if ri < length (rows t) then
            let last_idx = length (rows t) - 1;
                t = (if ri \<noteq> last_idx
                     then t\<lparr> pk_index := (pk_index t)
                               (row_pk_key x (rows t ! last_idx) (the (pk_col_idx t)) \<mapsto> ri) \<rparr>
                     else t)
            in swap_remove_stores ri (t\<lparr> rows := swap_remove ri (rows t) \<rparr>)
          else t)"

definition retain_rows :: "'q crates \<Rightarrow> row list \<Rightarrow> table \<Rightarrow> table" where
  "retain_rows x rs t = rebuild_stores (rebuild_index x (t\<lparr> rows := rs \<rparr>))"

definition clear_rows :: "table \<Rightarrow> table" where
  "clear_rows t = clear_stores (t\<lparr> rows := [], pk_index := Map.empty \<rparr>)"

section \<open>Invariants\<close>

definition mirrors :: "(row \<Rightarrow> nat \<Rightarrow> 'c) \<Rightarrow> row list \<Rightarrow> 'c list option list \<Rightarrow> bool" where
  "mirrors cell rs stores \<longleftrightarrow>
     (\<forall>ci < length stores. \<forall>v. stores ! ci = Some v \<longrightarrow> v = map (\<lambda>r. cell r ci) rs)"

definition store_ok :: "table \<Rightarrow> bool" where
  "store_ok t \<longleftrightarrow> mirrors int_cell (rows t) (col_int_data t) \<and>
                  mirrors str_cell (rows t) (col_str_data t)"

definition keys_of :: "'q crates \<Rightarrow> nat \<Rightarrow> row list \<Rightarrow> string list" where
  "keys_of x p rs = map (\<lambda>r. row_pk_key x r p) rs"

definition exact_index :: "string list \<Rightarrow> (string \<rightharpoonup> nat) \<Rightarrow> bool" where
  "exact_index ks m \<longleftrightarrow> (\<forall>k i. m k = Some i \<longleftrightarrow> i < length ks \<and> ks ! i = k)"

definition index_ok :: "'q crates \<Rightarrow> table \<Rightarrow> bool" where
  "index_ok x t \<longleftrightarrow>
     (case pk_col_idx t of
        None \<Rightarrow> True
      | Some p \<Rightarrow> exact_index (keys_of x p (rows t)) (pk_index t))"

definition fresh_row :: "'q crates \<Rightarrow> row \<Rightarrow> table \<Rightarrow> bool" where
  "fresh_row x row t \<longleftrightarrow>
     (case pk_col_idx t of
        None \<Rightarrow> True
      | Some p \<Rightarrow> row_pk_key x row p \<notin> set (keys_of x p (rows t)))"

section \<open>The column stores mirror the rows\<close>

lemma each_store_nth [simp]:
  "ci < length stores \<Longrightarrow> each_store f stores ! ci = map_option (f ci) (stores ! ci)"
  by (simp add: each_store_def nth_enumerate_eq)

lemma length_each_store [simp]: "length (each_store f stores) = length stores"
  by (simp add: each_store_def)

lemma mirrors_each_store:
  assumes "mirrors cell rs stores"
    and "\<And>ci. f ci (map (\<lambda>r. cell r ci) rs) = map (\<lambda>r. cell r ci) rs'"
  shows "mirrors cell rs' (each_store f stores)"
  using assms by (auto simp: mirrors_def)

lemma mirrors_rebuild:
  assumes "\<And>ci v. f ci v = map (\<lambda>r. cell r ci) rs'"
  shows "mirrors cell rs' (each_store f stores)"
  using assms by (auto simp: mirrors_def)

lemmas part_defs = push_row_def push_stores_def push_index_def remove_row_def remove_stores_def
  rebuild_index_def delete_key_def swap_remove_stores_def retain_rows_def rebuild_stores_def
  clear_rows_def clear_stores_def

lemma push_store_ok: "store_ok t \<Longrightarrow> store_ok (push_row x row t)"
  by (auto simp: store_ok_def part_defs Let_def split: option.split intro!: mirrors_each_store)

lemma remove_store_ok: "store_ok t \<Longrightarrow> remove_row x i t = Some t' \<Longrightarrow> store_ok t'"
  by (auto simp: store_ok_def part_defs map_remove_at split: option.splits if_splits
      intro!: mirrors_each_store)

lemma swap_remove_mirror:
  "i < length rs \<Longrightarrow> swap_remove i (map f rs) = map f (swap_remove i rs)"
  by (rule swap_remove_map) auto

lemma delete_store_ok: "store_ok t \<Longrightarrow> store_ok (delete_key x k t)"
  by (auto simp: store_ok_def part_defs Let_def swap_remove_mirror split: option.split
      intro!: mirrors_each_store)

lemma retain_store_ok: "store_ok (retain_rows x rs t)"
  by (auto simp: store_ok_def part_defs split: option.split intro!: mirrors_rebuild)

lemma clear_store_ok: "store_ok (clear_rows t)"
  by (auto simp: store_ok_def part_defs intro!: mirrors_rebuild)

lemma empty_store_ok: "store_ok (empty_table name schema cs)"
  by (auto simp: store_ok_def empty_table_def mirrors_def)

section \<open>The index maps the keys of the rows to their positions\<close>

lemma exact_index_distinct: "exact_index ks m \<Longrightarrow> distinct ks"
  unfolding exact_index_def distinct_conv_nth by (metis option.inject)

lemma exact_index_None: "exact_index ks m \<Longrightarrow> m k = None \<longleftrightarrow> k \<notin> set ks"
  unfolding exact_index_def by (metis in_set_conv_nth not_None_eq)

lemma exact_index_update:
  assumes "exact_index ks m" "k \<notin> set ks"
  shows "exact_index (ks @ [k]) (m(k \<mapsto> length ks))"
  using assms unfolding exact_index_def
  by (auto simp: nth_append less_Suc_eq)

lemma index_of_rows_snoc:
  "index_of_rows x p (rs @ [r]) = (index_of_rows x p rs)(row_pk_key x r p \<mapsto> length rs)"
  by (simp add: index_of_rows_def enumerate_append_eq)

lemma exact_index_of_rows:
  "distinct (keys_of x p rs) \<Longrightarrow> exact_index (keys_of x p rs) (index_of_rows x p rs)"
proof (induction rs rule: rev_induct)
  case Nil
  then show ?case by (simp add: keys_of_def index_of_rows_def exact_index_def)
next
  case (snoc r rs)
  then have "exact_index (keys_of x p rs @ [row_pk_key x r p])
      ((index_of_rows x p rs)(row_pk_key x r p \<mapsto> length (keys_of x p rs)))"
    by (intro exact_index_update) (auto simp: keys_of_def)
  then show ?case unfolding index_of_rows_snoc keys_of_def by (simp only: list.map map_append length_map)
qed

lemma keys_of_append: "keys_of x p (rs @ rs') = keys_of x p rs @ keys_of x p rs'"
  by (simp add: keys_of_def)

lemma length_keys_of [simp]: "length (keys_of x p rs) = length rs"
  by (simp add: keys_of_def)

lemma push_index_ok:
  assumes "index_ok x t" "fresh_row x row t"
  shows "index_ok x (push_row x row t)"
proof (cases "pk_col_idx t")
  case (Some p)
  then have "exact_index (keys_of x p (rows t) @ [row_pk_key x row p])
      ((pk_index t)(row_pk_key x row p \<mapsto> length (keys_of x p (rows t))))"
    using assms by (intro exact_index_update) (simp_all add: index_ok_def fresh_row_def)
  then show ?thesis
    using Some by (simp add: index_ok_def part_defs Let_def keys_of_def del: fun_upd_apply)
qed (simp add: index_ok_def part_defs Let_def)

lemma distinct_remove_at: "distinct xs \<Longrightarrow> distinct (remove_at i xs)"
  using set_take_disj_set_drop_if_distinct [of xs i "Suc i"] by (simp add: remove_at_def)

lemma index_ok_SomeI:
  "pk_col_idx t = Some p \<Longrightarrow> exact_index (keys_of x p (rows t)) (pk_index t) \<Longrightarrow> index_ok x t"
  by (simp add: index_ok_def)

lemma index_ok_SomeD:
  assumes "index_ok x t" "pk_col_idx t = Some p"
  shows "exact_index (keys_of x p (rows t)) (pk_index t)" "distinct (keys_of x p (rows t))"
  using assms exact_index_distinct by (auto simp: index_ok_def)

lemma rebuild_index_ok:
  "(\<And>p. pk_col_idx t = Some p \<Longrightarrow> distinct (keys_of x p (rows t))) \<Longrightarrow> index_ok x (rebuild_index x t)"
  by (cases "pk_col_idx t") (simp_all add: index_ok_def rebuild_index_def exact_index_of_rows)

lemma remove_index_ok:
  assumes "index_ok x t" "remove_row x i t = Some t'"
  shows "index_ok x t'"
proof -
  have t': "t' = rebuild_index x (remove_stores i (t\<lparr> rows := remove_at i (rows t) \<rparr>))"
    using assms(2) by (simp add: remove_row_def split: if_splits)
  show ?thesis unfolding t'
  proof (rule rebuild_index_ok)
    fix p assume "pk_col_idx (remove_stores i (t\<lparr> rows := remove_at i (rows t) \<rparr>)) = Some p"
    then have "distinct (remove_at i (keys_of x p (rows t)))"
      using assms(1) by (intro distinct_remove_at index_ok_SomeD(2)) (simp_all add: remove_stores_def)
    then show "distinct (keys_of x p (rows (remove_stores i (t\<lparr> rows := remove_at i (rows t) \<rparr>))))"
      by (simp add: keys_of_def map_remove_at remove_stores_def)
  qed
qed

lemma index_ok_stores [simp]:
  "index_ok x (t\<lparr> col_int_data := a, col_str_data := b \<rparr>) = index_ok x t"
  by (auto simp: index_ok_def split: option.split)

lemma retain_index_ok: "index_ok x t \<Longrightarrow> index_ok x (retain_rows x (filter P (rows t)) t)"
  unfolding retain_rows_def rebuild_stores_def index_ok_stores
  by (rule rebuild_index_ok)
    (auto simp: keys_of_def dest!: index_ok_SomeD(2) intro: distinct_map_filter)

lemma exact_index_swap_remove:
  assumes m: "exact_index ks m" and k: "m k = Some ri"
  shows "exact_index (swap_remove ri ks)
           (if ri \<noteq> length ks - 1 then (m(k := None))(ks ! (length ks - 1) \<mapsto> ri) else m(k := None))"
    (is "exact_index _ ?m")
proof -
  let ?n = "length ks - 1"
  have ri: "ri < length ks" "ks ! ri = k" using assms by (auto simp: exact_index_def)
  have inj: "ks ! i = ks ! j \<longleftrightarrow> i = j" if "i < length ks" "j < length ks" for i j
    using exact_index_distinct [OF m] that by (simp add: nth_eq_iff_index_eq)
  have "?m k' = Some i \<longleftrightarrow> i < ?n \<and> swap_remove ri ks ! i = k'" for k' i
  proof (cases "ri = ?n")
    case True
    then show ?thesis
      using m ri inj [of i ri] by (auto simp: exact_index_def nth_swap_remove)
  next
    case False
    have "?m k' = Some i \<longleftrightarrow>
        (if k' = ks ! ?n then i = ri else k' \<noteq> k \<and> i < length ks \<and> ks ! i = k')"
      using False m by (auto simp: exact_index_def)
    also have "\<dots> \<longleftrightarrow> i < ?n \<and> swap_remove ri ks ! i = k'"
      using False ri inj [of i ri] inj [of i ?n]
      by (auto simp: nth_swap_remove ri(2) [symmetric] inj split: if_splits)
    finally show ?thesis .
  qed
  then show ?thesis by (simp add: exact_index_def)
qed

lemma delete_key_Some:
  assumes "index_ok x t" "pk_col_idx t = Some p" "pk_index t k = Some ri"
  shows "delete_key x k t = swap_remove_stores ri
           (t\<lparr> rows := swap_remove ri (rows t),
              pk_index := (if ri \<noteq> length (rows t) - 1
                           then ((pk_index t)(k := None))(keys_of x p (rows t) ! (length (rows t) - 1) \<mapsto> ri)
                           else (pk_index t)(k := None)) \<rparr>)"
    and "ri < length (rows t)" "row_pk_key x (rows t ! ri) p = k"
proof -
  have ri: "ri < length (rows t)" "keys_of x p (rows t) ! ri = k"
    using index_ok_SomeD(1) [OF assms(1,2)] assms(3) by (auto simp: exact_index_def)
  then show "ri < length (rows t)" "row_pk_key x (rows t ! ri) p = k" by (simp_all add: keys_of_def)
  have "length (rows t) - 1 < length (rows t)" using ri by simp
  then show "delete_key x k t = swap_remove_stores ri
           (t\<lparr> rows := swap_remove ri (rows t),
              pk_index := (if ri \<noteq> length (rows t) - 1
                           then ((pk_index t)(k := None))(keys_of x p (rows t) ! (length (rows t) - 1) \<mapsto> ri)
                           else (pk_index t)(k := None)) \<rparr>)"
    using ri(1) assms(2,3)
    by (cases "ri = length (rows t) - 1")
      (simp_all add: delete_key_def keys_of_def swap_remove_stores_def Let_def)
qed

lemma delete_key_None: "pk_index t k = None \<Longrightarrow> delete_key x k t = t"
  by (simp add: delete_key_def)

lemma delete_index_ok:
  assumes "index_ok x t" "pk_col_idx t = Some p"
  shows "index_ok x (delete_key x k t)"
proof (cases "pk_index t k")
  case (Some ri)
  note d = delete_key_Some [OF assms Some]
  have "keys_of x p (swap_remove ri (rows t)) = swap_remove ri (keys_of x p (rows t))"
    using d(2) by (simp add: keys_of_def swap_remove_mirror)
  moreover have "rows (delete_key x k t) = swap_remove ri (rows t)"
    "pk_col_idx (delete_key x k t) = Some p"
    by (subst d(1), simp add: swap_remove_stores_def assms(2))+
  moreover have "pk_index (delete_key x k t) =
      (if ri \<noteq> length (keys_of x p (rows t)) - 1
       then ((pk_index t)(k := None))(keys_of x p (rows t) ! (length (keys_of x p (rows t)) - 1) \<mapsto> ri)
       else (pk_index t)(k := None))"
    by (subst d(1)) (simp add: swap_remove_stores_def)
  ultimately show ?thesis
    using exact_index_swap_remove [OF index_ok_SomeD(1) [OF assms] Some]
    by (intro index_ok_SomeI [of _ p]) (simp_all only:)
qed (use assms in \<open>simp add: delete_key_None\<close>)

lemma remove_at_filter:
  assumes "distinct (map f xs)" "i < length xs"
  shows "remove_at i xs = filter (\<lambda>y. f y \<noteq> f (xs ! i)) xs"
proof -
  let ?a = "take i xs" and ?b = "drop (Suc i) xs"
  have xs: "xs = ?a @ xs ! i # ?b" using assms(2) by (rule id_take_nth_drop)
  have dist: "distinct (map f (?a @ xs ! i # ?b))" by (subst xs [symmetric]) (rule assms(1))
  have "\<forall>y\<in>set ?a. f y \<noteq> f (xs ! i)" "\<forall>y\<in>set ?b. f y \<noteq> f (xs ! i)"
    using dist by (auto dest!: sym [of "f _" "f (xs ! i)"])
  then have "filter (\<lambda>y. f y \<noteq> f (xs ! i)) ?a = ?a" "filter (\<lambda>y. f y \<noteq> f (xs ! i)) ?b = ?b"
    by (auto intro!: filter_True)
  moreover have "filter (\<lambda>y. f y \<noteq> f (xs ! i)) xs =
      filter (\<lambda>y. f y \<noteq> f (xs ! i)) ?a @ filter (\<lambda>y. f y \<noteq> f (xs ! i)) ?b"
    by (subst (2) xs) (simp only: filter_append filter.simps if_False simp_thms)
  ultimately show ?thesis by (simp add: remove_at_def)
qed

lemma filter_mset_one:
  "distinct (map f xs) \<Longrightarrow> i < length xs \<Longrightarrow>
     mset xs - {#xs ! i#} = mset (filter (\<lambda>y. f y \<noteq> f (xs ! i)) xs)"
  by (simp flip: mset_remove_at remove_at_filter)

lemma delete_key_rows:
  assumes "index_ok x t" "pk_col_idx t = Some p"
  shows "mset (rows (delete_key x k t)) =
         mset (filter (\<lambda>r. row_pk_key x r p \<noteq> k) (rows t))"
proof (cases "pk_index t k")
  case None
  then have "k \<notin> set (keys_of x p (rows t))"
    using exact_index_None [OF index_ok_SomeD(1) [OF assms]] by simp
  then have "filter (\<lambda>r. row_pk_key x r p \<noteq> k) (rows t) = rows t"
    by (auto simp: keys_of_def intro!: filter_True)
  then show ?thesis by (simp add: delete_key_None None)
next
  case (Some ri)
  note d = delete_key_Some [OF assms Some]
  have "mset (rows (delete_key x k t)) = mset (rows t) - {#rows t ! ri#}"
    using d(1,2) by (simp add: swap_remove_stores_def mset_swap_remove)
  also have "\<dots> = mset (filter (\<lambda>r. row_pk_key x r p \<noteq> row_pk_key x (rows t ! ri) p) (rows t))"
    using index_ok_SomeD(2) [OF assms] d(2) unfolding keys_of_def by (rule filter_mset_one)
  finally show ?thesis using d(3) by simp
qed

lemma clear_index_ok: "index_ok x (clear_rows t)"
  by (auto simp: index_ok_def part_defs exact_index_def keys_of_def split: option.split)

lemma empty_index_ok: "index_ok x (empty_table name schema cs)"
  by (auto simp: index_ok_def empty_table_def exact_index_def keys_of_def split: option.split)

section \<open>Contracts\<close>

text \<open>
  What a statement may rely on when it changes the rows of a table through the pieces above:
  each piece has its effect on the rows and keeps the invariant. A push may have to be \<open>fresh\<close>.
\<close>

locale row_table =
  fixes rows_of :: "'t \<Rightarrow> row list" and inv :: "'t \<Rightarrow> bool" and fresh :: "row \<Rightarrow> 't \<Rightarrow> bool"
    and push :: "row \<Rightarrow> 't \<Rightarrow> 't" and remove :: "nat \<Rightarrow> 't \<Rightarrow> 't option"
    and retain :: "row list \<Rightarrow> 't \<Rightarrow> 't" and clear :: "'t \<Rightarrow> 't"
  assumes rows_push: "rows_of (push r t) = rows_of t @ [r]"
    and remove_in: "i < length (rows_of t) \<Longrightarrow>
      \<exists>t'. remove i t = Some t' \<and> rows_of t' = remove_at i (rows_of t)"
    and rows_retain: "rows_of (retain rs t) = rs"
    and rows_clear: "rows_of (clear t) = []"
    and inv_push: "inv t \<Longrightarrow> fresh r t \<Longrightarrow> inv (push r t)"
    and inv_remove: "inv t \<Longrightarrow> remove i t = Some t' \<Longrightarrow> inv t'"
    and inv_retain: "inv t \<Longrightarrow> inv (retain (filter P (rows_of t)) t)"
    and inv_clear: "inv t \<Longrightarrow> inv (clear t)"
begin

lemma rows_push_all: "rows_of (fold push rs t) = rows_of t @ rs"
  by (induction rs arbitrary: t) (simp_all add: rows_push)

lemma inv_push_all:
  assumes "inv t" "\<And>i. i < length rs \<Longrightarrow> fresh (rs ! i) (fold push (take i rs) t)"
  shows "inv (fold push rs t)"
  using assms
proof (induction rs rule: rev_induct)
  case (snoc r rs)
  have "inv (fold push rs t)"
  proof (rule snoc.IH [OF snoc.prems(1)])
    fix i assume "i < length rs"
    then show "fresh (rs ! i) (fold push (take i rs) t)"
      using snoc.prems(2) [of i] by (simp add: nth_append)
  qed
  moreover have "fresh r (fold push rs t)" using snoc.prems(2) [of "length rs"] by simp
  ultimately show ?case by (simp add: inv_push)
qed simp

end

text \<open>The rows of a table as a map from their keys.\<close>

definition keyed_rows :: "('r \<Rightarrow> 'k) \<Rightarrow> 'r list \<Rightarrow> 'k \<rightharpoonup> 'r" where
  "keyed_rows key rs = map_of (map (\<lambda>r. (key r, r)) rs)"

lemma keyed_rows_Some:
  "distinct (map key rs) \<Longrightarrow> keyed_rows key rs k = Some r \<longleftrightarrow> r \<in> set rs \<and> key r = k"
  by (auto simp: keyed_rows_def comp_def dest: map_of_SomeD intro!: map_of_is_SomeI)

lemma keyed_rows_eqI:
  assumes "distinct (map key rs)" "\<And>k r. m k = Some r \<longleftrightarrow> r \<in> set rs \<and> key r = k"
  shows "keyed_rows key rs = m"
proof
  fix k show "keyed_rows key rs k = m k"
    using keyed_rows_Some [OF assms(1), of k] assms(2) [of k] by (metis not_None_eq)
qed

lemma keyed_rows_update:
  assumes "distinct (map key rs)"
  shows "keyed_rows key (filter (\<lambda>s. key s \<noteq> key r) rs @ [r]) = (keyed_rows key rs)(key r \<mapsto> r)"
proof (rule keyed_rows_eqI)
  show "distinct (map key (filter (\<lambda>s. key s \<noteq> key r) rs @ [r]))"
    using assms distinct_map_filter [of key rs "\<lambda>s. key s \<noteq> key r"] by auto
  show "((keyed_rows key rs)(key r \<mapsto> r)) k = Some s \<longleftrightarrow>
      s \<in> set (filter (\<lambda>s. key s \<noteq> key r) rs @ [r]) \<and> key s = k" for k s
    using keyed_rows_Some [OF assms, of k s] by (cases "k = key r") auto
qed

text \<open>A table whose rows are found by key: the index is exact, keys are unique.\<close>

locale keyed_table = row_table +
  fixes key :: "row \<Rightarrow> string" and lookup :: "'a \<Rightarrow> string \<Rightarrow> nat option"
    and delete :: "string \<Rightarrow> 'a \<Rightarrow> 'a"
  assumes exact: "inv t \<Longrightarrow> exact_index (map key (rows_of t)) (lookup t)"
    and fresh_key: "inv t \<Longrightarrow> fresh r t \<longleftrightarrow> key r \<notin> key ` set (rows_of t)"
    and rows_delete: "inv t \<Longrightarrow>
      mset (rows_of (delete k t)) = mset (filter (\<lambda>r. key r \<noteq> k) (rows_of t))"
    and inv_delete: "inv t \<Longrightarrow> inv (delete k t)"
begin

lemma unique_keys: "inv t \<Longrightarrow> distinct (map key (rows_of t))"
  using exact exact_index_distinct by blast

lemma lookup_Some: "inv t \<Longrightarrow> lookup t k = Some i \<longleftrightarrow> i < length (rows_of t) \<and> key (rows_of t ! i) = k"
  using exact [of t] by (auto simp: exact_index_def)

lemma lookup_None: "inv t \<Longrightarrow> lookup t k = None \<longleftrightarrow> k \<notin> key ` set (rows_of t)"
  using exact_index_None [OF exact [of t]] by simp

lemma filter_key:
  assumes "inv t" "i < length (rows_of t)"
  shows "filter (\<lambda>r. key r = key (rows_of t ! i)) (rows_of t) = [rows_of t ! i]"
proof -
  let ?P = "\<lambda>r. key r = key (rows_of t ! i)"
  have "mset (filter ?P (rows_of t)) + mset (filter (\<lambda>r. \<not> ?P r) (rows_of t)) = mset (rows_of t)"
    by simp
  moreover have "mset (filter (\<lambda>r. \<not> ?P r) (rows_of t)) = mset (rows_of t) - {#rows_of t ! i#}"
    using filter_mset_one [OF unique_keys [OF assms(1)] assms(2)] by simp
  ultimately have "mset (filter ?P (rows_of t)) = {#rows_of t ! i#}"
    using assms(2)
    by (metis add_diff_cancel_right' diff_union_swap2 in_multiset_in_set insert_DiffM
        nth_mem add_mset_add_single union_commute)
  then show ?thesis by (metis mset_single_iff_right)
qed

lemma point_query:
  assumes "inv t"
  shows "(case lookup t k of Some i \<Rightarrow> [rows_of t ! i] | None \<Rightarrow> []) =
         filter (\<lambda>r. key r = k) (rows_of t)"
proof (cases "lookup t k")
  case None
  then have "filter (\<lambda>r. key r = k) (rows_of t) = []"
    using lookup_None [OF assms, of k] by (auto simp: filter_empty_conv)
  then show ?thesis using None by simp
next
  case (Some i)
  then show ?thesis using lookup_Some [OF assms, of k i] filter_key [OF assms, of i] by auto
qed

lemma not_found_after_delete: "inv t \<Longrightarrow> lookup (delete k t) k = None"
  using mset_eq_setD [OF rows_delete [of t k]] by (auto simp: lookup_None inv_delete)

text \<open>Removing the row with the key of \<open>r\<close>, when there is one, and pushing \<open>r\<close>.\<close>

lemma replace:
  assumes "inv t"
  obtains t' where
    "(case lookup t (key r) of Some i \<Rightarrow> remove i t | None \<Rightarrow> Some t) = Some t'"
    "inv t'" "fresh r t'" "rows_of t' = filter (\<lambda>s. key s \<noteq> key r) (rows_of t)"
proof (cases "lookup t (key r)")
  case None
  then have "key r \<notin> key ` set (rows_of t)" using lookup_None [OF assms] by simp
  moreover from this have "filter (\<lambda>s. key s \<noteq> key r) (rows_of t) = rows_of t"
    by (intro filter_True ballI) (metis imageI)
  ultimately show thesis using that [of t] assms None by (simp add: fresh_key)
next
  case (Some i)
  then have i: "i < length (rows_of t)" "key (rows_of t ! i) = key r"
    using lookup_Some [OF assms] by auto
  obtain t' where t': "remove i t = Some t'" "rows_of t' = remove_at i (rows_of t)"
    using remove_in [OF i(1)] by auto
  have rs: "rows_of t' = filter (\<lambda>s. key s \<noteq> key r) (rows_of t)"
    using t'(2) remove_at_filter [OF unique_keys [OF assms] i(1)] i(2) by simp
  moreover have "inv t'" using inv_remove assms t'(1) by blast
  moreover from this have "fresh r t'" using rs by (auto simp: fresh_key)
  ultimately show thesis using that [of t'] t'(1) Some by simp
qed

text \<open>The table refines the map: the lookup finds its entries, a deletion removes one.\<close>

lemma lookup_map: "inv t \<Longrightarrow> keyed_rows key (rows_of t) k = map_option ((!) (rows_of t)) (lookup t k)"
proof (cases "lookup t k")
  case None
  moreover assume "inv t"
  ultimately show ?thesis
    using lookup_None [of t k] keyed_rows_Some [OF unique_keys [of t], of k] by (metis image_eqI not_None_eq option.map_disc_iff)
next
  case (Some i)
  moreover assume "inv t"
  ultimately show ?thesis
    using lookup_Some [of t k i] keyed_rows_Some [OF unique_keys [of t], of k "rows_of t ! i"] by simp
qed

lemma delete_map:
  assumes "inv t"
  shows "keyed_rows key (rows_of (delete k t)) = (keyed_rows key (rows_of t))(k := None)"
proof (rule keyed_rows_eqI)
  show "distinct (map key (rows_of (delete k t)))" using unique_keys inv_delete [OF assms] by blast
  have "set (rows_of (delete k t)) = {r \<in> set (rows_of t). key r \<noteq> k}"
    using mset_eq_setD [OF rows_delete [OF assms, of k]] by simp
  then show "((keyed_rows key (rows_of t))(k := None)) k' = Some r \<longleftrightarrow> r \<in> set (rows_of (delete k t)) \<and> key r = k'" for k' r
    using keyed_rows_Some [OF unique_keys [OF assms], of k' r] by auto
qed

end

lemma rows_parts [simp]:
  "rows (push_row x r t) = rows t @ [r]"
  "rows (retain_rows x rs t) = rs"
  "rows (clear_rows t) = []"
  by (simp_all add: part_defs Let_def split: option.split)

lemma pk_col_parts [simp]:
  "pk_col_idx (push_row x r t) = pk_col_idx t"
  "pk_col_idx (retain_rows x rs t) = pk_col_idx t"
  "pk_col_idx (clear_rows t) = pk_col_idx t"
  by (simp_all add: part_defs Let_def split: option.split)

lemma pk_col_delete [simp]: "pk_col_idx (delete_key x k t) = pk_col_idx t"
  by (simp add: delete_key_def swap_remove_stores_def Let_def split: option.split)

lemma pk_col_remove: "remove_row x i t = Some t' \<Longrightarrow> pk_col_idx t' = pk_col_idx t"
  by (auto simp: remove_row_def rebuild_index_def remove_stores_def split: option.splits if_splits)

lemma remove_row_in:
  "i < length (rows t) \<Longrightarrow> \<exists>t'. remove_row x i t = Some t' \<and> rows t' = remove_at i (rows t)"
  by (auto simp: part_defs split: option.split)

interpretation stores: row_table rows store_ok "\<lambda>_ _. True" "push_row x" "remove_row x"
    "retain_rows x" clear_rows for x :: "'q crates"
  by unfold_locales
    (auto intro: remove_row_in push_store_ok retain_store_ok clear_store_ok elim: remove_store_ok)

interpretation pk: keyed_table rows "\<lambda>t. pk_col_idx t = Some p \<and> index_ok x t" "fresh_row x"
    "push_row x" "remove_row x" "retain_rows x" clear_rows "\<lambda>r. row_pk_key x r p" pk_index
    "delete_key x" for x :: "'q crates" and p :: nat
proof unfold_locales
  fix t :: table and r i t' P k
  assume t: "pk_col_idx t = Some p \<and> index_ok x t"
  show "fresh_row x r t \<Longrightarrow> pk_col_idx (push_row x r t) = Some p \<and> index_ok x (push_row x r t)"
    using t by (simp add: push_index_ok)
  show "remove_row x i t = Some t' \<Longrightarrow> pk_col_idx t' = Some p \<and> index_ok x t'"
    using t by (auto simp: pk_col_remove intro: remove_index_ok)
  show "pk_col_idx (retain_rows x (filter P (rows t)) t) = Some p \<and>
      index_ok x (retain_rows x (filter P (rows t)) t)"
    using t by (simp add: retain_index_ok)
  show "pk_col_idx (clear_rows t) = Some p \<and> index_ok x (clear_rows t)"
    using t by (simp add: clear_index_ok)
  show "exact_index (map (\<lambda>r. row_pk_key x r p) (rows t)) (pk_index t)"
    using t index_ok_SomeD(1) by (fastforce simp: keys_of_def)
  show "fresh_row x r t \<longleftrightarrow> row_pk_key x r p \<notin> (\<lambda>r. row_pk_key x r p) ` set (rows t)"
    using t by (simp add: fresh_row_def keys_of_def)
  show "mset (rows (delete_key x k t)) = mset (filter (\<lambda>r. row_pk_key x r p \<noteq> k) (rows t))"
    using t by (intro delete_key_rows) auto
  show "pk_col_idx (delete_key x k t) = Some p \<and> index_ok x (delete_key x k t)"
    using t by (simp add: delete_index_ok)
qed (use remove_row_in in auto)

end
