(* ===== verification/Table_Ops.thy ===== *)
theory Table_Ops
  imports Storage
begin

text \<open>
  The statements of src/engine.rs on one table: \<open>INSERT\<close> and \<open>REPLACE\<close> with the
  auto-increment counter, \<open>UPDATE\<close> and \<open>DELETE\<close> with their primary-key fast paths,
  \<open>TRUNCATE\<close>, \<open>ALTER TABLE\<close>, the prepared variants, and the choice of a SIMD scan for a
  \<open>WHERE\<close> clause. A result \<open>None\<close> is a panic. Locating the table in the engine is in Engine.
\<close>

section \<open>INSERT\<close>

text \<open>\<open>col_map\<close>: for each column of the table, the position of its value in the source row.\<close>

definition make_col_map :: "column list \<Rightarrow> string list \<Rightarrow> nat option list" where
  "make_col_map cols names =
     (if names \<noteq> []
      then map (\<lambda>tc. position (\<lambda>cn. eq_ignore_case cn (col_name tc)) names) cols
      else [])"

fun remap_row :: "column list \<Rightarrow> nat option list \<Rightarrow> row \<Rightarrow> i64 \<Rightarrow> row \<times> i64" where
  "remap_row (c # cs) (m # ms) src auto =
     (case m of
        Some si \<Rightarrow>
          (let (r, a) = remap_row cs ms src auto
           in ((case vec_get src si of Some v \<Rightarrow> v | None \<Rightarrow> Null) # r, a))
      | None \<Rightarrow>
          if primary_key c then (let (r, a) = remap_row cs ms src (auto + 1) in (VInt auto # r, a))
          else (let (r, a) = remap_row cs ms src auto in (Null # r, a)))"
| "remap_row _ _ src auto = ([], auto)"

definition build_row :: "nat option list \<Rightarrow> row \<Rightarrow> table \<Rightarrow> row \<times> table" where
  "build_row col_map src t =
     (if col_map \<noteq> []
      then let (row, a) = remap_row (columns t) col_map src (next_auto t)
           in (row, t\<lparr> next_auto := a \<rparr>)
      else (src, t))"

definition replace_old :: "'q crates \<Rightarrow> row \<Rightarrow> table \<Rightarrow> table option" where
  "replace_old x row t =
     (case pk_col_idx t of
        None \<Rightarrow> Some t
      | Some p \<Rightarrow>
          (case pk_index t (row_pk_key x row p) of
             Some old_pos \<Rightarrow> remove_row x old_pos t
           | None \<Rightarrow> Some t))"

definition advance_auto :: "row \<Rightarrow> table \<Rightarrow> table" where
  "advance_auto row t =
     (case pk_col_idx t of
        None \<Rightarrow> t
      | Some p \<Rightarrow>
          (case vec_get row p of
             Some (VInt n) \<Rightarrow> if sint n \<ge> sint (next_auto t) then t\<lparr> next_auto := n + 1 \<rparr> else t
           | _ \<Rightarrow> t))"

definition insert_one :: "'q crates \<Rightarrow> bool \<Rightarrow> nat option list \<Rightarrow> row \<Rightarrow> table \<Rightarrow> table option" where
  "insert_one x replace_into col_map src t =
     (let (row, t) = build_row col_map src t in
      do { t \<leftarrow> (if replace_into then replace_old x row t else Some t);
           Some (push_row x row (advance_auto row t)) })"

fun insert_all :: "'q crates \<Rightarrow> bool \<Rightarrow> nat option list \<Rightarrow> row list \<Rightarrow> table \<Rightarrow> table option" where
  "insert_all x replace_into col_map [] t = Some t"
| "insert_all x replace_into col_map (src # srcs) t =
     do { t \<leftarrow> insert_one x replace_into col_map src t;
          insert_all x replace_into col_map srcs t }"

definition last_pk :: "table \<Rightarrow> u64" where
  "last_pk t =
     (case pk_col_idx t of
        None \<Rightarrow> 0
      | Some p \<Rightarrow>
          if rows t = [] then 0
          else case vec_get (last (rows t)) p of Some (VInt n) \<Rightarrow> n | _ \<Rightarrow> 0)"

text \<open>The text rows of \<open>INSERT ... SELECT\<close>, converted to the types of the columns.\<close>

definition coerce_cell :: "column_type option \<Rightarrow> string option \<Rightarrow> Value" where
  "coerce_cell ct v =
     (case v of
        None \<Rightarrow> Null
      | Some s \<Rightarrow>
          (case ct of
             Some CInt \<Rightarrow> VInt (case parse_i64 s of Some n \<Rightarrow> n | None \<Rightarrow> 0)
           | Some CBigInt \<Rightarrow> VInt (case parse_i64 s of Some n \<Rightarrow> n | None \<Rightarrow> 0)
           | Some CFloat \<Rightarrow> VFloat (case f64_parse s of Some f \<Rightarrow> f | None \<Rightarrow> F64 0)
           | _ \<Rightarrow> VText s))"

definition coerce_row :: "column_type list \<Rightarrow> string option list \<Rightarrow> row" where
  "coerce_row types r = map (\<lambda>(i, v). coerce_cell (vec_get types i) v) (List.enumerate 0 r)"

section \<open>UPDATE\<close>

type_synonym 'q assignments = "(string \<times> 'q expr) list"

text \<open>The scan path: assignments in order, each seeing the effect of the ones before it.\<close>

fun assign_row :: "'q crates \<Rightarrow> column list \<Rightarrow> 'q assignments \<Rightarrow> row \<Rightarrow> row option" where
  "assign_row x cols [] row = Some row"
| "assign_row x cols ((n, e) # as) row =
     (case col_position cols n of
        None \<Rightarrow> assign_row x cols as row
      | Some idx \<Rightarrow>
          do { v \<leftarrow> eval_row_expr x row cols e;
               if idx < length row then assign_row x cols as (row[idx := v]) else None })"

fun update_scan :: "'q crates \<Rightarrow> column list \<Rightarrow> (row \<Rightarrow> bool option) \<Rightarrow> 'q assignments \<Rightarrow>
    row list \<Rightarrow> (row list \<times> nat) option" where
  "update_scan x cols cond asgns [] = Some ([], 0)"
| "update_scan x cols cond asgns (r # rs) =
     do { b \<leftarrow> cond r;
          r' \<leftarrow> (if b then assign_row x cols asgns r else Some r);
          (rs', n) \<leftarrow> update_scan x cols cond asgns rs;
          Some (r' # rs', if b then n + 1 else n) }"

text \<open>The stores follow an assignment only when the value has the kind of the store.\<close>

definition sync_int :: "nat \<Rightarrow> nat \<Rightarrow> Value \<Rightarrow> i64 list option list \<Rightarrow> i64 list option list" where
  "sync_int idx ri v stores =
     (case (vec_get stores idx, v) of
        (Some (Some st), VInt n) \<Rightarrow>
          if ri < length st then stores[idx := Some (st[ri := n])] else stores
      | _ \<Rightarrow> stores)"

definition sync_str :: "nat \<Rightarrow> nat \<Rightarrow> Value \<Rightarrow> string list option list \<Rightarrow> string list option list" where
  "sync_str idx ri v stores =
     (case (vec_get stores idx, v) of
        (Some (Some st), VText s) \<Rightarrow>
          if ri < length st then stores[idx := Some (st[ri := s])] else stores
      | _ \<Rightarrow> stores)"

definition set_cell :: "nat \<Rightarrow> nat \<Rightarrow> Value \<Rightarrow> table \<Rightarrow> table option" where
  "set_cell ri idx v t =
     (if idx < length (rows t ! ri)
      then Some (t\<lparr> col_int_data := sync_int idx ri v (col_int_data t),
                    col_str_data := sync_str idx ri v (col_str_data t),
                    rows := (rows t)[ri := (rows t ! ri)[idx := v]] \<rparr>)
      else None)"

fun assign_at :: "'q crates \<Rightarrow> nat \<Rightarrow> 'q assignments \<Rightarrow> table \<Rightarrow> table option" where
  "assign_at x ri [] t = Some t"
| "assign_at x ri ((n, e) # as) t =
     (case col_position (columns t) n of
        None \<Rightarrow> assign_at x ri as t
      | Some idx \<Rightarrow>
          do { v \<leftarrow> eval_row_expr x (rows t ! ri) (columns t) e;
               t \<leftarrow> set_cell ri idx v t;
               assign_at x ri as t })"

text \<open>The literal key of a \<open>WHERE\<close> clause, when the table has a primary key and the clause is
  an equation on it; \<open>table.columns[pk_idx]\<close> panics out of range.\<close>

definition pk_eq_key :: "table \<Rightarrow> 'q expr option \<Rightarrow> string option option" where
  "pk_eq_key t sel =
     (case (pk_col_idx t, sel) of
        (Some p, Some w) \<Rightarrow>
          map_option (\<lambda>c. extract_pk_eq (col_name c) w) (vec_get (columns t) p)
      | _ \<Rightarrow> Some None)"

definition update_table :: "'q crates \<Rightarrow> 'q assignments \<Rightarrow> 'q expr option \<Rightarrow> table \<Rightarrow>
    (table \<times> nat) option" where
  "update_table x asgns sel t =
     do { pk_eq \<leftarrow> pk_eq_key t sel;
          case pk_eq of
            Some k \<Rightarrow>
              (case pk_index t k of
                 Some ri \<Rightarrow>
                   if ri < length (rows t)
                   then map_option (\<lambda>t. (t, 1)) (assign_at x ri asgns t)
                   else Some (t, 0)
               | None \<Rightarrow> Some (t, 0))
          | None \<Rightarrow>
              map_option (\<lambda>(rs, n). (t\<lparr> rows := rs \<rparr>, n))
                (update_scan x (columns t) (\<lambda>r. eval_opt_where x r (columns t) sel) asgns (rows t)) }"

section \<open>DELETE and TRUNCATE\<close>

definition keep_row :: "(row \<Rightarrow> 'q expr \<Rightarrow> bool option) \<Rightarrow> 'q expr option \<Rightarrow> row \<Rightarrow> bool option" where
  "keep_row ev sel r = (case sel of Some w \<Rightarrow> map_option Not (ev r w) | None \<Rightarrow> Some False)"

definition delete_table :: "'q crates \<Rightarrow> 'q expr option \<Rightarrow> table \<Rightarrow> (table \<times> nat) option" where
  "delete_table x sel t =
     do { pk_eq \<leftarrow> pk_eq_key t sel;
          t' \<leftarrow> (case pk_eq of
                   Some k \<Rightarrow> Some (delete_key x k t)
                 | None \<Rightarrow>
                     map_option (\<lambda>rs. retain_rows x rs t)
                       (filter_panic (keep_row (\<lambda>r. eval_cond x r (columns t)) sel) (rows t)));
          Some (t', length (rows t) - length (rows t')) }"

definition truncate_table :: "table \<Rightarrow> table \<times> nat" where
  "truncate_table t = (clear_rows t, length (rows t))"

section \<open>Prepared statements\<close>

fun bind_row :: "'q crates \<Rightarrow> Value list \<Rightarrow> 'q expr list \<Rightarrow> nat \<Rightarrow> row \<times> nat" where
  "bind_row x bound [] i = ([], i)"
| "bind_row x bound (e # es) i =
     (if is_placeholder x e
      then let (r, j) = bind_row x bound es (i + 1)
           in ((case vec_get bound i of Some v \<Rightarrow> v | None \<Rightarrow> Null) # r, j)
      else let (r, j) = bind_row x bound es i in (expr_to_value x e # r, j))"

fun insert_prepared_rows :: "'q crates \<Rightarrow> Value list \<Rightarrow> 'q expr list list \<Rightarrow> nat \<Rightarrow> table \<Rightarrow> table" where
  "insert_prepared_rows x bound [] i t = t"
| "insert_prepared_rows x bound (es # ess) i t =
     (let (row, j) = bind_row x bound es i
      in insert_prepared_rows x bound ess j (push_row x row t))"

fun assign_bound :: "'q crates \<Rightarrow> nat \<Rightarrow> Value list \<Rightarrow> 'q assignments \<Rightarrow> nat \<Rightarrow> table \<Rightarrow> table option" where
  "assign_bound x ri bound [] i t = Some t"
| "assign_bound x ri bound ((n, e) # as) i t =
     (case col_position (columns t) n of
        None \<Rightarrow> assign_bound x ri bound as i t
      | Some idx \<Rightarrow>
          if is_placeholder x e
          then do { t \<leftarrow> set_cell ri idx (case vec_get bound i of Some v \<Rightarrow> v | None \<Rightarrow> Null) t;
                    assign_bound x ri bound as (i + 1) t }
          else do { t \<leftarrow> set_cell ri idx (expr_to_value x e) t;
                    assign_bound x ri bound as i t })"

definition pk_eq_param :: "'q crates \<Rightarrow> table \<Rightarrow> 'q assignments \<Rightarrow> 'q expr option \<Rightarrow> Value list \<Rightarrow>
    string option option" where
  "pk_eq_param x t asgns sel bound =
     (case (pk_col_idx t, sel) of
        (Some p, Some w) \<Rightarrow>
          map_option (\<lambda>c.
            do { pos \<leftarrow> extract_pk_eq_param x (col_name c) w
                          (length (filter (\<lambda>(n, e). is_placeholder x e) asgns));
                 map_option value_to_pk_str (vec_get bound pos) }) (vec_get (columns t) p)
      | _ \<Rightarrow> Some None)"

definition update_prepared_table :: "'q crates \<Rightarrow> 'q assignments \<Rightarrow> 'q expr option \<Rightarrow> Value list \<Rightarrow>
    table \<Rightarrow> (table \<times> nat) option" where
  "update_prepared_table x asgns sel bound t =
     do { pk_eq \<leftarrow> pk_eq_param x t asgns sel bound;
          case pk_eq of
            Some k \<Rightarrow>
              (case pk_index t k of
                 Some ri \<Rightarrow>
                   if ri < length (rows t)
                   then map_option (\<lambda>t. (t, 1)) (assign_bound x ri bound asgns 0 t)
                   else Some (t, 1)
               | None \<Rightarrow> Some (t, 1))
          | None \<Rightarrow>
              map_option (\<lambda>(rs, n). (t\<lparr> rows := rs \<rparr>, n))
                (update_scan x (columns t)
                   (\<lambda>r. case sel of Some w \<Rightarrow> eval_where_bound x r (columns t) w bound
                                  | None \<Rightarrow> Some True) asgns (rows t)) }"

definition delete_prepared_table :: "'q crates \<Rightarrow> 'q expr option \<Rightarrow> Value list \<Rightarrow> table \<Rightarrow>
    (table \<times> nat) option" where
  "delete_prepared_table x sel bound t =
     map_option (\<lambda>rs. (retain_rows x rs t, length (rows t) - length rs))
       (filter_panic (keep_row (\<lambda>r w. eval_where_bound x r (columns t) w bound) sel) (rows t))"

section \<open>ALTER TABLE\<close>

datatype alter_op =
    AddColumn string data_type
  | DropColumn string
  | RenameColumn string string
  | OtherAlter

definition put_store :: "nat \<Rightarrow> 'c list option \<Rightarrow> 'c list option list \<Rightarrow> 'c list option list" where
  "put_store i st stores =
     (let padded = stores @ replicate (Suc i - length stores) None
      in case st of None \<Rightarrow> padded | Some v \<Rightarrow> padded[i := Some v])"

definition add_column :: "string \<Rightarrow> column_type \<Rightarrow> table \<Rightarrow> table" where
  "add_column n ct t =
     (let new_idx = length (columns t); len = length (rows t) in
      t\<lparr> rows := map (\<lambda>r. r @ [Null]) (rows t),
         col_int_data := put_store new_idx (if is_int_type ct then Some (replicate len 0) else None)
                           (col_int_data t),
         col_str_data := put_store new_idx (if is_str_type ct then Some (replicate len []) else None)
                           (col_str_data t),
         columns := columns t @
           [\<lparr> col_name = n, col_type = ct, nullable = True, primary_key = False \<rparr>] \<rparr>)"

definition remove_if_in :: "nat \<Rightarrow> 'a list \<Rightarrow> 'a list" where
  "remove_if_in i xs = (if i < length xs then remove_at i xs else xs)"

definition drop_column :: "nat \<Rightarrow> table \<Rightarrow> table" where
  "drop_column i t =
     (let cols = remove_at i (columns t) in
      t\<lparr> columns := cols,
         rows := map (remove_if_in i) (rows t),
         col_int_data := remove_if_in i (col_int_data t),
         col_str_data := remove_if_in i (col_str_data t),
         pk_col_idx := position primary_key cols \<rparr>)"

definition alter_step :: "alter_op \<Rightarrow> table \<Rightarrow> (u16 \<times> string) + table" where
  "alter_step oper t =
     (case oper of
        AddColumn n dt \<Rightarrow>
          if col_position (columns t) n \<noteq> None
          then Inl (1060, ''Duplicate column name '' @ [CHR 0x27] @ n @ [CHR 0x27])
          else Inr (add_column n (sql_type_to_col_type dt) t)
      | DropColumn n \<Rightarrow>
          (case col_position (columns t) n of
             None \<Rightarrow> Inl (1091, ''Can'' @ [CHR 0x27] @ ''t DROP COLUMN '' @ [CHR 0x27] @ n @ [CHR 0x27])
           | Some i \<Rightarrow>
               if primary_key (columns t ! i)
               then Inl (1075, ''Incorrect table definition: only one primary key allowed'')
               else Inr (drop_column i t))
      | RenameColumn old new \<Rightarrow>
          (case col_position (columns t) old of
             None \<Rightarrow> Inl (1054, ''Unknown column '' @ [CHR 0x27] @ old @ [CHR 0x27])
           | Some i \<Rightarrow> Inr (t\<lparr> columns := (columns t)[i := (columns t ! i)\<lparr> col_name := new \<rparr>] \<rparr>))
      | OtherAlter \<Rightarrow> Inr t)"

fun alter_table :: "alter_op list \<Rightarrow> table \<Rightarrow> table \<times> (u16 \<times> string) option" where
  "alter_table [] t = (t, None)"
| "alter_table (oper # opers) t =
     (case alter_step oper t of Inl err \<Rightarrow> (t, Some err) | Inr t' \<Rightarrow> alter_table opers t')"

section \<open>SIMD dispatch\<close>

fun number_literal :: "'q expr \<Rightarrow> i64 option" where
  "number_literal (EValue (SNumber n)) = parse_i64 n"
| "number_literal _ = None"

fun quoted_literal :: "'q expr \<Rightarrow> string option" where
  "quoted_literal (EValue (SSingleQuotedString s)) = Some s"
| "quoted_literal _ = None"

definition try_simd_scan :: "bool \<Rightarrow> table \<Rightarrow> 'q expr \<Rightarrow> nat list option" where
  "try_simd_scan avx2 t e =
     (case e of
        EBinaryOp l op r \<Rightarrow>
          do { n \<leftarrow> column_name l;
               ci \<leftarrow> col_position (columns t) n;
               case vec_get (col_int_data t) ci of
                 Some (Some st) \<Rightarrow>
                   do { target \<leftarrow> number_literal r;
                        if op = OpEq then Some (scan_eq_i64 avx2 st target)
                        else if op = OpGt then Some (scan_gt_i64 avx2 st target)
                        else if op = OpLt then Some (scan_lt_i64 avx2 st target)
                        else None }
               | _ \<Rightarrow>
                   if op = OpEq then
                     (case vec_get (col_str_data t) ci of
                        Some (Some st) \<Rightarrow> map_option (scan_eq_str avx2 st) (quoted_literal r)
                      | _ \<Rightarrow> None)
                   else None }
      | _ \<Rightarrow> None)"

end
