(* ===== verification/Table_Laws.thy ===== *)
theory Table_Laws
  imports Table_Ops
begin

text \<open>
  What the statements of Table_Ops do to a table: their effect on the rows, the preservation of
  \<open>store_ok\<close> and \<open>index_ok\<close>, the freshness of auto-increment keys, and the agreement of the
  primary-key fast paths with the scans they replace. The facts on rows and invariants come from
  the contracts of Storage.
\<close>

section \<open>INSERT\<close>

lemma build_row_table:
  "build_row col_map src t = (row, t') \<Longrightarrow> \<exists>a. t' = t\<lparr> next_auto := a \<rparr>"
  by (auto simp: build_row_def split: if_splits prod.splits intro: exI [of _ "next_auto t"])

lemma advance_auto_table: "\<exists>a. advance_auto row t = t\<lparr> next_auto := a \<rparr>"
  by (auto simp: advance_auto_def split: option.split Value.split intro: exI [of _ "next_auto t"])

lemma next_auto_invs [simp]:
  "store_ok (t\<lparr> next_auto := a \<rparr>) = store_ok t"
  "index_ok x (t\<lparr> next_auto := a \<rparr>) = index_ok x t"
  "fresh_row x r (t\<lparr> next_auto := a \<rparr>) = fresh_row x r t"
  by (simp_all add: store_ok_def index_ok_def fresh_row_def split: option.split)

lemma advance_auto_simps [simp]:
  "rows (advance_auto row t) = rows t"
  "columns (advance_auto row t) = columns t"
  "pk_col_idx (advance_auto row t) = pk_col_idx t"
  "store_ok (advance_auto row t) = store_ok t"
  "index_ok x (advance_auto row t) = index_ok x t"
  "fresh_row x r (advance_auto row t) = fresh_row x r t"
  using advance_auto_table [of row t] by auto

text \<open>The rows a statement appends, with the counter threaded through.\<close>

definition built :: "nat option list \<Rightarrow> row \<Rightarrow> table \<Rightarrow> row" where
  "built col_map src t = fst (build_row col_map src t)"

lemma insert_one_plain:
  assumes "insert_one x False col_map src t = Some t'"
  shows "rows t' = rows t @ [built col_map src t]"
proof -
  obtain row t1 where b: "build_row col_map src t = (row, t1)" by fastforce
  with build_row_table obtain a where "t1 = t\<lparr> next_auto := a \<rparr>" by blast
  then show ?thesis using assms b by (auto simp: insert_one_def built_def)
qed

lemma insert_one_total: "\<exists>t'. insert_one x False col_map src t = Some t'"
  by (simp add: insert_one_def split: prod.split)

lemma insert_one_store:
  assumes "store_ok t" "insert_one x rep col_map src t = Some t'"
  shows "store_ok t'"
proof -
  obtain row t1 where b: "build_row col_map src t = (row, t1)" by fastforce
  with build_row_table assms(1) have "store_ok t1" by fastforce
  then have "store_ok t2" if "(if rep then replace_old x row t1 else Some t1) = Some t2" for t2
    using that by (auto simp: replace_old_def split: if_splits option.splits
        intro: stores.inv_remove)
  then show ?thesis
    using assms(2) b by (auto simp: insert_one_def bind_eq_Some_conv intro!: stores.inv_push)
qed

lemma insert_all_store:
  "store_ok t \<Longrightarrow> insert_all x rep col_map srcs t = Some t' \<Longrightarrow> store_ok t'"
  by (induction srcs arbitrary: t) (auto simp: bind_eq_Some_conv dest: insert_one_store)

text \<open>\<open>REPLACE\<close> on an exact index: it does not panic and the index stays exact.\<close>

lemma insert_one_replace:
  assumes "pk_col_idx t = Some p" "index_ok x t"
  obtains t' where "insert_one x True col_map src t = Some t'" "pk_col_idx t' = Some p" "index_ok x t'"
    and "rows t' = filter (\<lambda>r. row_pk_key x r p \<noteq> row_pk_key x (built col_map src t) p) (rows t)
                   @ [built col_map src t]"
proof -
  obtain row t1 where b: "build_row col_map src t = (row, t1)" by fastforce
  with build_row_table obtain a where t1: "t1 = t\<lparr> next_auto := a \<rparr>" by blast
  have ok: "pk_col_idx t1 = Some p \<and> index_ok x t1" using assms t1 by simp
  obtain t2 where t2:
    "(case pk_index t1 (row_pk_key x row p) of Some i \<Rightarrow> remove_row x i t1 | None \<Rightarrow> Some t1) = Some t2"
    "pk_col_idx t2 = Some p \<and> index_ok x t2" "fresh_row x row t2"
    "rows t2 = filter (\<lambda>s. row_pk_key x s p \<noteq> row_pk_key x row p) (rows t1)"
    by (rule pk.replace [OF ok, of row])
  have "insert_one x True col_map src t = Some (push_row x row (advance_auto row t2))"
    using b ok t2(1) by (simp add: insert_one_def replace_old_def)
  moreover have "pk_col_idx (push_row x row (advance_auto row t2)) = Some p \<and>
      index_ok x (push_row x row (advance_auto row t2))"
    using t2(2,3) by (intro pk.inv_push) simp_all
  ultimately show thesis using that t2(4) b t1 by (simp add: built_def)
qed

lemma insert_all_replace:
  assumes "pk_col_idx t = Some p" "index_ok x t"
  shows "\<exists>t'. insert_all x True col_map srcs t = Some t' \<and> pk_col_idx t' = Some p \<and> index_ok x t'"
  using assms
proof (induction srcs arbitrary: t)
  case (Cons src srcs)
  obtain t1 where "insert_one x True col_map src t = Some t1" "pk_col_idx t1 = Some p" "index_ok x t1"
    by (rule insert_one_replace [OF Cons.prems])
  then show ?case using Cons.IH by simp
qed simp

text \<open>The rows of a table as a map from their keys, which the operations refine.\<close>

definition table_map :: "'q crates \<Rightarrow> nat \<Rightarrow> table \<Rightarrow> string \<rightharpoonup> row" where
  "table_map x p t = keyed_rows (\<lambda>r. row_pk_key x r p) (rows t)"

lemma table_map_lookup:
  "pk_col_idx t = Some p \<Longrightarrow> index_ok x t \<Longrightarrow> table_map x p t k = map_option ((!) (rows t)) (pk_index t k)"
  unfolding table_map_def by (rule pk.lookup_map) simp

lemma table_map_delete:
  "pk_col_idx t = Some p \<Longrightarrow> index_ok x t \<Longrightarrow> table_map x p (delete_key x k t) = (table_map x p t)(k := None)"
  unfolding table_map_def by (rule pk.delete_map) simp

lemma insert_one_map:
  assumes "pk_col_idx t = Some p" "index_ok x t"
  obtains t' where "insert_one x True col_map src t = Some t'" "pk_col_idx t' = Some p" "index_ok x t'"
    and "table_map x p t' = (table_map x p t)(row_pk_key x (built col_map src t) p \<mapsto> built col_map src t)"
proof -
  obtain t' where t': "insert_one x True col_map src t = Some t'" "pk_col_idx t' = Some p" "index_ok x t'"
    and rows: "rows t' = filter (\<lambda>r. row_pk_key x r p \<noteq> row_pk_key x (built col_map src t) p) (rows t)
                   @ [built col_map src t]"
    by (rule insert_one_replace [OF assms])
  have "table_map x p t' = (table_map x p t)(row_pk_key x (built col_map src t) p \<mapsto> built col_map src t)"
    unfolding table_map_def rows using assms pk.unique_keys [of t p x] by (intro keyed_rows_update) simp
  then show thesis using that t' by blast
qed

lemma insert_all_map:
  assumes "pk_col_idx t = Some p" "index_ok x t"
  shows "\<exists>t'. insert_all x True [] srcs t = Some t' \<and> pk_col_idx t' = Some p \<and> index_ok x t' \<and>
    table_map x p t' = fold (\<lambda>r m. m(row_pk_key x r p \<mapsto> r)) srcs (table_map x p t)"
  using assms
proof (induction srcs arbitrary: t)
  case (Cons src srcs)
  obtain t1 where "insert_one x True [] src t = Some t1" "pk_col_idx t1 = Some p" "index_ok x t1"
    "table_map x p t1 = (table_map x p t)(row_pk_key x src p \<mapsto> src)"
    by (rule insert_one_map [OF Cons.prems, of "[]" src]) (simp add: built_def build_row_def)
  then show ?case using Cons.IH [of t1] by simp
qed simp

lemma insert_one_fresh:
  assumes "pk_col_idx t = Some p" "index_ok x t" "insert_one x False col_map src t = Some t'"
    and "row_pk_key x (built col_map src t) p \<notin> set (keys_of x p (rows t))"
  shows "index_ok x t'"
proof -
  obtain row t1 where b: "build_row col_map src t = (row, t1)" by fastforce
  with build_row_table obtain a where t1: "t1 = t\<lparr> next_auto := a \<rparr>" by blast
  have "pk_col_idx (advance_auto row t1) = Some p \<and> index_ok x (advance_auto row t1)"
    "fresh_row x row (advance_auto row t1)"
    using assms b t1 by (simp_all add: fresh_row_def built_def)
  then have "index_ok x (push_row x row (advance_auto row t1))"
    using pk.inv_push by blast
  then show ?thesis using assms(3) b by (simp add: insert_one_def)
qed

section \<open>Auto-increment\<close>

text \<open>Every key is an integer below the counter.\<close>

definition auto_ok :: "table \<Rightarrow> bool" where
  "auto_ok t \<longleftrightarrow>
     (case pk_col_idx t of
        None \<Rightarrow> True
      | Some p \<Rightarrow> \<forall>r\<in>set (rows t). \<exists>n. vec_get r p = Some (VInt n) \<and> sint n < sint (next_auto t))"

lemma sint_succ: "sint a < 2 ^ 63 - 1 \<Longrightarrow> sint (a + 1 :: i64) = sint a + 1"
  using sint_greater_eq [of a] by (simp add: sint_word_ariths signed_take_bit_int_eq_self)

lemma remap_row_no_key:
  assumes "remap_row cs ms src a = (r, a')" "\<forall>c\<in>set cs. \<not> primary_key c"
  shows "a' = a"
  using assms
  by (induction cs ms src a arbitrary: r a' rule: remap_row.induct)
    (auto split: option.splits prod.splits)

lemma remap_row_auto:
  assumes "remap_row cs ms src a = (r, a')" "p < length cs" "length ms = length cs"
    and "ms ! p = None" "\<forall>i < length cs. primary_key (cs ! i) \<longleftrightarrow> i = p"
  shows "vec_get r p = Some (VInt a) \<and> a' = a + 1"
  using assms
proof (induction cs ms src a arbitrary: p r a' rule: remap_row.induct)
  case (1 c cs m ms src auto)
  have rest: "\<forall>i < length cs. primary_key (cs ! i) \<longleftrightarrow> Suc i = p"
    using "1.prems"(5) by auto
  show ?case
  proof (cases p)
    case 0
    then have "\<forall>c\<in>set cs. \<not> primary_key c" using rest by (auto simp: in_set_conv_nth)
    moreover have "primary_key c" "m = None" using "1.prems"(4,5) 0 by auto
    ultimately show ?thesis
      using "1.prems"(1) 0 remap_row_no_key by (auto simp: vec_get_def split: prod.splits)
  next
    case (Suc q)
    then have c: "\<not> primary_key c" using "1.prems"(5) by auto
    have q: "q < length cs" "length ms = length cs" "ms ! q = None"
      "\<forall>i < length cs. primary_key (cs ! i) \<longleftrightarrow> i = q"
      using "1.prems"(2-4) rest Suc by auto
    obtain r1 a1 where r1: "remap_row cs ms src auto = (r1, a1)" by fastforce
    then have "vec_get r1 q = Some (VInt auto) \<and> a1 = auto + 1"
      using "1.IH"(2) [OF _ c r1 q] "1.IH"(3) [OF _ r1 q] by (cases m) simp_all
    then show ?thesis
      using "1.prems"(1) c r1 Suc by (auto simp: vec_get_def split: option.splits if_splits)
  qed
qed simp_all

text \<open>The column \<open>p\<close> is the key, the column list of the statement leaves it out.\<close>

definition auto_insert :: "nat \<Rightarrow> nat option list \<Rightarrow> table \<Rightarrow> bool" where
  "auto_insert p col_map t \<longleftrightarrow>
     pk_col_idx t = Some p \<and> p < length (columns t) \<and> length col_map = length (columns t) \<and>
     col_map ! p = None \<and> (\<forall>i < length (columns t). primary_key (columns t ! i) \<longleftrightarrow> i = p)"

lemma build_row_auto:
  assumes "auto_insert p col_map t"
  obtains row where "build_row col_map src t = (row, t\<lparr> next_auto := next_auto t + 1 \<rparr>)"
    "vec_get row p = Some (VInt (next_auto t))"
proof -
  obtain row a where r: "remap_row (columns t) col_map src (next_auto t) = (row, a)" by fastforce
  then have "vec_get row p = Some (VInt (next_auto t)) \<and> a = next_auto t + 1"
    using assms by (intro remap_row_auto) (auto simp: auto_insert_def)
  moreover have "col_map \<noteq> []" using assms by (auto simp: auto_insert_def)
  ultimately show thesis using that [of row] r by (simp add: build_row_def)
qed

lemma auto_ok_fresh:
  assumes "auto_ok t" "pk_col_idx t = Some p" "vec_get row p = Some (VInt n)" "sint (next_auto t) \<le> sint n"
  shows "row_pk_key x row p \<notin> set (keys_of x p (rows t))"
proof
  assume "row_pk_key x row p \<in> set (keys_of x p (rows t))"
  then obtain r where r: "r \<in> set (rows t)" "row_pk_key x r p = row_pk_key x row p"
    by (auto simp: keys_of_def)
  then obtain m where "vec_get r p = Some (VInt m)" "sint m < sint (next_auto t)"
    using assms(1,2) by (auto simp: auto_ok_def)
  then show False using r(2) assms(3,4) by (simp add: row_pk_key_def show_i64_inject)
qed

lemma insert_one_auto:
  assumes "auto_ok t" "auto_insert p col_map t" "sint (next_auto t) < 2 ^ 63 - 1" "index_ok x t"
  obtains row t' where "insert_one x False col_map src t = Some t'"
    "rows t' = rows t @ [row]" "vec_get row p = Some (VInt (next_auto t))"
    "row_pk_key x row p \<notin> set (keys_of x p (rows t))"
    "next_auto t' = next_auto t + 1" "auto_ok t'" "index_ok x t'"
proof -
  have p: "pk_col_idx t = Some p" using assms(2) by (simp add: auto_insert_def)
  obtain row where b: "build_row col_map src t = (row, t\<lparr> next_auto := next_auto t + 1 \<rparr>)"
    and row: "vec_get row p = Some (VInt (next_auto t))"
    by (rule build_row_auto [OF assms(2)])
  let ?t1 = "t\<lparr> next_auto := next_auto t + 1 \<rparr>"
  have "advance_auto row ?t1 = ?t1"
    using row p sint_succ [OF assms(3)] by (simp add: advance_auto_def)
  then have i: "insert_one x False col_map src t = Some (push_row x row ?t1)"
    using b by (simp add: insert_one_def)
  have fresh: "row_pk_key x row p \<notin> set (keys_of x p (rows t))"
    using auto_ok_fresh [OF assms(1) p row] by simp
  have na: "next_auto (push_row x row ?t1) = next_auto t + 1"
    by (simp add: part_defs Let_def split: option.split)
  have "auto_ok (push_row x row ?t1)"
    using assms(1) p row na sint_succ [OF assms(3)] by (fastforce simp: auto_ok_def)
  moreover have "index_ok x (push_row x row ?t1)"
    using pk.inv_push [of ?t1 p x row] assms(4) p fresh by (simp add: fresh_row_def)
  ultimately show thesis using that i row fresh na by simp
qed

section \<open>DELETE\<close>

lemma delete_table_store:
  "store_ok t \<Longrightarrow> delete_table x sel t = Some (t', n) \<Longrightarrow> store_ok t'"
  by (auto simp: delete_table_def bind_eq_Some_conv retain_store_ok delete_store_ok
      split: option.splits)

lemma filter_panic_filter:
  "filter_panic P rs = Some rs' \<Longrightarrow> rs' = filter (\<lambda>r. P r = Some True) rs"
  by (induction rs arbitrary: rs') (auto simp: bind_eq_Some_conv)

lemma filter_panic_None: "filter_panic P rs = None \<longleftrightarrow> (\<exists>r\<in>set rs. P r = None)"
  by (induction rs) (auto simp: bind_eq_None_conv)

lemma delete_table_index:
  assumes "index_ok x t" "delete_table x sel t = Some (t', n)"
  shows "index_ok x t'"
proof (cases "pk_col_idx t")
  case None
  then show ?thesis using assms
    by (auto simp: delete_table_def pk_eq_key_def index_ok_def retain_rows_def rebuild_stores_def
        rebuild_index_def bind_eq_Some_conv)
next
  case (Some p)
  then show ?thesis using assms pk.inv_delete [of t p x] pk.inv_retain [of t p x]
    by (auto simp: delete_table_def bind_eq_Some_conv dest!: filter_panic_filter
        split: option.splits)
qed

text \<open>The deletion by scan rebuilds the stores: it repairs them whatever they held before.\<close>

lemma delete_scan:
  assumes "pk_eq_key t sel = Some None"
    and "\<And>r. r \<in> set (rows t) \<Longrightarrow> keep_row (\<lambda>r. eval_cond x r (columns t)) sel r = Some (keep r)"
  shows "delete_table x sel t =
         Some (retain_rows x (filter keep (rows t)) t, length (rows t) - length (filter keep (rows t)))"
  using assms by (simp add: delete_table_def filter_panic_total)

section \<open>The primary-key fast paths\<close>

text \<open>The predicates \<open>c = k\<close> and \<open>k = c\<close> with an integer literal.\<close>

definition pk_query :: "string \<Rightarrow> i64 \<Rightarrow> 'q expr \<Rightarrow> bool" where
  "pk_query c k w \<longleftrightarrow>
     w = EBinaryOp (EIdentifier c) OpEq (EValue (SNumber (show_i64 k))) \<or>
     w = EBinaryOp (EValue (SNumber (show_i64 k))) OpEq (EIdentifier c)"

text \<open>\<open>c\<close> names the key column \<open>p\<close>, whose cells are integers.\<close>

definition int_keyed :: "string \<Rightarrow> nat \<Rightarrow> table \<Rightarrow> bool" where
  "int_keyed c p t \<longleftrightarrow>
     pk_col_idx t = Some p \<and> col_position (columns t) c = Some p \<and>
     (\<forall>r\<in>set (rows t). \<exists>n. vec_get r p = Some (VInt n))"

lemma pk_query_key:
  assumes "pk_query c k w" "int_keyed c p t"
  shows "pk_eq_key t (Some w) = Some (Some (show_i64 k))"
proof -
  have "p < length (columns t)" "eq_ignore_case c (col_name (columns t ! p))"
    using assms(2) by (auto simp: int_keyed_def col_position_def position_Some intro: eq_ignore_case_sym)
  then show ?thesis
    using assms by (auto simp: pk_eq_key_def pk_query_def int_keyed_def extract_pk_eq_def
        pk_operand_def is_column_expr_def column_name_def literal_key_def vec_get_def)
qed

lemma pk_query_where:
  assumes "pk_query c k w" "int_keyed c p t" "r \<in> set (rows t)"
  shows "eval_cond x r (columns t) w = Some (row_pk_key x r p = show_i64 k)"
proof -
  obtain n where n: "vec_get r p = Some (VInt n)" using assms(2,3) by (auto simp: int_keyed_def)
  then have "eval_row_expr x r (columns t) (EIdentifier c) = Some (VInt n)"
    using assms(2) by (simp add: int_keyed_def lookup_ident_def cell_or_null_def)
  then show ?thesis
    using assms(1) n
    by (auto simp: pk_query_def eval_cond_compare compare_op_def row_pk_key_def
        sint_inject)
qed

lemma delete_fast_path:
  assumes "pk_query c k w" "int_keyed c p t" "index_ok x t"
  shows "\<exists>t'. delete_table x (Some w) t = Some (t', length (rows t) - length (rows t')) \<and>
    mset (rows t') = mset (filter (\<lambda>r. eval_cond x r (columns t) w \<noteq> Some True) (rows t))"
proof -
  have p: "pk_col_idx t = Some p" using assms(2) by (simp add: int_keyed_def)
  have "delete_table x (Some w) t =
      Some (delete_key x (show_i64 k) t, length (rows t) - length (rows (delete_key x (show_i64 k) t)))"
    using pk_query_key [OF assms(1,2)] by (simp add: delete_table_def)
  moreover have "mset (rows (delete_key x (show_i64 k) t)) =
      mset (filter (\<lambda>r. row_pk_key x r p \<noteq> show_i64 k) (rows t))"
    using assms(3) p by (intro pk.rows_delete) simp
  moreover have "filter (\<lambda>r. row_pk_key x r p \<noteq> show_i64 k) (rows t) =
      filter (\<lambda>r. eval_cond x r (columns t) w \<noteq> Some True) (rows t)"
    using pk_query_where [OF assms(1,2)] by (intro filter_cong) simp_all
  ultimately show ?thesis by metis
qed

section \<open>UPDATE\<close>

lemma update_scan_none:
  "(\<And>r. r \<in> set rs \<Longrightarrow> cond r = Some False) \<Longrightarrow> update_scan x cols cond asgns rs = Some (rs, 0)"
  by (induction rs) simp_all

lemma update_scan_one:
  assumes "ri < length rs" "\<And>i. i < length rs \<Longrightarrow> cond (rs ! i) = Some (i = ri)"
  shows "update_scan x cols cond asgns rs =
         map_option (\<lambda>r. (rs[ri := r], 1)) (assign_row x cols asgns (rs ! ri))"
  using assms
proof (induction rs arbitrary: ri)
  case (Cons r rs)
  have head: "cond r = Some (ri = 0)" using Cons.prems(2) [of 0] by simp
  have tail: "cond (rs ! i) = Some (Suc i = ri)" if "i < length rs" for i
    using Cons.prems(2) [of "Suc i"] that by simp
  show ?case
  proof (cases ri)
    case 0
    then have "update_scan x cols cond asgns rs = Some (rs, 0)"
      using tail by (intro update_scan_none) (auto simp: in_set_conv_nth)
    then show ?thesis using head 0 by (cases "assign_row x cols asgns r") simp_all
  next
    case (Suc j)
    then have "update_scan x cols cond asgns rs =
        map_option (\<lambda>r. (rs[j := r], 1)) (assign_row x cols asgns (rs ! j))"
      using Cons.prems(1) tail by (intro Cons.IH) simp_all
    then show ?thesis using head Suc by (cases "assign_row x cols asgns (rs ! j)") simp_all
  qed
qed simp

lemma set_cell_simps:
  assumes "set_cell ri idx v t = Some t'"
  shows "rows t' = (rows t)[ri := (rows t ! ri)[idx := v]]" "columns t' = columns t"
    "pk_col_idx t' = pk_col_idx t" "pk_index t' = pk_index t" "idx < length (rows t ! ri)"
    "col_int_data t' = sync_int idx ri v (col_int_data t)"
    "col_str_data t' = sync_str idx ri v (col_str_data t)"
  using assms by (auto simp: set_cell_def split: if_splits)

lemma assign_at_rows:
  assumes "ri < length (rows t)"
  shows "map_option rows (assign_at x ri asgns t) =
         map_option (\<lambda>r. (rows t)[ri := r]) (assign_row x (columns t) asgns (rows t ! ri))"
  using assms
proof (induction asgns arbitrary: t)
  case (Cons a as)
  obtain n e where a: "a = (n, e)" by (cases a)
  show ?case
  proof (cases "col_position (columns t) n")
    case None
    then show ?thesis using Cons by (simp add: a)
  next
    case (Some idx)
    show ?thesis
    proof (cases "eval_row_expr x (rows t ! ri) (columns t) e")
      case v: (Some v)
      show ?thesis
      proof (cases "set_cell ri idx v t")
        case None
        then show ?thesis using Some v a by (auto simp: set_cell_def split: if_splits)
      next
        case t': (Some t')
        note s = set_cell_simps [OF t']
        have "map_option rows (assign_at x ri as t') =
            map_option (\<lambda>r. (rows t')[ri := r]) (assign_row x (columns t') as (rows t' ! ri))"
          using Cons.prems s(1) by (intro Cons.IH) simp
        then show ?thesis using Some v t' a s Cons.prems by simp
      qed
    qed (use Some a in simp)
  qed
qed simp

lemma update_fast_path:
  assumes "pk_query c k w" "int_keyed c p t" "index_ok x t"
  shows "map_option (\<lambda>(t', n). (rows t', n)) (update_table x asgns (Some w) t) =
         update_scan x (columns t) (\<lambda>r. eval_cond x r (columns t) w) asgns (rows t)"
proof -
  have t: "pk_col_idx t = Some p \<and> index_ok x t" using assms(2,3) by (simp add: int_keyed_def)
  note key = pk_query_key [OF assms(1,2)] and cond = pk_query_where [OF assms(1,2)]
  show ?thesis
  proof (cases "pk_index t (show_i64 k)")
    case None
    then have "update_scan x (columns t) (\<lambda>r. eval_cond x r (columns t) w) asgns (rows t) =
        Some (rows t, 0)"
      using pk.lookup_None [OF t, of "show_i64 k"] cond by (intro update_scan_none) force
    then show ?thesis using key None by (simp add: update_table_def)
  next
    case (Some ri)
    then have ri: "ri < length (rows t)" "row_pk_key x (rows t ! ri) p = show_i64 k"
      using pk.lookup_Some [OF t] by auto
    have "eval_cond x (rows t ! i) (columns t) w = Some (i = ri)" if "i < length (rows t)" for i
      using that cond [of "rows t ! i" x] pk.lookup_Some [OF t, of "show_i64 k" i] Some by auto
    then have "update_scan x (columns t) (\<lambda>r. eval_cond x r (columns t) w) asgns (rows t) =
        map_option (\<lambda>r. ((rows t)[ri := r], 1)) (assign_row x (columns t) asgns (rows t ! ri))"
      using ri(1) by (intro update_scan_one)
    also have "\<dots> = map_option (\<lambda>rs. (rs, 1)) (map_option rows (assign_at x ri asgns t))"
      by (simp add: assign_at_rows [OF ri(1)] option.map_comp comp_def)
    finally show ?thesis
      using key Some ri(1) by (simp add: update_table_def option.map_comp comp_def)
  qed
qed

text \<open>The fast path keeps the stores when every assigned value has the kind of its column.\<close>

definition kind_ok :: "table \<Rightarrow> nat \<Rightarrow> Value \<Rightarrow> bool" where
  "kind_ok t idx v \<longleftrightarrow>
     ((\<exists>st. vec_get (col_int_data t) idx = Some (Some st)) \<longrightarrow> (\<exists>n. v = VInt n)) \<and>
     ((\<exists>st. vec_get (col_str_data t) idx = Some (Some st)) \<longrightarrow> (\<exists>s. v = VText s))"

lemma mirrors_sync:
  assumes "mirrors cell rs stores" "ri < length rs" "idx < length (rs ! ri)"
    and "\<And>ci. ci \<noteq> idx \<Longrightarrow> cell ((rs ! ri)[idx := v]) ci = cell (rs ! ri) ci"
  shows "mirrors cell (rs[ri := (rs ! ri)[idx := v]])
           (case vec_get stores idx of
              Some (Some st) \<Rightarrow> stores[idx := Some (st[ri := cell ((rs ! ri)[idx := v]) idx])]
            | _ \<Rightarrow> stores)"
proof -
  have upd: "map (\<lambda>r. cell r ci) (rs[ri := (rs ! ri)[idx := v]]) =
      (map (\<lambda>r. cell r ci) rs)[ri := cell ((rs ! ri)[idx := v]) ci]" for ci
    by (rule map_update)
  have same: "(map (\<lambda>r. cell r ci) rs)[ri := cell ((rs ! ri)[idx := v]) ci] =
      map (\<lambda>r. cell r ci) rs" if "ci \<noteq> idx" for ci
    using assms(2,4) that by (simp add: list_update_same_conv)
  have keep: "mirrors cell (rs[ri := (rs ! ri)[idx := v]]) stores"
    if "\<not> (\<exists>st. vec_get stores idx = Some (Some st))"
    unfolding mirrors_def
  proof (intro allI impI)
    fix ci st assume "ci < length stores" "stores ! ci = Some st"
    moreover from this that have "ci \<noteq> idx" by (auto simp: vec_get_def)
    ultimately show "st = map (\<lambda>r. cell r ci) (rs[ri := (rs ! ri)[idx := v]])"
      using assms(1) upd [of ci] same [of ci] by (simp add: mirrors_def)
  qed
  show ?thesis
  proof (cases "\<exists>st. vec_get stores idx = Some (Some st)")
    case True
    then obtain st where st: "idx < length stores" "stores ! idx = Some st"
      by (auto simp: vec_get_Some)
    then show ?thesis
      using assms(1) upd same by (auto simp: mirrors_def nth_list_update vec_get_def)
  next
    case False
    then have "(case vec_get stores idx of
        Some (Some st) \<Rightarrow> stores[idx := Some (st[ri := cell ((rs ! ri)[idx := v]) idx])]
      | _ \<Rightarrow> stores) = stores"
      by (auto split: option.split)
    then show ?thesis using keep False by simp
  qed
qed

lemma int_cell_other: "ci \<noteq> idx \<Longrightarrow> int_cell (r[idx := v]) ci = int_cell r ci"
  by (simp add: int_cell_def vec_get_def)

lemma str_cell_other: "ci \<noteq> idx \<Longrightarrow> str_cell (r[idx := v]) ci = str_cell r ci"
  by (simp add: str_cell_def vec_get_def)

lemma set_cell_store:
  assumes "store_ok t" "ri < length (rows t)" "kind_ok t idx v" "set_cell ri idx v t = Some t'"
  shows "store_ok t'"
proof -
  have idx: "idx < length (rows t ! ri)" using set_cell_simps(5) [OF assms(4)] .
  have len: "ri < length st"
    if "mirrors cell (rows t) stores" "vec_get stores idx = Some (Some st)" for cell stores and st :: "'c list"
    using that assms(2) by (auto simp: mirrors_def vec_get_Some)
  have "sync_int idx ri v (col_int_data t) =
      (case vec_get (col_int_data t) idx of
         Some (Some st) \<Rightarrow> (col_int_data t)[idx := Some (st[ri := int_cell ((rows t ! ri)[idx := v]) idx])]
       | _ \<Rightarrow> col_int_data t)"
    using assms(1,3) len [of int_cell "col_int_data t"] idx
    by (auto simp: sync_int_def kind_ok_def store_ok_def int_cell_def vec_get_def split: option.splits)
  moreover have "sync_str idx ri v (col_str_data t) =
      (case vec_get (col_str_data t) idx of
         Some (Some st) \<Rightarrow> (col_str_data t)[idx := Some (st[ri := str_cell ((rows t ! ri)[idx := v]) idx])]
       | _ \<Rightarrow> col_str_data t)"
    using assms(1,3) len [of str_cell "col_str_data t"] idx
    by (auto simp: sync_str_def kind_ok_def store_ok_def str_cell_def vec_get_def split: option.splits)
  ultimately show ?thesis
    using assms(1,4)
      mirrors_sync [where cell = int_cell, OF _ assms(2) idx int_cell_other]
      mirrors_sync [where cell = str_cell, OF _ assms(2) idx str_cell_other]
    by (auto simp: set_cell_def store_ok_def split: if_splits)
qed

lemma kind_ok_set_cell:
  assumes "set_cell ri idx v t = Some t'"
  shows "kind_ok t' = kind_ok t"
proof -
  have "(\<exists>st. vec_get (sync_int idx ri v (col_int_data t)) i = Some (Some st)) \<longleftrightarrow>
        (\<exists>st. vec_get (col_int_data t) i = Some (Some st))" for i
    by (auto simp: sync_int_def vec_get_def nth_list_update split: option.splits Value.splits)
  moreover have "(\<exists>st. vec_get (sync_str idx ri v (col_str_data t)) i = Some (Some st)) \<longleftrightarrow>
        (\<exists>st. vec_get (col_str_data t) i = Some (Some st))" for i
    by (auto simp: sync_str_def vec_get_def nth_list_update split: option.splits Value.splits)
  ultimately show ?thesis
    by (intro ext) (simp only: kind_ok_def set_cell_simps(6,7) [OF assms])
qed

definition kinds_ok :: "'q crates \<Rightarrow> table \<Rightarrow> 'q assignments \<Rightarrow> bool" where
  "kinds_ok x t asgns \<longleftrightarrow>
     (\<forall>(n, e)\<in>set asgns. \<forall>row idx v.
        col_position (columns t) n = Some idx \<longrightarrow> eval_row_expr x row (columns t) e = Some v \<longrightarrow>
        kind_ok t idx v)"

lemma assign_at_store:
  assumes "store_ok t" "ri < length (rows t)" "kinds_ok x t asgns" "assign_at x ri asgns t = Some t'"
  shows "store_ok t'"
  using assms
proof (induction asgns arbitrary: t)
  case (Cons a as)
  obtain n e where a: "a = (n, e)" by (cases a)
  have as: "kinds_ok x t as" using Cons.prems(3) by (simp add: kinds_ok_def)
  show ?case
  proof (cases "col_position (columns t) n")
    case None
    then show ?thesis using Cons as by (simp add: a)
  next
    case (Some idx)
    then obtain v t1 where v: "eval_row_expr x (rows t ! ri) (columns t) e = Some v"
      and t1: "set_cell ri idx v t = Some t1" "assign_at x ri as t1 = Some t'"
      using Cons.prems(4) by (auto simp: a bind_eq_Some_conv)
    have kinds: "\<forall>row idx v. col_position (columns t) n = Some idx \<longrightarrow>
        eval_row_expr x row (columns t) e = Some v \<longrightarrow> kind_ok t idx v"
      using Cons.prems(3) by (simp add: kinds_ok_def a)
    have "kind_ok t idx v" by (rule kinds [rule_format, OF Some v])
    then have "store_ok t1" by (rule set_cell_store [OF Cons.prems(1,2) _ t1(1)])
    moreover have "kinds_ok x t1 as"
      using as set_cell_simps(2) [OF t1(1)] kind_ok_set_cell [OF t1(1)] by (simp add: kinds_ok_def)
    moreover have "ri < length (rows t1)" using Cons.prems(2) set_cell_simps(1) [OF t1(1)] by simp
    ultimately show ?thesis using Cons.IH t1(2) by blast
  qed
qed simp

lemma update_fast_store:
  assumes "store_ok t" "pk_eq_key t sel = Some (Some k)" "kinds_ok x t asgns"
    and "update_table x asgns sel t = Some (t', n)"
  shows "store_ok t'"
proof (cases "pk_index t k")
  case None
  then have "update_table x asgns sel t = Some (t, 0)" using assms(2) by (simp add: update_table_def)
  then show ?thesis using assms(1,4) by auto
next
  case (Some ri)
  show ?thesis
  proof (cases "ri < length (rows t)")
    case True
    then have "assign_at x ri asgns t = Some t'" using assms(2,4) Some by (auto simp: update_table_def)
    then show ?thesis using assign_at_store [OF assms(1) True assms(3)] by blast
  next
    case False
    then have "update_table x asgns sel t = Some (t, 0)" using assms(2) Some by (simp add: update_table_def)
    then show ?thesis using assms(1,4) by auto
  qed
qed

section \<open>ALTER TABLE\<close>

definition table_ok :: "'q crates \<Rightarrow> table \<Rightarrow> bool" where
  "table_ok x t \<longleftrightarrow>
     store_ok t \<and> index_ok x t \<and> pk_col_idx t = position primary_key (columns t) \<and>
     length (col_int_data t) = length (columns t) \<and> length (col_str_data t) = length (columns t) \<and>
     (\<forall>r\<in>set (rows t). length r = length (columns t))"

lemma position_append_neg: "\<not> P y \<Longrightarrow> position P (xs @ [y]) = position P xs"
  by (induction xs) simp_all

lemma position_remove_at:
  assumes "i < length xs" "\<not> P (xs ! i)"
  shows "position P (remove_at i xs) = map_option (\<lambda>p. if i < p then p - 1 else p) (position P xs)"
  using assms
proof (induction xs arbitrary: i)
  case (Cons x xs)
  show ?case
  proof (cases i)
    case 0
    then show ?thesis using Cons.prems by (cases "position P xs") (simp_all add: remove_at_def)
  next
    case (Suc j)
    then have "remove_at i (x # xs) = x # remove_at j xs" by (simp add: remove_at_def)
    then show ?thesis
      using Cons Suc by (cases "position P xs") auto
  qed
qed simp

lemma length_put_store:
  "length stores = i \<Longrightarrow> length (put_store i st stores) = Suc i"
  by (simp add: put_store_def Let_def split: option.split)

lemma put_store_end: "length stores = i \<Longrightarrow> put_store i st stores = stores @ [st]"
  by (auto simp: put_store_def Let_def list_update_append split: option.split)

lemma cell_append:
  "ci < length r \<Longrightarrow> int_cell (r @ [v]) ci = int_cell r ci"
  "ci < length r \<Longrightarrow> str_cell (r @ [v]) ci = str_cell r ci"
  "int_cell (r @ [Null]) (length r) = 0"
  "str_cell (r @ [Null]) (length r) = []"
  "p < length r \<Longrightarrow> row_pk_key x (r @ [v]) p = row_pk_key x r p"
  by (simp_all add: int_cell_def str_cell_def row_pk_key_def vec_get_def nth_append)

lemma mirrors_add:
  assumes "mirrors cell rs stores" "\<forall>r\<in>set rs. length r = length stores"
    and "\<And>r ci. ci < length r \<Longrightarrow> cell (r @ [Null]) ci = cell r ci"
    and "\<And>r. cell (r @ [Null]) (length r) = d"
  shows "mirrors cell (map (\<lambda>r. r @ [Null]) rs)
           (stores @ [if b then Some (replicate (length rs) d) else None])"
proof -
  have "map (\<lambda>r. cell r ci) (map (\<lambda>r. r @ [Null]) rs) = map (\<lambda>r. cell r ci) rs"
    if "ci < length stores" for ci
    using that assms(2,3) by simp
  moreover have "cell (r @ [Null]) (length stores) = d" if "r \<in> set rs" for r
    using assms(4) [of r] assms(2) that by simp
  then have "map (\<lambda>r. cell r (length stores)) (map (\<lambda>r. r @ [Null]) rs) = replicate (length rs) d"
    by (intro replicate_eqI) auto
  ultimately have cells: "map (\<lambda>r. cell r ci) (map (\<lambda>r. r @ [Null]) rs) =
      (if ci < length stores then map (\<lambda>r. cell r ci) rs else replicate (length rs) d)"
    if "ci \<le> length stores" for ci
    using that by (cases "ci = length stores") simp_all
  show ?thesis
    unfolding mirrors_def
  proof (intro allI impI)
    fix ci v
    assume ci: "ci < length (stores @ [if b then Some (replicate (length rs) d) else None])"
      and v: "(stores @ [if b then Some (replicate (length rs) d) else None]) ! ci = Some v"
    have "v = (if ci < length stores then map (\<lambda>r. cell r ci) rs else replicate (length rs) d)"
      using assms(1) v ci by (auto simp: mirrors_def nth_append split: if_splits)
    then show "v = map (\<lambda>r. cell r ci) (map (\<lambda>r. r @ [Null]) rs)"
      using cells [of ci] ci by simp
  qed
qed

lemma alter_simps [simp]:
  "rows (add_column n ct t) = map (\<lambda>r. r @ [Null]) (rows t)"
  "pk_col_idx (add_column n ct t) = pk_col_idx t"
  "pk_index (add_column n ct t) = pk_index t"
  "rows (drop_column i t) = map (remove_if_in i) (rows t)"
  "pk_col_idx (drop_column i t) = position primary_key (remove_at i (columns t))"
  "pk_index (drop_column i t) = pk_index t"
  by (simp_all add: add_column_def drop_column_def Let_def)

lemma add_column_ok:
  assumes "table_ok x t"
  shows "table_ok x (add_column n ct t)"
proof -
  have len: "\<forall>r\<in>set (rows t). length r = length (col_int_data t)"
    "\<forall>r\<in>set (rows t). length r = length (col_str_data t)"
    using assms by (simp_all add: table_ok_def)
  have "store_ok (add_column n ct t)"
    using assms mirrors_add [OF _ len(1), of int_cell 0 "is_int_type ct"]
      mirrors_add [OF _ len(2), of str_cell "[]" "is_str_type ct"]
    by (simp add: store_ok_def table_ok_def add_column_def Let_def put_store_end cell_append)
  moreover have "index_ok x (add_column n ct t)"
  proof (cases "pk_col_idx t")
    case (Some p)
    then have "position primary_key (columns t) = Some p" using assms by (simp add: table_ok_def)
    then have "p < length (columns t)" by (simp add: position_Some)
    then have "keys_of x p (map (\<lambda>r. r @ [Null]) (rows t)) = keys_of x p (rows t)"
      using assms by (simp add: keys_of_def table_ok_def cell_append)
    then show ?thesis using assms Some by (auto simp: index_ok_def table_ok_def split: option.splits)
  qed (simp add: index_ok_def)
  ultimately show ?thesis
    using assms
    by (auto simp: table_ok_def add_column_def Let_def length_put_store position_append_neg)
qed

lemma vec_get_remove_at:
  "i < length r \<Longrightarrow> vec_get (remove_at i r) j = vec_get r (if j < i then j else Suc j)"
  by (auto simp: vec_get_def nth_remove_at)

lemma mirrors_drop:
  assumes "mirrors cell rs stores" "i < length stores" "\<forall>r\<in>set rs. length r = length stores"
    and "\<And>r ci. i < length r \<Longrightarrow> cell (remove_at i r) ci = cell r (if ci < i then ci else Suc ci)"
  shows "mirrors cell (map (remove_if_in i) rs) (remove_if_in i stores)"
proof -
  have cells: "map (\<lambda>r. cell r ci) (map (remove_if_in i) rs) =
      map (\<lambda>r. cell r (if ci < i then ci else Suc ci)) rs" for ci
    using assms(2-4) by (simp add: remove_if_in_def)
  then show ?thesis
    using assms(1,2) by (auto simp: mirrors_def remove_if_in_def nth_remove_at simp del: list.map_comp map_map)
qed

lemma drop_column_ok:
  assumes "table_ok x t" "i < length (columns t)" "\<not> primary_key (columns t ! i)"
  shows "table_ok x (drop_column i t)"
proof -
  have len: "\<forall>r\<in>set (rows t). length r = length (col_int_data t)" "i < length (col_int_data t)"
    "\<forall>r\<in>set (rows t). length r = length (col_str_data t)" "i < length (col_str_data t)"
    using assms by (simp_all add: table_ok_def)
  have "store_ok (drop_column i t)"
    using assms(1) mirrors_drop [OF _ len(2,1), of int_cell] mirrors_drop [OF _ len(4,3), of str_cell]
    by (simp add: store_ok_def table_ok_def drop_column_def Let_def int_cell_def str_cell_def
        vec_get_remove_at)
  moreover have "index_ok x (drop_column i t)"
  proof (cases "pk_col_idx t")
    case None
    then show ?thesis
      using assms by (simp add: index_ok_def table_ok_def position_remove_at)
  next
    case (Some p)
    let ?p = "if i < p then p - 1 else p"
    have p: "position primary_key (columns t) = Some p" using assms(1) Some by (simp add: table_ok_def)
    then have ne: "p \<noteq> i" using assms(3) by (auto simp: position_Some)
    have "row_pk_key x (remove_if_in i r) ?p = row_pk_key x r p" if "r \<in> set (rows t)" for r
      using that len(1,2) ne by (auto simp: row_pk_key_def remove_if_in_def vec_get_remove_at)
    then have "keys_of x ?p (map (remove_if_in i) (rows t)) = keys_of x p (rows t)"
      by (simp add: keys_of_def)
    then show ?thesis
      using index_ok_SomeD(1) [of x t p] assms p Some
      by (auto simp: index_ok_def table_ok_def position_remove_at)
  qed
  ultimately show ?thesis
    using assms by (auto simp: table_ok_def drop_column_def Let_def remove_if_in_def)
qed

lemma rename_column_ok:
  assumes "table_ok x t" "i < length (columns t)"
  shows "table_ok x (t\<lparr> columns := (columns t)[i := (columns t ! i)\<lparr> col_name := new \<rparr>] \<rparr>)"
proof -
  have "position primary_key (cs[i := (cs ! i)\<lparr> col_name := new \<rparr>]) = position primary_key cs"
    if "i < length cs" for i and cs :: "column list"
    using that
  proof (induction cs arbitrary: i)
    case (Cons c cs)
    then show ?case by (cases i) simp_all
  qed simp
  then show ?thesis
    using assms by (auto simp: table_ok_def store_ok_def index_ok_def split: option.split)
qed

lemma alter_step_ok:
  assumes "table_ok x t" "alter_step oper t = Inr t'"
  shows "table_ok x t'"
  using assms
  by (auto simp: alter_step_def add_column_ok drop_column_ok rename_column_ok col_position_def
      position_Some split: alter_op.splits if_splits option.splits)

lemma alter_table_ok: "table_ok x t \<Longrightarrow> table_ok x (fst (alter_table opers t))"
  by (induction opers arbitrary: t) (auto split: sum.split intro: alter_step_ok)

section \<open>Prepared INSERT\<close>

text \<open>The values of a row stand at its placeholders, in order, and are those of its literals elsewhere.\<close>

definition fits :: "'q crates \<Rightarrow> 'q expr \<Rightarrow> Value \<Rightarrow> bool" where
  "fits x e v \<longleftrightarrow> is_placeholder x e \<or> v = expr_to_value x e"

definition bound_cells :: "'q crates \<Rightarrow> 'q expr list \<Rightarrow> Value list \<Rightarrow> Value list" where
  "bound_cells x es vs = map snd (filter (\<lambda>(e, v). is_placeholder x e) (zip es vs))"

lemma bind_row_fits:
  "list_all2 (fits x) es vs \<Longrightarrow> bound = pre @ bound_cells x es vs @ post \<Longrightarrow>
   bind_row x bound es (length pre) = (vs, length pre + length (bound_cells x es vs))"
proof (induction es vs arbitrary: pre rule: list_all2_induct)
  case (Cons e es v vs)
  show ?case
  proof (cases "is_placeholder x e")
    case True
    then have "bound = (pre @ [v]) @ bound_cells x es vs @ post" using Cons.prems by (simp add: bound_cells_def)
    from Cons.IH [OF this] show ?thesis using True Cons.prems
      by (simp add: bound_cells_def vec_get_def nth_append)
  next
    case False
    then have "bound = pre @ bound_cells x es vs @ post" using Cons.prems by (simp add: bound_cells_def)
    from Cons.IH [OF this] show ?thesis using False Cons.hyps by (simp add: bound_cells_def fits_def)
  qed
qed (simp add: bound_cells_def)

lemma push_row_auto: "push_row x row (t\<lparr> next_auto := a \<rparr>) = (push_row x row t)\<lparr> next_auto := a \<rparr>"
  by (simp add: push_row_def push_stores_def push_index_def Let_def split: option.split)

lemma insert_prepared_auto:
  "insert_prepared_rows x bound ess i (t\<lparr> next_auto := a \<rparr>) = (insert_prepared_rows x bound ess i t)\<lparr> next_auto := a \<rparr>"
  by (induction x bound ess i t rule: insert_prepared_rows.induct) (simp_all add: push_row_auto split: prod.split)

text \<open>A prepared INSERT does what the INSERT of the bound rows does, but the counter stays behind.\<close>

lemma insert_prepared_is_insert:
  assumes "list_all2 (list_all2 (fits x)) ess vss" "bound = pre @ concat (map2 (bound_cells x) ess vss)"
  shows "\<exists>t'. insert_all x False [] vss t = Some t' \<and>
    insert_prepared_rows x bound ess (length pre) t = t'\<lparr> next_auto := next_auto t \<rparr>"
  using assms
proof (induction ess vss arbitrary: pre t rule: list_all2_induct)
  case (Cons es ess vs vss)
  let ?pre = "pre @ bound_cells x es vs"
  obtain a where a: "advance_auto vs t = t\<lparr> next_auto := a \<rparr>" using advance_auto_table by blast
  have "bind_row x bound es (length pre) = (vs, length ?pre)"
    using bind_row_fits [OF Cons.hyps(1)] Cons.prems by simp
  moreover obtain t' where t': "insert_all x False [] vss (push_row x vs (advance_auto vs t)) = Some t'"
    "insert_prepared_rows x bound ess (length ?pre) (push_row x vs (advance_auto vs t)) =
       t'\<lparr> next_auto := next_auto (push_row x vs (advance_auto vs t)) \<rparr>"
    using Cons.IH [of ?pre "push_row x vs (advance_auto vs t)"] Cons.prems by auto
  moreover have "insert_prepared_rows x bound ess (length ?pre) (push_row x vs t) = t'\<lparr> next_auto := next_auto t \<rparr>"
  proof -
    have "push_row x vs (advance_auto vs t) = (push_row x vs t)\<lparr> next_auto := a \<rparr>" by (simp add: a push_row_auto)
    then have "(insert_prepared_rows x bound ess (length ?pre) (push_row x vs t))\<lparr> next_auto := a \<rparr> = t'\<lparr> next_auto := a \<rparr>"
      using t'(2) by (simp add: insert_prepared_auto push_row_auto)
    moreover have "next_auto (insert_prepared_rows x bound ess i t) = next_auto t" for i t
      by (induction x bound ess i t rule: insert_prepared_rows.induct)
        (simp_all add: push_row_def push_stores_def push_index_def Let_def split: prod.split option.split)
    moreover have "next_auto (push_row x vs t) = next_auto t"
      by (simp add: push_row_def push_stores_def push_index_def Let_def split: option.split)
    ultimately show ?thesis by (metis (no_types, lifting) table.surjective table.update_convs(9))
  qed
  ultimately show ?case by (simp add: insert_one_def build_row_def)
qed simp

end
