(* ===== verification/Scan_Laws.thy ===== *)
theory Scan_Laws
  imports Table_Ops
begin

text \<open>
  The SIMD path of a \<open>WHERE\<close> clause (\<open>try_simd_scan\<close> of src/engine.rs) against the predicate
  evaluator. The locale \<open>column_scan\<close> is the contract between a scan of a column store and the
  comparison it stands for; it is interpreted on the four scans. A store records NULL as 0 or
  the empty string, so the contract holds on the cells for which the code's encoding decides
  the comparison as the evaluator does.
\<close>

locale column_scan =
  fixes cell :: "row \<Rightarrow> nat \<Rightarrow> 'c" and scan :: "'c list \<Rightarrow> 'c \<Rightarrow> nat list"
    and test :: "'c \<Rightarrow> 'c \<Rightarrow> bool" and cond :: "'c \<Rightarrow> Value \<Rightarrow> bool" and agree :: "'c \<Rightarrow> Value \<Rightarrow> bool"
  assumes scan_test: "scan data t = indices_where (\<lambda>v. test v t) data"
    and cell_test: "agree t (cell_or_null r (Some ci)) \<Longrightarrow>
      test (cell r ci) t \<longleftrightarrow> cond t (cell_or_null r (Some ci))"
begin

lemma scan_rows:
  assumes "\<And>r. r \<in> set rs \<Longrightarrow> agree t (cell_or_null r (Some ci))"
  shows "scan (map (\<lambda>r. cell r ci) rs) t = indices_where (\<lambda>r. cond t (cell_or_null r (Some ci))) rs"
  using assms unfolding scan_test indices_where_def
  by (intro filter_cong) (auto simp: cell_test)

lemma scan_store:
  assumes "mirrors cell rs stores" "vec_get stores ci = Some (Some st)"
    and "\<And>r. r \<in> set rs \<Longrightarrow> agree t (cell_or_null r (Some ci))"
  shows "scan st t = indices_where (\<lambda>r. cond t (cell_or_null r (Some ci))) rs"
proof -
  have "st = map (\<lambda>r. cell r ci) rs" using assms(1,2) by (auto simp: mirrors_def vec_get_Some)
  then show ?thesis using scan_rows assms(3) by simp
qed

end

lemma cell_cases:
  "int_cell r ci = (case cell_or_null r (Some ci) of VInt n \<Rightarrow> n | _ \<Rightarrow> 0)"
  "str_cell r ci = (case cell_or_null r (Some ci) of VText s \<Rightarrow> s | _ \<Rightarrow> [])"
  by (simp_all add: int_cell_def str_cell_def cell_or_null_def split: option.split)

definition agree_eq :: "i64 \<Rightarrow> Value \<Rightarrow> bool" where
  "agree_eq t v \<longleftrightarrow> (\<exists>n. v = VInt n) \<or> v = Null \<and> t \<noteq> 0"

definition agree_gt :: "i64 \<Rightarrow> Value \<Rightarrow> bool" where
  "agree_gt t v \<longleftrightarrow> (\<exists>n. v = VInt n) \<or> v = Null \<and> 0 \<le> sint t"

definition agree_lt :: "i64 \<Rightarrow> Value \<Rightarrow> bool" where
  "agree_lt t v \<longleftrightarrow> (\<exists>n. v = VInt n) \<or> v = Null \<and> 0 < sint t"

definition agree_str :: "string \<Rightarrow> Value \<Rightarrow> bool" where
  "agree_str t v \<longleftrightarrow> (\<exists>s. v = VText s) \<or> v = Null \<and> t \<noteq> []"

interpretation eq_scan: column_scan int_cell "scan_eq_i64 avx2" "\<lambda>v t. v = t"
    "\<lambda>t v. values_eq x v (VInt t)" agree_eq for avx2 :: bool and x :: "'q crates"
  by unfold_locales (auto simp: agree_eq_def cell_cases sint_inject)

lemma cmp_int_Greater: "cmp_int a b = Greater \<longleftrightarrow> a > b"
  by (simp add: cmp_int_def)

lemma cmp_int_Less: "cmp_int a b = Less \<longleftrightarrow> a < b"
  by (simp add: cmp_int_def)

interpretation gt_scan: column_scan int_cell "scan_gt_i64 avx2" "\<lambda>v t. sint v > sint t"
    "\<lambda>t v. values_cmp x v (VInt t) = Greater" agree_gt for avx2 :: bool and x :: "'q crates"
  by unfold_locales (auto simp: agree_gt_def cell_cases cmp_int_Greater)

interpretation lt_scan: column_scan int_cell "scan_lt_i64 avx2" "\<lambda>v t. sint v < sint t"
    "\<lambda>t v. values_cmp x v (VInt t) = Less" agree_lt for avx2 :: bool and x :: "'q crates"
  by unfold_locales (auto simp: agree_lt_def cell_cases cmp_int_Less)

interpretation str_scan: column_scan str_cell "scan_eq_str avx2" "\<lambda>v t. v = t"
    "\<lambda>t v. values_eq x v (VText t)" agree_str for avx2 :: bool and x :: "'q crates"
  by unfold_locales (auto simp: agree_str_def cell_cases)

section \<open>The dispatched scan\<close>

text \<open>The column an operand reads: a plain name, or a qualified one that no column has.\<close>

definition plain_column :: "column list \<Rightarrow> 'q expr \<Rightarrow> bool" where
  "plain_column cols e \<longleftrightarrow>
     (case e of
        EIdentifier n \<Rightarrow> True
      | ECompoundIdentifier ps \<Rightarrow> col_position cols (join ''.'' ps) = None
      | _ \<Rightarrow> False)"

lemma plain_column_value:
  assumes "plain_column cols e" "column_name e = Some n" "col_position cols n = Some ci"
  shows "eval_row_expr x row cols e = Some (cell_or_null row (Some ci))"
  using assms
  by (auto simp: plain_column_def column_name_def lookup_ident_def lookup_compound_def
      split: expr.splits if_splits)

text \<open>Every cell of the column is one for which the store decides the comparison.\<close>

definition cells_agree :: "table \<Rightarrow> nat \<Rightarrow> (Value \<Rightarrow> bool) \<Rightarrow> bool" where
  "cells_agree t ci P \<longleftrightarrow> (\<forall>r\<in>set (rows t). P (cell_or_null r (Some ci)))"

definition scan_safe :: "table \<Rightarrow> 'q expr \<Rightarrow> bool" where
  "scan_safe t e \<longleftrightarrow>
     (case e of
        EBinaryOp l op r \<Rightarrow>
          plain_column (columns t) l \<and>
          (\<forall>n ci. column_name l = Some n \<longrightarrow> col_position (columns t) n = Some ci \<longrightarrow>
             (\<forall>k. number_literal r = Some k \<longrightarrow>
                (op = OpEq \<longrightarrow> cells_agree t ci (agree_eq k)) \<and>
                (op = OpGt \<longrightarrow> cells_agree t ci (agree_gt k)) \<and>
                (op = OpLt \<longrightarrow> cells_agree t ci (agree_lt k))) \<and>
             (\<forall>s. quoted_literal r = Some s \<longrightarrow> cells_agree t ci (agree_str s)))
      | _ \<Rightarrow> False)"

lemma number_literal_value:
  "number_literal r = Some k \<Longrightarrow> eval_row_expr x row cols r = Some (VInt k)"
  by (cases r rule: number_literal.cases) (simp_all add: number_to_value_def)

lemma quoted_literal_value:
  "quoted_literal r = Some s \<Longrightarrow> eval_row_expr x row cols r = Some (VText s)"
  by (cases r rule: quoted_literal.cases) simp_all

text \<open>What the SIMD path returns for a column with an integer store, and for one with a text store.\<close>

lemma int_scan_where:
  assumes ints: "mirrors int_cell (rows t) (col_int_data t)" and st: "vec_get (col_int_data t) ci = Some (Some st)"
    and w: "\<And>row. op \<in> {OpEq, OpGt, OpLt} \<Longrightarrow>
      eval_cond x row (columns t) e = Some (compare_op x op (cell_or_null row (Some ci)) (VInt k))"
    and safe: "op = OpEq \<Longrightarrow> cells_agree t ci (agree_eq k)" "op = OpGt \<Longrightarrow> cells_agree t ci (agree_gt k)"
      "op = OpLt \<Longrightarrow> cells_agree t ci (agree_lt k)"
    and is_eq: "(if op = OpEq then Some (scan_eq_i64 avx2 st k)
         else if op = OpGt then Some (scan_gt_i64 avx2 st k)
         else if op = OpLt then Some (scan_lt_i64 avx2 st k) else None) = Some is"
  shows "is = indices_where (\<lambda>r. eval_cond x r (columns t) e = Some True) (rows t)"
proof -
  consider "op = OpEq" | "op = OpGt" | "op = OpLt" using is_eq by (auto split: if_splits)
  then show ?thesis
  proof cases
    case 1
    then show ?thesis
      using eq_scan.scan_store [OF ints st, of k avx2 x] safe(1) is_eq w
      by (simp add: cells_agree_def compare_op_def)
  next
    case 2
    then show ?thesis
      using gt_scan.scan_store [OF ints st, of k avx2 x] safe(2) is_eq w
      by (simp add: cells_agree_def compare_op_def)
  next
    case 3
    then show ?thesis
      using lt_scan.scan_store [OF ints st, of k avx2 x] safe(3) is_eq w
      by (simp add: cells_agree_def compare_op_def)
  qed
qed

lemma str_scan_where:
  assumes "mirrors str_cell (rows t) (col_str_data t)" "vec_get (col_str_data t) ci = Some (Some st)"
    and "\<And>row. eval_cond x row (columns t) e = Some (values_eq x (cell_or_null row (Some ci)) (VText s))"
    and "cells_agree t ci (agree_str s)"
  shows "scan_eq_str avx2 st s = indices_where (\<lambda>r. eval_cond x r (columns t) e = Some True) (rows t)"
  using str_scan.scan_store [OF assms(1,2), of s avx2 x] assms(3,4) by (simp add: cells_agree_def)

lemma try_simd_scan_where:
  assumes "store_ok t" "scan_safe t e" "try_simd_scan avx2 t e = Some is"
  shows "is = indices_where (\<lambda>r. eval_cond x r (columns t) e = Some True) (rows t)"
proof -
  obtain l op r where e: "e = EBinaryOp l op r"
    using assms(3) by (cases e) (simp_all add: try_simd_scan_def)
  obtain n ci where n: "column_name l = Some n" "col_position (columns t) n = Some ci"
    using assms(3) by (auto simp: e try_simd_scan_def bind_eq_Some_conv)
  have "plain_column (columns t) l" using assms(2) by (simp add: scan_safe_def e)
  then have l: "eval_row_expr x row (columns t) l = Some (cell_or_null row (Some ci))" for row
    using n by (rule plain_column_value)
  have ints: "mirrors int_cell (rows t) (col_int_data t)"
    and strs: "mirrors str_cell (rows t) (col_str_data t)"
    using assms(1) by (simp_all add: store_ok_def)
  show ?thesis
  proof (cases "\<exists>st. vec_get (col_int_data t) ci = Some (Some st)")
    case True
    then obtain st where st: "vec_get (col_int_data t) ci = Some (Some st)" by blast
    then obtain k where k: "number_literal r = Some k"
      and is_eq: "(if op = OpEq then Some (scan_eq_i64 avx2 st k)
         else if op = OpGt then Some (scan_gt_i64 avx2 st k)
         else if op = OpLt then Some (scan_lt_i64 avx2 st k) else None) = Some is"
      using assms(3) n by (auto simp: e try_simd_scan_def bind_eq_Some_conv simp del: scan_i64)
    show ?thesis
      using assms(2) n k l number_literal_value [OF k]
      by (intro int_scan_where [OF ints st _ _ _ _ is_eq]) (auto simp: scan_safe_def e eval_cond_compare)
  next
    case False
    then have "(if op = OpEq then
        (case vec_get (col_str_data t) ci of
           Some (Some st) \<Rightarrow> map_option (scan_eq_str avx2 st) (quoted_literal r) | _ \<Rightarrow> None)
        else None) = Some is"
      using assms(3) n by (auto simp: e try_simd_scan_def split: option.splits if_splits simp del: scan_eq_str)
    then obtain st s where op: "op = OpEq" and st: "vec_get (col_str_data t) ci = Some (Some st)"
      and s: "quoted_literal r = Some s" and is_eq: "is = scan_eq_str avx2 st s"
      by (auto split: if_splits option.splits simp del: scan_eq_str)
    have "cells_agree t ci (agree_str s)" using assms(2) n s by (auto simp: scan_safe_def e)
    then show ?thesis
      unfolding is_eq using op l quoted_literal_value [OF s]
      by (intro str_scan_where [OF strs st]) (simp_all add: e eval_cond_compare compare_op_def)
  qed
qed

end
