(* ===== verification/Engine.thy ===== *)
theory Engine
  imports Table_Laws Scan_Laws
begin

text \<open>
  The state of \<open>Engine\<close> in src/engine.rs (databases, accounts, the write generation and the last
  insert id), the statements that locate a table and act on it, the DDL on tables and databases,
  and the snapshots of transactions. A statement is a function from the state to the state and
  its \<open>QueryResult\<close>; \<open>None\<close> is a panic. The locks serialise the statements, so each one is a
  single step on the state.
\<close>

section \<open>State\<close>

record database =
  db_name :: string
  tables :: "string \<rightharpoonup> table"

record db_user =
  password_sha1_sha1 :: "u8 list"
  allowed_dbs :: "string set option"
  can_write :: bool
  is_root :: bool

record engine =
  databases :: "string \<rightharpoonup> database"
  users :: "string \<rightharpoonup> db_user"
  write_gen :: u64
  last_insert_id :: u64

datatype query_result =
    QOk u64 u64
  | QErr u16 string
  | QRows "string list" "string option list list"
  | QValueRows "string list" "row list"

definition q_ok :: "nat \<Rightarrow> u64 \<Rightarrow> query_result" where
  "q_ok affected last_id = QOk (word_of_nat affected) last_id"

definition bump_write_gen :: "engine \<Rightarrow> engine" where
  "bump_write_gen e = e\<lparr> write_gen := write_gen e + 1 \<rparr>"

definition new_database :: "string \<Rightarrow> database" where
  "new_database n = \<lparr> db_name = n, tables = Map.empty \<rparr>"

definition builtin_schemas :: "string list" where
  "builtin_schemas =
     [''information_schema'', ''performance_schema'', ''mysql'', ''sys'', ''test'']"

text \<open>\<open>Engine::new\<close>, before the persisted file is loaded.\<close>

definition new_engine :: "(u8 list \<Rightarrow> u8 list) \<Rightarrow> string \<Rightarrow> engine" where
  "new_engine sha1 root_password =
     \<lparr> databases = (\<lambda>n. if n \<in> set builtin_schemas then Some (new_database n) else None),
       users = [''root'' \<mapsto> \<lparr> password_sha1_sha1 = sha1 (sha1 (as_bytes root_password)),
                               allowed_dbs = None, can_write = True, is_root = True \<rparr>],
       write_gen = 0, last_insert_id = 0 \<rparr>"

section \<open>Locating a table\<close>

definition backtick :: "char" where
  "backtick = CHR 0x60"

definition quoted :: "string \<Rightarrow> string" where
  "quoted s = [CHR 0x27] @ s @ [CHR 0x27]"

text \<open>A table name \<open>db.table\<close> or \<open>table\<close>; \<open>bare\<close> is what the statement does to a bare name.\<close>

definition qualified_name :: "(string \<Rightarrow> string) \<Rightarrow> string \<Rightarrow> string \<Rightarrow> string \<times> string" where
  "qualified_name bare db n =
     (case find_char (\<lambda>c. c = CHR ''.'') n of
        Some d \<Rightarrow> (trim_char backtick (take d n), trim_char backtick (drop (d + 1) n))
      | None \<Rightarrow> (db, bare n))"

definition get_table :: "engine \<Rightarrow> string \<Rightarrow> string \<Rightarrow> table option" where
  "get_table e db t = Option.bind (databases e db) (\<lambda>d. tables d t)"

definition put_table :: "string \<Rightarrow> string \<Rightarrow> table \<Rightarrow> engine \<Rightarrow> engine" where
  "put_table db t tab e =
     (case databases e db of
        Some d \<Rightarrow> e\<lparr> databases := (databases e)(db \<mapsto> d\<lparr> tables := (tables d)(t \<mapsto> tab) \<rparr>) \<rparr>
      | None \<Rightarrow> e)"

type_synonym step = "(engine \<times> query_result) option"

definition with_table :: "string \<Rightarrow> string \<Rightarrow> string \<Rightarrow> string \<Rightarrow>
    (table \<Rightarrow> (table \<times> query_result) option) \<Rightarrow> engine \<Rightarrow> step" where
  "with_table db t db_msg t_msg f e =
     (case databases e db of
        None \<Rightarrow> Some (e, QErr 1049 db_msg)
      | Some d \<Rightarrow>
          (case tables d t of
             None \<Rightarrow> Some (e, QErr 1146 t_msg)
           | Some tab \<Rightarrow> map_option (\<lambda>(tab', r). (put_table db t tab' e, r)) (f tab)))"

definition unknown_db :: "string \<Rightarrow> string" where
  "unknown_db db = ''Unknown database '' @ quoted db"

definition no_table :: "string \<Rightarrow> string \<Rightarrow> string" where
  "no_table db t = ''Table '' @ quoted (db @ ''.'' @ t) @ '' doesn'' @ [CHR 0x27] @ ''t exist''"

section \<open>DML\<close>

definition insert_source_rows :: "'q crates \<Rightarrow> string \<Rightarrow> string \<Rightarrow> row list \<Rightarrow> bool \<Rightarrow> string list \<Rightarrow>
    engine \<Rightarrow> step" where
  "insert_source_rows x db t srcs replace_into insert_columns e =
     map_option (\<lambda>(e, r). (case r of QOk n pk \<Rightarrow> e\<lparr> last_insert_id := pk \<rparr> | _ \<Rightarrow> e, r))
       (with_table db t (unknown_db db) (no_table db t)
          (\<lambda>tab. do { tab' \<leftarrow> insert_all x replace_into (make_col_map (columns tab) insert_columns) srcs tab;
                      Some (tab', q_ok (length srcs) (last_pk tab')) }) e)"

text \<open>\<open>INSERT ... VALUES\<close>; the name of an unqualified table is taken as written.\<close>

definition insert_values :: "'q crates \<Rightarrow> string \<Rightarrow> string \<Rightarrow> 'q expr list list option \<Rightarrow> bool \<Rightarrow>
    string list \<Rightarrow> engine \<Rightarrow> step" where
  "insert_values x cur n source replace_into insert_columns e =
     (case source of
        None \<Rightarrow> Some (e, QErr 1064 ''INSERT without VALUES'')
      | Some exprs \<Rightarrow>
          (let (db, t) = qualified_name id cur n
           in insert_source_rows x db t (map (map (expr_to_value x)) exprs) replace_into
                insert_columns e))"

definition update_stmt :: "'q crates \<Rightarrow> string \<Rightarrow> string \<Rightarrow> 'q assignments \<Rightarrow> 'q expr option \<Rightarrow>
    engine \<Rightarrow> step" where
  "update_stmt x cur n asgns sel e =
     (let (db, t) = qualified_name (trim_char backtick) cur n
      in with_table db t (unknown_db db) (no_table db t)
           (\<lambda>tab. map_option (\<lambda>(tab', k). (tab', q_ok k 0)) (update_table x asgns sel tab)) e)"

definition delete_stmt :: "'q crates \<Rightarrow> string \<Rightarrow> string \<Rightarrow> 'q expr option \<Rightarrow> engine \<Rightarrow> step" where
  "delete_stmt x cur n sel e =
     (let (db, t) = qualified_name (trim_char backtick) cur n
      in with_table db t (unknown_db db) (no_table db t)
           (\<lambda>tab. map_option (\<lambda>(tab', k). (tab', q_ok k 0)) (delete_table x sel tab)) e)"

definition insert_prepared :: "'q crates \<Rightarrow> string \<Rightarrow> string \<Rightarrow> 'q expr list list \<Rightarrow> Value list \<Rightarrow>
    engine \<Rightarrow> step" where
  "insert_prepared x cur n exprs bound e =
     (let (db, t) = qualified_name (trim_char backtick) cur n
      in with_table db t ''Unknown database'' ''Table not found''
           (\<lambda>tab. Some (insert_prepared_rows x bound exprs 0 tab, q_ok (length exprs) 0)) e)"

definition update_prepared :: "'q crates \<Rightarrow> string \<Rightarrow> string \<Rightarrow> 'q assignments \<Rightarrow> 'q expr option \<Rightarrow>
    Value list \<Rightarrow> engine \<Rightarrow> step" where
  "update_prepared x cur n asgns sel bound e =
     (let (db, t) = qualified_name (trim_char backtick) cur n
      in with_table db t ''Unknown database'' ''Table not found''
           (\<lambda>tab. map_option (\<lambda>(tab', k). (tab', q_ok k 0))
                    (update_prepared_table x asgns sel bound tab)) e)"

definition delete_prepared :: "'q crates \<Rightarrow> string \<Rightarrow> string \<Rightarrow> 'q expr option \<Rightarrow> Value list \<Rightarrow>
    engine \<Rightarrow> step" where
  "delete_prepared x cur n sel bound e =
     (let (db, t) = qualified_name (trim_char backtick) cur n
      in with_table db t ''Unknown database'' ''Table not found''
           (\<lambda>tab. map_option (\<lambda>(tab', k). (tab', q_ok k 0))
                    (delete_prepared_table x sel bound tab)) e)"

section \<open>DDL\<close>

definition create_database :: "string \<Rightarrow> engine \<Rightarrow> engine \<times> query_result" where
  "create_database n e =
     (case databases e n of
        Some d \<Rightarrow> (e, q_ok 1 0)
      | None \<Rightarrow> (e\<lparr> databases := (databases e)(n \<mapsto> new_database n) \<rparr>, q_ok 1 0))"

definition ensure_database :: "string \<Rightarrow> engine \<Rightarrow> engine" where
  "ensure_database n e = fst (create_database n e)"

record column_def =
  cd_name :: string
  cd_type :: data_type
  cd_primary :: bool \<comment> \<open>some option is \<open>Unique { is_primary: true }\<close>\<close>

definition make_column :: "column_def \<Rightarrow> column" where
  "make_column c =
     \<lparr> col_name = cd_name c, col_type = sql_type_to_col_type (cd_type c),
       nullable = \<not> cd_primary c, primary_key = cd_primary c \<rparr>"

text \<open>The parts of a table name: the last two are schema and table.\<close>

definition name_parts :: "string \<Rightarrow> string list \<Rightarrow> string \<times> string" where
  "name_parts cur parts =
     (if length parts \<ge> 2 then (parts ! (length parts - 2), parts ! (length parts - 1))
      else (cur, case parts of [] \<Rightarrow> [] | _ \<Rightarrow> last parts))"

definition create_table :: "string \<Rightarrow> string list \<Rightarrow> column_def list \<Rightarrow> bool \<Rightarrow> engine \<Rightarrow>
    engine \<times> query_result" where
  "create_table cur parts defs if_not_exists e =
     (let (db, t) = name_parts cur parts;
          cols = map make_column defs
      in case databases e db of
           None \<Rightarrow> (e, QErr 1049 (unknown_db db))
         | Some d \<Rightarrow>
             if if_not_exists \<and> tables d t \<noteq> None then (e, q_ok 0 0)
             else (put_table db t (empty_table t db cols) e, q_ok 0 0))"

text \<open>\<open>DROP TABLE\<close> and \<open>DROP DATABASE\<close>: an error returns at once, with what was dropped before.\<close>

fun drop_tables :: "string \<Rightarrow> bool \<Rightarrow> string list \<Rightarrow> engine \<Rightarrow> engine \<times> query_result" where
  "drop_tables cur if_exists [] e = (bump_write_gen e, q_ok 0 0)"
| "drop_tables cur if_exists (n # ns) e =
     (let (db, t) = qualified_name (trim_char backtick) cur n in
      case databases e db of
        Some d \<Rightarrow>
          (let e' = e\<lparr> databases := (databases e)(db \<mapsto> d\<lparr> tables := (tables d)(t := None) \<rparr>) \<rparr> in
           if tables d t = None \<and> \<not> if_exists
           then (e', QErr 1051 (''Unknown table '' @ quoted (db @ ''.'' @ t)))
           else drop_tables cur if_exists ns e')
      | None \<Rightarrow>
          if \<not> if_exists then (e, QErr 1049 (unknown_db db))
          else drop_tables cur if_exists ns e)"

fun drop_databases :: "bool \<Rightarrow> string list \<Rightarrow> engine \<Rightarrow> engine \<times> query_result" where
  "drop_databases if_exists [] e = (bump_write_gen e, q_ok 0 0)"
| "drop_databases if_exists (n # ns) e =
     (let db = trim_char backtick n;
          e' = e\<lparr> databases := (databases e)(db := None) \<rparr>
      in if databases e db = None \<and> \<not> if_exists then (e', QErr 1049 (unknown_db db))
         else drop_databases if_exists ns e')"

definition truncate_stmt :: "string option \<Rightarrow> string \<Rightarrow> engine \<Rightarrow> step" where
  "truncate_stmt cur n e =
     (let (db, t) = qualified_name (trim_char backtick) (default_str cur) n
      in map_option (\<lambda>(e, r). (case r of QOk k pk \<Rightarrow> bump_write_gen e | _ \<Rightarrow> e, r))
           (with_table db t ''Unknown database'' ''Table not found''
              (\<lambda>tab. case truncate_table tab of (tab', k) \<Rightarrow> Some (tab', q_ok k 0)) e))"

definition alter_stmt :: "string option \<Rightarrow> string \<Rightarrow> alter_op list \<Rightarrow> engine \<Rightarrow> step" where
  "alter_stmt cur n opers e =
     (let (db, t) = qualified_name (trim_char backtick) (case cur of Some d \<Rightarrow> d | None \<Rightarrow> ''test'') n
      in map_option (\<lambda>(e, r). (case r of QOk k pk \<Rightarrow> bump_write_gen e | _ \<Rightarrow> e, r))
           (with_table db t ''Unknown database'' ''Table not found''
              (\<lambda>tab. case alter_table opers tab of
                       (tab', None) \<Rightarrow> Some (tab', q_ok 0 0)
                     | (tab', Some (code, msg)) \<Rightarrow> Some (tab', QErr code msg)) e))"

section \<open>Snapshots\<close>

text \<open>\<open>BEGIN\<close> copies the tables of every database, \<open>ROLLBACK\<close> puts them back.\<close>

type_synonym snapshot = "string \<rightharpoonup> (string \<rightharpoonup> table)"

definition take_snapshot :: "engine \<Rightarrow> snapshot" where
  "take_snapshot e = (\<lambda>n. map_option tables (databases e n))"

definition restore_snapshot :: "snapshot \<Rightarrow> engine \<Rightarrow> engine" where
  "restore_snapshot snap e =
     bump_write_gen
       (e\<lparr> databases := (\<lambda>n. case databases e n of
             None \<Rightarrow> None
           | Some d \<Rightarrow> Some (case snap n of Some ts \<Rightarrow> d\<lparr> tables := ts \<rparr> | None \<Rightarrow> d)) \<rparr>)"

section \<open>Reading and writing tables\<close>

lemma get_put_table:
  "databases e db \<noteq> None \<Longrightarrow>
   get_table (put_table db t tab e) db' t' =
     (if db' = db \<and> t' = t then Some tab else get_table e db' t')"
  by (auto simp: get_table_def put_table_def)

lemma databases_put_table: "databases (put_table db t tab e) db' = None \<longleftrightarrow> databases e db' = None"
  by (simp add: put_table_def split: option.split)

lemma put_table_fields [simp]:
  "users (put_table db t tab e) = users e"
  "write_gen (put_table db t tab e) = write_gen e"
  "last_insert_id (put_table db t tab e) = last_insert_id e"
  by (simp_all add: put_table_def split: option.split)

text \<open>A statement on one table either leaves the databases alone or replaces that table.\<close>

lemma with_table_cases:
  assumes "with_table db t m1 m2 f e = Some (e', r)"
  obtains "databases e db = None" "e' = e" "r = QErr 1049 m1"
  | "databases e db \<noteq> None" "get_table e db t = None" "e' = e" "r = QErr 1146 m2"
  | tab tab' where "get_table e db t = Some tab" "f tab = Some (tab', r)" "databases e db \<noteq> None"
      "e' = put_table db t tab' e"
  using assms
  by (auto simp: with_table_def get_table_def split: option.splits)

definition only_table :: "string \<Rightarrow> string \<Rightarrow> engine \<Rightarrow> engine \<Rightarrow> bool" where
  "only_table db t e e' \<longleftrightarrow>
     (\<forall>db' t'. (db', t') \<noteq> (db, t) \<longrightarrow> get_table e' db' t' = get_table e db' t') \<and>
     (\<forall>db'. databases e' db' = None \<longleftrightarrow> databases e db' = None) \<and> users e' = users e"

lemma with_table_frame:
  assumes "with_table db t m1 m2 f e = Some (e', r)"
  shows "only_table db t e e'"
  using assms
  by (rule with_table_cases) (auto simp: only_table_def get_put_table databases_put_table)

lemma get_table_fields [simp]:
  "get_table (e\<lparr> last_insert_id := i \<rparr>) db t = get_table e db t"
  "get_table (bump_write_gen e) db t = get_table e db t"
  by (simp_all add: get_table_def bump_write_gen_def)

lemma only_table_fields:
  "only_table db t e (e'\<lparr> last_insert_id := i \<rparr>) = only_table db t e e'"
  "only_table db t e (bump_write_gen e') = only_table db t e e'"
  by (simp_all add: only_table_def bump_write_gen_def get_table_def)

text \<open>Recording the outcome of a statement does not touch the tables.\<close>

lemma insert_source_cases:
  assumes "insert_source_rows x db t srcs rep cols e = Some (e', r)"
  obtains e1 where "with_table db t (unknown_db db) (no_table db t)
      (\<lambda>tab. do { tab' \<leftarrow> insert_all x rep (make_col_map (columns tab) cols) srcs tab;
                  Some (tab', q_ok (length srcs) (last_pk tab')) }) e = Some (e1, r)"
    "e' = e1 \<or> (\<exists>pk. e' = e1\<lparr> last_insert_id := pk \<rparr>)"
  using assms by (cases r) (auto simp: insert_source_rows_def)

lemma insert_source_frame:
  assumes "insert_source_rows x db t srcs rep cols e = Some (e', r)"
  shows "only_table db t e e'"
  using assms
  by (rule insert_source_cases) (auto simp: only_table_fields dest!: with_table_frame)

lemma dml_frame:
  "insert_values x cur n src rep cols e = Some (e', r) \<Longrightarrow>
     only_table (fst (qualified_name id cur n)) (snd (qualified_name id cur n)) e e'"
  "update_stmt x cur n asgns sel e = Some (e', r) \<Longrightarrow>
     only_table (fst (qualified_name (trim_char backtick) cur n))
       (snd (qualified_name (trim_char backtick) cur n)) e e'"
  "delete_stmt x cur n sel e = Some (e', r) \<Longrightarrow>
     only_table (fst (qualified_name (trim_char backtick) cur n))
       (snd (qualified_name (trim_char backtick) cur n)) e e'"
  by (auto simp: insert_values_def update_stmt_def delete_stmt_def only_table_def
      split: prod.splits option.splits dest!: insert_source_frame with_table_frame)

section \<open>Statements keep the column stores\<close>

definition stores_ok :: "engine \<Rightarrow> bool" where
  "stores_ok e \<longleftrightarrow> (\<forall>db t tab. get_table e db t = Some tab \<longrightarrow> store_ok tab)"

lemma stores_ok_fields [simp]:
  "stores_ok (e\<lparr> last_insert_id := i \<rparr>) = stores_ok e"
  "stores_ok (bump_write_gen e) = stores_ok e"
  by (simp_all add: stores_ok_def)

lemma with_table_stores_at:
  assumes "stores_ok e" "with_table db t m1 m2 f e = Some (e', r)"
    and "\<And>tab tab' r. get_table e db t = Some tab \<Longrightarrow> store_ok tab \<Longrightarrow> f tab = Some (tab', r) \<Longrightarrow> store_ok tab'"
  shows "stores_ok e'"
  using assms(2)
proof (rule with_table_cases)
  fix tab tab'
  assume "get_table e db t = Some tab" "f tab = Some (tab', r)" "databases e db \<noteq> None"
    "e' = put_table db t tab' e"
  moreover from this have "store_ok tab'" using assms(1,3) unfolding stores_ok_def by blast
  ultimately show ?thesis using assms(1) by (auto simp: stores_ok_def get_put_table split: if_splits)
qed (use assms(1) in simp_all)

lemma with_table_stores:
  assumes "stores_ok e" "with_table db t m1 m2 f e = Some (e', r)"
    and "\<And>tab tab' r. store_ok tab \<Longrightarrow> f tab = Some (tab', r) \<Longrightarrow> store_ok tab'"
  shows "stores_ok e'"
  by (rule with_table_stores_at [OF assms(1,2)]) (rule assms(3))

lemma insert_source_stores:
  assumes "stores_ok e" "insert_source_rows x db t srcs rep cols e = Some (e', r)"
  shows "stores_ok e'"
  using assms(2)
  by (rule insert_source_cases)
    (auto simp: bind_eq_Some_conv dest!: with_table_stores [OF assms(1)] dest: insert_all_store)

lemma delete_stmt_stores:
  assumes "stores_ok e" "delete_stmt x cur n sel e = Some (e', r)"
  shows "stores_ok e'"
  using assms(2) unfolding delete_stmt_def
  by (auto split: prod.splits dest!: with_table_stores [OF assms(1)] dest: delete_table_store)

lemma insert_prepared_rows_store:
  "store_ok t \<Longrightarrow> store_ok (insert_prepared_rows x bound ess i t)"
  by (induction x bound ess i t rule: insert_prepared_rows.induct)
    (simp_all add: stores.inv_push split: prod.split)

lemma insert_prepared_stores:
  assumes "stores_ok e" "insert_prepared x cur n exprs bound e = Some (e', r)"
  shows "stores_ok e'"
  using assms(2) unfolding insert_prepared_def
  by (auto split: prod.splits dest!: with_table_stores [OF assms(1)] intro: insert_prepared_rows_store)

lemma delete_prepared_stores:
  assumes "stores_ok e" "delete_prepared x cur n sel bound e = Some (e', r)"
  shows "stores_ok e'"
  using assms(2) unfolding delete_prepared_def
  by (auto simp: delete_prepared_table_def retain_store_ok split: prod.splits
      dest!: with_table_stores [OF assms(1)])

lemma truncate_stores:
  assumes "stores_ok e" "truncate_stmt cur n e = Some (e', r)"
  shows "stores_ok e'"
  using assms(2) unfolding truncate_stmt_def
  by (cases r) (auto simp: truncate_table_def clear_store_ok split: prod.splits
      dest!: with_table_stores [OF assms(1)])

lemma create_table_stores: "stores_ok e \<Longrightarrow> stores_ok (fst (create_table cur parts defs ine e))"
  by (auto simp: create_table_def stores_ok_def get_put_table empty_store_ok split: prod.split
      option.split if_splits)

lemma create_database_stores: "stores_ok e \<Longrightarrow> stores_ok (fst (create_database n e))"
  by (auto simp: create_database_def stores_ok_def get_table_def new_database_def
      split: option.split if_splits)

lemma drop_tables_stores: "stores_ok e \<Longrightarrow> stores_ok (fst (drop_tables cur ife ns e))"
proof (induction ns arbitrary: e)
  case (Cons n ns)
  obtain db t where q: "qualified_name (trim_char backtick) cur n = (db, t)" by fastforce
  show ?case
  proof (cases "databases e db")
    case None
    then show ?thesis using Cons q by (cases ife) simp_all
  next
    case (Some d)
    let ?e = "e\<lparr> databases := (databases e)(db \<mapsto> d\<lparr> tables := (tables d)(t := None) \<rparr>) \<rparr>"
    have sub: "get_table ?e db' t' = Some tab \<Longrightarrow> get_table e db' t' = Some tab" for db' t' tab
      using Some by (auto simp: get_table_def split: if_splits)
    then have "stores_ok ?e" using Cons.prems unfolding stores_ok_def by blast
    then show ?thesis using Cons.IH [of ?e] Some q by (simp add: Let_def)
  qed
qed simp

lemma drop_databases_stores: "stores_ok e \<Longrightarrow> stores_ok (fst (drop_databases ife ns e))"
proof (induction ife ns e rule: drop_databases.induct)
  case (2 ife n ns e)
  have "stores_ok (e\<lparr> databases := (databases e)(trim_char backtick n := None) \<rparr>)"
    using 2(2) by (auto simp: stores_ok_def get_table_def)
  then show ?case using 2(1) by (auto simp: Let_def)
qed simp

lemma new_engine_stores: "stores_ok (new_engine sha1 pw)"
  by (auto simp: stores_ok_def get_table_def new_engine_def new_database_def)

section \<open>Rollback\<close>

text \<open>The statements on rows, and runs of them: the databases that exist stay the same.\<close>

inductive dml_stmt :: "'q crates \<Rightarrow> engine \<Rightarrow> engine \<Rightarrow> bool" for x :: "'q crates" where
  insert: "insert_values x cur n src rep cols e = Some (e', r) \<Longrightarrow> dml_stmt x e e'"
| insert_rows: "insert_source_rows x db t srcs rep cols e = Some (e', r) \<Longrightarrow> dml_stmt x e e'"
| update: "update_stmt x cur n asgns sel e = Some (e', r) \<Longrightarrow> dml_stmt x e e'"
| delete: "delete_stmt x cur n sel e = Some (e', r) \<Longrightarrow> dml_stmt x e e'"
| insert_prep: "insert_prepared x cur n exprs bound e = Some (e', r) \<Longrightarrow> dml_stmt x e e'"
| update_prep: "update_prepared x cur n asgns sel bound e = Some (e', r) \<Longrightarrow> dml_stmt x e e'"
| delete_prep: "delete_prepared x cur n sel bound e = Some (e', r) \<Longrightarrow> dml_stmt x e e'"
| truncate: "truncate_stmt cur' n e = Some (e', r) \<Longrightarrow> dml_stmt x e e'"
| alter: "alter_stmt cur' n opers e = Some (e', r) \<Longrightarrow> dml_stmt x e e'"

lemma dml_stmt_frame:
  assumes "dml_stmt x e e'"
  shows "\<exists>db t. only_table db t e e'"
  using assms
proof (cases rule: dml_stmt.cases)
  case (truncate cur' n r)
  then show ?thesis
    by (cases r) (auto simp: truncate_stmt_def only_table_fields split: prod.splits
        dest!: with_table_frame intro!: exI)
next
  case (alter cur' n opers r)
  then show ?thesis
    by (cases r) (auto simp: alter_stmt_def only_table_fields split: prod.splits
        dest!: with_table_frame intro!: exI)
qed (auto simp: insert_prepared_def update_prepared_def delete_prepared_def split: prod.splits
    dest: dml_frame insert_source_frame with_table_frame)

lemma dml_run_databases:
  "(dml_stmt x)\<^sup>*\<^sup>* e e' \<Longrightarrow> databases e' db = None \<longleftrightarrow> databases e db = None"
  by (induction rule: rtranclp_induct) (auto simp: only_table_def dest: dml_stmt_frame)

lemma get_table_restore:
  "get_table (restore_snapshot (take_snapshot e) e') db t =
     (if databases e db = None \<or> databases e' db = None then get_table e' db t
      else get_table e db t)"
  by (auto simp: restore_snapshot_def take_snapshot_def get_table_def bump_write_gen_def
      split: option.splits)

lemma rollback_tables:
  assumes "(dml_stmt x)\<^sup>*\<^sup>* e e'"
  shows "get_table (restore_snapshot (take_snapshot e) e') db t = get_table e db t"
  using dml_run_databases [OF assms, of db] unfolding get_table_restore
  by (auto simp: get_table_def)

lemma write_gen_restore: "write_gen (restore_snapshot snap e) = write_gen e + 1"
  by (simp add: restore_snapshot_def bump_write_gen_def)

end
