(* ===== verification/Joins.thy ===== *)
theory Joins
  imports Grouping Engine
begin

text \<open>
  \<open>select_joined\<close> of src/engine.rs: the nested-loop joins of the FROM list, the filter, the GROUP
  BY of joined rows with its floating point aggregates, and the projection with ORDER BY, LIMIT
  and OFFSET; and the projection helpers the other query paths share.
\<close>

section \<open>Floats as text\<close>

text \<open>The format \<open>{:.d}\<close>: the value rounded to \<open>d\<close> decimals, halves to even.\<close>

definition show_fixed :: "nat \<Rightarrow> f64 \<Rightarrow> string" where
  "show_fixed d v =
     (case view v of
        FNaN \<Rightarrow> ''NaN''
      | FInf s \<Rightarrow> (if s then ''-inf'' else ''inf'')
      | FFin s m e \<Rightarrow>
          (let num = m * 2 ^ nat e * 10 ^ d; den = 2 ^ nat (- e);
               q = num div den; r = num mod den;
               k = (if den < 2 * r \<or> den = 2 * r \<and> odd q then Suc q else q)
           in (if s then ''-'' else '''') @ show_nat (k div 10 ^ d) @
              (if d = 0 then '''' else ''.'' @ pad0 d (show_nat (k mod 10 ^ d)))))"

definition f64_sum :: "'q crates \<Rightarrow> f64 list \<Rightarrow> f64" where
  "f64_sum x vs = fold (\<lambda>v s. f64_add s v) vs (f64_sum_start x)"

definition whole :: "f64 \<Rightarrow> bool" where \<comment> \<open>\<open>v.fract() == 0.0\<close>\<close>
  "whole v = f64_is_zero (f64_sub v (f64_integral RTrunc v))"

definition f64_reduce :: "(f64 \<Rightarrow> f64 \<Rightarrow> f64) \<Rightarrow> f64 list \<Rightarrow> f64 option" where
  "f64_reduce f vs = (case vs of [] \<Rightarrow> None | v # vs \<Rightarrow> Some (fold (\<lambda>b a. f a b) vs v))"

section \<open>Projection\<close>

definition expr_name :: "'q crates \<Rightarrow> 'q expr \<Rightarrow> string" where
  "expr_name x e =
     (case e of
        EIdentifier n \<Rightarrow> n
      | ECompoundIdentifier ps \<Rightarrow> (if ps = [] then show_expr x e else last ps)
      | _ \<Rightarrow> show_expr x e)"

definition joined_name :: "'q crates \<Rightarrow> 'q expr \<Rightarrow> string" where
  "joined_name x e = (if e = ECompoundIdentifier [] then [] else expr_name x e)"

definition is_wildcard :: "'q select_item list \<Rightarrow> bool" where
  "is_wildcard items = list_ex (\<lambda>p. p = SelWildcard \<or> p = SelQualifiedWildcard) items"

definition null_item :: "string \<times> 'q expr" where
  "null_item = (''?'', EIdentifier ''__null__'')"

definition item_exprs :: "('q expr \<Rightarrow> string) \<Rightarrow> 'q select_item list \<Rightarrow> (string \<times> 'q expr) list" where
  "item_exprs nm items =
     map (\<lambda>p. case p of SelExpr e \<Rightarrow> (nm e, e) | SelAlias e a \<Rightarrow> (a, e) | _ \<Rightarrow> null_item) items"

definition shown_items :: "'q crates \<Rightarrow> 'q select_item list \<Rightarrow> string list" where
  "shown_items x items = map (\<lambda>p. case p of SelAlias e a \<Rightarrow> a | _ \<Rightarrow> show_item x p) items"

definition project_row :: "'q crates \<Rightarrow> column list \<Rightarrow> 'q expr list \<Rightarrow> row \<Rightarrow> string option list option" where
  "project_row x cols es r = map_panic (\<lambda>e. map_option (to_display x) (eval_row_expr x r cols e)) es"

definition project_rows :: "'q crates \<Rightarrow> column list \<Rightarrow> 'q expr list \<Rightarrow> row list \<Rightarrow> string option list list option" where
  "project_rows x cols es rs = map_panic (project_row x cols es) rs"

definition where_rows :: "'q crates \<Rightarrow> column list \<Rightarrow> 'q expr option \<Rightarrow> row list \<Rightarrow> row list option" where
  "where_rows x cols w rs = filter_panic (\<lambda>r. eval_opt_where x r cols w) rs"

section \<open>Joining\<close>

definition find_table :: "string \<Rightarrow> string \<Rightarrow> string \<Rightarrow> engine \<Rightarrow> query_result + table" where
  "find_table db t missing e =
     (case databases e db of
        None \<Rightarrow> Inl (QErr 1049 (unknown_db db))
      | Some d \<Rightarrow> (case tables d t of None \<Rightarrow> Inl (QErr 1146 missing) | Some tab \<Rightarrow> Inr tab))"

definition no_such_table :: "string \<Rightarrow> string" where
  "no_such_table t = ''Table '' @ quoted t @ '' doesn'' @ [CHR 0x27] @ ''t exist''"

definition factor_name :: "'q crates \<Rightarrow> 'q table_factor \<Rightarrow> string" where
  "factor_name x f = (case f of FTable n _ \<Rightarrow> n | _ \<Rightarrow> show_factor x f)"

definition join_columns :: "string \<Rightarrow> column list \<Rightarrow> column list \<Rightarrow> column list" where
  "join_columns right left_cols right_cols =
     (let existing = (\<lambda>c. to_lower (col_name c)) ` set left_cols
      in left_cols @ map (\<lambda>c. if to_lower (col_name c) \<in> existing
                               then c\<lparr> col_name := right @ ''.'' @ col_name c \<rparr> else c) right_cols)"

fun join_condition :: "'q join_operator \<Rightarrow> 'q expr option \<times> bool" where
  "join_condition (JoinOn e) = (Some e, False)"
| "join_condition (InnerOn e) = (Some e, False)"
| "join_condition (LeftOn e) = (Some e, True)"
| "join_condition (LeftOuterOn e) = (Some e, True)"
| "join_condition CrossJoin = (None, False)"
| "join_condition JoinOther = (None, False)"

fun join_rows :: "'q crates \<Rightarrow> column list \<Rightarrow> 'q expr option \<Rightarrow> bool \<Rightarrow> nat \<Rightarrow> row list \<Rightarrow> row list \<Rightarrow>
    row list option" where
  "join_rows x cols on is_left ncols [] right = Some []"
| "join_rows x cols on is_left ncols (l # ls) right =
     do { matched \<leftarrow> where_rows x cols on (map (\<lambda>r. l @ r) right);
          rest \<leftarrow> join_rows x cols on is_left ncols ls right;
          Some ((if matched = [] \<and> is_left then [l @ replicate ncols Null] else matched) @ rest) }"

fun join_all :: "'q crates \<Rightarrow> string \<Rightarrow> engine \<Rightarrow> ('q table_factor \<times> 'q join_operator) list \<Rightarrow>
    column list \<times> row list \<Rightarrow> (query_result + column list \<times> row list) option" where
  "join_all x db e [] (cols, rs) = Some (Inr (cols, rs))"
| "join_all x db e ((f, j) # js) (cols, rs) =
     (let (rdb, rt) = qualified_name (trim_char backtick) db (factor_name x f) in
      case find_table rdb rt (no_such_table rt) e of
        Inl err \<Rightarrow> Some (Inl err)
      | Inr tab \<Rightarrow>
          let cols' = join_columns rt cols (columns tab); (on, is_left) = join_condition j
          in do { rs' \<leftarrow> join_rows x cols' on is_left (length (columns tab)) rs (rows tab);
                  join_all x db e js (cols', rs') })"

section \<open>GROUP BY on joined rows\<close>

definition last_part :: "string \<Rightarrow> string" where \<comment> \<open>\<open>rsplit('.').next()\<close>\<close>
  "last_part n = last (split_char (CHR ''.'') n)"

definition joined_match :: "string \<Rightarrow> column \<Rightarrow> bool" where
  "joined_match n c \<longleftrightarrow> eq_ignore_case (col_name c) n \<or> eq_ignore_case (last_part (col_name c)) n"

definition group_name :: "'q expr \<Rightarrow> string option" where
  "group_name e =
     (case e of
        EIdentifier n \<Rightarrow> Some n
      | ECompoundIdentifier ps \<Rightarrow> Some (if ps = [] then [] else last ps)
      | _ \<Rightarrow> None)"

definition group_columns :: "(string \<Rightarrow> nat option) \<Rightarrow> 'q group_by \<Rightarrow> nat list" where
  "group_columns pos g =
     (case g of
        GroupExprs es \<Rightarrow> List.map_filter (\<lambda>e. Option.bind (group_name e) pos) es
      | GroupAll \<Rightarrow> [])"

definition first_arg :: "'q expr func_arg list option \<Rightarrow> 'q expr option" where
  "first_arg args = (case args of Some (UnnamedExpr e # _) \<Rightarrow> Some e | _ \<Rightarrow> None)"

definition value_f64 :: "Value \<Rightarrow> f64 option" where
  "value_f64 v =
     (case v of
        VInt n \<Rightarrow> Some (f64_of_int (sint n)) | VFloat f \<Rightarrow> Some f | VText s \<Rightarrow> f64_parse s | _ \<Rightarrow> None)"

definition float_aggregate :: "'q crates \<Rightarrow> string \<Rightarrow> Value list \<Rightarrow> string option" where
  "float_aggregate x f vs =
     (let nums = List.map_filter value_f64 vs in
      if f = ''SUM'' then
        (let s = f64_sum x nums in Some (if whole s then show_fixed 0 s else show_fixed 2 s))
      else if f = ''AVG'' then
        (if nums = [] then None
         else let a = f64_div (f64_sum x nums) (f64_of_int (int (length nums)))
              in Some (if whole a then show_fixed 0 a else f64_show a))
      else if f = ''MIN'' then
        map_option (\<lambda>v. if whole v then show_fixed 0 v else f64_show v) (f64_reduce (f64_min x) nums)
      else if f = ''MAX'' then
        map_option (\<lambda>v. if whole v then show_fixed 0 v else f64_show v) (f64_reduce (f64_max x) nums)
      else if f = ''GROUP_CONCAT'' then
        (let ws = List.map_filter (to_display x) vs in if ws = [] then None else Some (join '','' ws))
      else None)"

definition joined_aggregate :: "'q crates \<Rightarrow> column list \<Rightarrow> row list \<Rightarrow> string \<Rightarrow>
    'q expr func_arg list option \<Rightarrow> string option option" where
  "joined_aggregate x cols rs name args =
     (let f = to_upper name in
      if f = ''COUNT'' then
        (case args of
           Some (UnnamedWildcard # _) \<Rightarrow> Some (Some (show_nat (length rs)))
         | _ \<Rightarrow>
           (case first_arg args of
              Some e \<Rightarrow> map_option (\<lambda>vs. Some (show_nat (length (filter (\<lambda>v. v \<noteq> Null) vs))))
                          (map_panic (\<lambda>r. eval_row_expr x r cols e) rs)
            | None \<Rightarrow> Some (Some (show_nat (length rs)))))
      else
        (case first_arg args of
           Some e \<Rightarrow> map_option (float_aggregate x f) (map_panic (\<lambda>r. eval_row_expr x r cols e) rs)
         | None \<Rightarrow> Some None))"

definition joined_aggregates :: "string set" where
  "joined_aggregates = {''COUNT'', ''SUM'', ''AVG'', ''MIN'', ''MAX'', ''GROUP_CONCAT''}"

definition first_display :: "'q crates \<Rightarrow> column list \<Rightarrow> row list \<Rightarrow> 'q expr \<Rightarrow> string option option" where
  "first_display x cols rs e =
     (case rs of r # _ \<Rightarrow> map_option (to_display x) (eval_row_expr x r cols e) | [] \<Rightarrow> Some None)"

definition joined_item :: "'q crates \<Rightarrow> column list \<Rightarrow> nat list \<Rightarrow> string option list \<Rightarrow> row list \<Rightarrow>
    'q expr \<Rightarrow> string option option" where
  "joined_item x cols gcols k rs e =
     (case group_name e of
        Some n \<Rightarrow>
          (case Option.bind (position (\<lambda>ci. joined_match n (cols ! ci)) gcols) (\<lambda>p. Option.bind (vec_get k p) id) of
             Some s \<Rightarrow> Some (Some s)
           | None \<Rightarrow> first_display x cols rs e)
      | None \<Rightarrow>
          (case e of
             EFunction name args _ _ _ \<Rightarrow>
               if to_upper name \<in> joined_aggregates then joined_aggregate x cols rs name args
               else first_display x cols rs e
           | _ \<Rightarrow> first_display x cols rs e))"

definition joined_group_row :: "'q crates \<Rightarrow> column list \<Rightarrow> nat list \<Rightarrow> 'q select_item list \<Rightarrow>
    string option list \<times> row list \<Rightarrow> string option list option" where
  "joined_group_row x cols gcols items g =
     map_panic (\<lambda>p. case p of
         SelExpr e \<Rightarrow> joined_item x cols gcols (fst g) (snd g) e
       | SelAlias e _ \<Rightarrow> joined_item x cols gcols (fst g) (snd g) e
       | _ \<Rightarrow> Some None) items"

definition joined_names :: "'q crates \<Rightarrow> 'q select_item list \<Rightarrow> string list" where
  "joined_names x items =
     map (\<lambda>p. case p of SelAlias e a \<Rightarrow> a | SelExpr e \<Rightarrow> expr_name x e | _ \<Rightarrow> show_item x p) items"

definition cmp_number_cell :: "string option \<Rightarrow> string option \<Rightarrow> ordering" where
  "cmp_number_cell a b = cmp_number_text (default_str a) (default_str b)"

definition joined_groups :: "'q crates \<Rightarrow> column list \<Rightarrow> 'q select_item list \<Rightarrow> 'q group_by \<Rightarrow>
    'q order_kind option \<Rightarrow> 'q expr option \<Rightarrow> row list \<Rightarrow> query_result option" where
  "joined_groups x cols items g ob lim rs =
     (let gcols = group_columns (\<lambda>n. position (joined_match n) cols) g;
          groups = group_rows (group_key x gcols) rs;
          ns = joined_names x items
      in do { out \<leftarrow> map_panic (joined_group_row x cols gcols items) groups;
              Some (QRows ns (take_opt (number_usize lim) (order_output x cmp_number_cell ns ob out))) })"

section \<open>The whole query\<close>

definition joined_projection :: "'q crates \<Rightarrow> column list \<Rightarrow> 'q select_item list \<Rightarrow> (string \<times> 'q expr) list" where
  "joined_projection x cols items =
     (if is_wildcard items then map (\<lambda>c. (last_part (col_name c), EIdentifier (col_name c))) cols
      else item_exprs (joined_name x) items)"

definition joined_rows :: "'q crates \<Rightarrow> column list \<Rightarrow> 'q select_item list \<Rightarrow> 'q order_kind option \<Rightarrow>
    'q expr option \<Rightarrow> 'q expr option \<Rightarrow> row list \<Rightarrow> query_result option" where
  "joined_rows x cols items ob lim off rs =
     (let out = joined_projection x cols items; ns = map fst out
      in do { ps \<leftarrow> project_rows x cols (map snd out) (order_rows x cols ob rs);
              Some (QRows ns (limit_rows (number_usize lim) (number_usize off)
                     (order_output x cmp_cell ns ob ps))) })"

definition select_joined :: "query crates \<Rightarrow> engine \<Rightarrow> string \<Rightarrow> select \<Rightarrow> query order_kind option \<Rightarrow>
    query expr option \<Rightarrow> query expr option \<Rightarrow> query_result option" where
  "select_joined x e db s ob lim off =
     (case sel_from s of
        [] \<Rightarrow> None
      | (rel, joins) # _ \<Rightarrow>
          let (bdb, bt) = qualified_name (trim_char backtick) db (factor_name x rel) in
          case find_table bdb bt (no_such_table bt) e of
            Inl err \<Rightarrow> Some err
          | Inr tab \<Rightarrow>
              do { joined \<leftarrow> join_all x db e joins (columns tab, rows tab);
                   case joined of
                     Inl err \<Rightarrow> Some err
                   | Inr (cols, rs) \<Rightarrow>
                       do { rs \<leftarrow> where_rows x cols (selection s) rs;
                            if sel_group_by s \<noteq> GroupAll \<and> sel_group_by s \<noteq> GroupExprs []
                            then joined_groups x cols (projection s) (sel_group_by s) ob lim rs
                            else joined_rows x cols (projection s) ob lim off rs } })"

end
