(* ===== verification/Windows.thy ===== *)
theory Windows
  imports Joins
begin

text \<open>
  The window functions of src/engine.rs: a pass over the projected text rows that overwrites the
  columns of the items with an OVER clause. The partitions of the code's hash map are disjoint and
  each one is read and written on its own, so the model takes them per row.
\<close>

record win_item =
  win_col :: nat
  win_fname :: string
  pb_cols :: "string list"
  ob_cols :: "(string \<times> bool) list"

definition win_item_of :: "'q crates \<Rightarrow> nat \<times> 'q expr \<Rightarrow> win_item option" where
  "win_item_of x ie =
     (case snd ie of
        EFunction name _ _ _ (Some (pb, ob)) \<Rightarrow>
          Some \<lparr> win_col = fst ie, win_fname = to_upper name, pb_cols = map (show_expr x) pb,
                 ob_cols = map (\<lambda>(e, asc). (show_expr x e, asc \<noteq> Some False)) ob \<rparr>
      | _ \<Rightarrow> None)"

definition named_text :: "string list \<Rightarrow> string option list \<Rightarrow> string \<Rightarrow> string" where
  "named_text ns r c =
     default_str (Option.bind (name_position ns c) (\<lambda>i. Option.bind (vec_get r i) id))"

definition partition_key :: "string list \<Rightarrow> win_item \<Rightarrow> string option list \<Rightarrow> string" where
  "partition_key ns w r = join [CHR 0x00] (map (named_text ns r) (pb_cols w))"

fun cmp_window :: "string list \<Rightarrow> (string \<times> bool) list \<Rightarrow> string option list \<Rightarrow> string option list \<Rightarrow> ordering" where
  "cmp_window ns [] a b = Equal"
| "cmp_window ns ((c, asc) # obs) a b =
     (let ord = cmp_float_text (named_text ns a c) (named_text ns b c);
          ord = (if asc then ord else rev_ord ord)
      in if ord \<noteq> Equal then ord else cmp_window ns obs a b)"

text \<open>The partition of a row, in the order of OVER (ORDER BY ...).\<close>

definition partition_of :: "string list \<Rightarrow> win_item \<Rightarrow> string option list list \<Rightarrow> nat \<Rightarrow> nat list" where
  "partition_of ns w rs i =
     (let is = filter (\<lambda>j. partition_key ns w (rs ! j) = partition_key ns w (rs ! i)) [0..<length rs]
      in if ob_cols w = [] then is else sort_by (\<lambda>a b. cmp_window ns (ob_cols w) (rs ! a) (rs ! b)) is)"

definition row_rank :: "nat list \<Rightarrow> nat \<Rightarrow> nat" where
  "row_rank is i = (case position (\<lambda>j. j = i) is of Some p \<Rightarrow> p + 1 | None \<Rightarrow> 0)"

definition partition_floats :: "win_item \<Rightarrow> string option list list \<Rightarrow> nat list \<Rightarrow> f64 list" where
  "partition_floats w rs is =
     List.map_filter (\<lambda>i. Option.bind (Option.bind (vec_get (rs ! i) (win_col w)) id) f64_parse) is"

definition f64_eq :: "f64 \<Rightarrow> f64 \<Rightarrow> bool" where
  "f64_eq a b \<longleftrightarrow> f64_partial_cmp a b = Some Equal"

definition window_value :: "'q crates \<Rightarrow> string list \<Rightarrow> win_item \<Rightarrow> string option list list \<Rightarrow> nat \<Rightarrow> string option" where
  "window_value x ns w rs i =
     (let is = partition_of ns w rs i; f = win_fname w in
      if f \<in> {''ROW_NUMBER'', ''RANK'', ''DENSE_RANK'', ''NTILE''} then Some (show_nat (row_rank is i))
      else if f = ''COUNT'' then Some (show_nat (length is))
      else if f = ''SUM'' then
        (let s = f64_sum x (partition_floats w rs is)
         in Some (if f64_eq s (f64_integral RFloor s) then show_fixed 0 s else f64_show s))
      else if f = ''AVG'' then
        (let vs = partition_floats w rs is;
             avg = (if vs = [] then f64_zero False else f64_div (f64_sum x vs) (f64_of_int (int (length vs))))
         in Some (f64_show avg))
      else None)"

definition apply_window :: "'q crates \<Rightarrow> string list \<Rightarrow> win_item \<Rightarrow> string option list list \<Rightarrow> string option list list" where
  "apply_window x ns w rs =
     map (\<lambda>i. case window_value x ns w rs i of
                Some s \<Rightarrow> (rs ! i)[win_col w := Some s] | None \<Rightarrow> rs ! i) [0..<length rs]"

definition window_pass :: "'q crates \<Rightarrow> (string \<times> 'q expr) list \<Rightarrow> string option list list \<Rightarrow> string option list list" where
  "window_pass x proj rs =
     fold (\<lambda>w rs. apply_window x (map fst proj) w rs)
       (List.map_filter (win_item_of x) (List.enumerate 0 (map snd proj))) rs"

section \<open>Laws\<close>

lemma length_apply_window [simp]: "length (apply_window x ns w rs) = length rs"
  by (simp add: apply_window_def)

text \<open>Without an OVER clause the pass changes nothing.\<close>

fun windowed :: "'q expr \<Rightarrow> bool" where
  "windowed (EFunction _ _ _ _ (Some _)) = True"
| "windowed _ = False"

lemma win_item_of_None [simp]: "win_item_of x ie = None \<longleftrightarrow> \<not> windowed (snd ie)"
  by (cases "snd ie" rule: windowed.cases) (auto simp: win_item_of_def split: prod.split)

lemma map_filter_None: "(\<And>a. a \<in> set as \<Longrightarrow> f a = None) \<Longrightarrow> List.map_filter f as = []"
  by (induction as) (simp_all add: map_filter_simps)

lemma window_pass_plain:
  assumes "\<And>e. e \<in> snd ` set proj \<Longrightarrow> \<not> windowed e"
  shows "window_pass x proj rs = rs"
proof -
  have "List.map_filter (win_item_of x) (List.enumerate 0 (map snd proj)) = []"
  proof (rule map_filter_None)
    fix ie
    assume "ie \<in> set (List.enumerate 0 (map snd proj))"
    then have "snd ie \<in> snd ` set proj" by (metis list.set_map set_zip_rightD enumerate_eq_zip prod.collapse)
    then show "win_item_of x ie = None" using assms by simp
  qed
  then show ?thesis by (simp add: window_pass_def)
qed

text \<open>ROW_NUMBER numbers the rows of a partition from 1: distinct ranks, none skipped.\<close>

lemma set_partition_of:
  "set (partition_of ns w rs i) = {j. j < length rs \<and> partition_key ns w (rs ! j) = partition_key ns w (rs ! i)}"
  by (auto simp: partition_of_def Let_def)

lemma distinct_partition_of: "distinct (partition_of ns w rs i)"
proof -
  let ?is = "filter (\<lambda>j. partition_key ns w (rs ! j) = partition_key ns w (rs ! i)) [0..<length rs]"
  have "distinct (sort_by cmp ?is)" for cmp
    using mset_eq_imp_distinct_iff [OF mset_sort_by, of cmp ?is] by simp
  then show ?thesis by (simp add: partition_of_def Let_def)
qed

lemma partition_of_same:
  "partition_key ns w (rs ! i) = partition_key ns w (rs ! j) \<Longrightarrow> partition_of ns w rs i = partition_of ns w rs j"
  by (simp add: partition_of_def)

lemma row_rank_nth: "distinct is \<Longrightarrow> p < length is \<Longrightarrow> row_rank is (is ! p) = p + 1"
proof -
  assume d: "distinct is" "p < length is"
  have "position (\<lambda>j. j = is ! p) is = Some p"
    using d
  proof (induction "is" arbitrary: p)
    case (Cons i "is")
    then show ?case by (cases p) auto
  qed simp
  then show ?thesis by (simp add: row_rank_def)
qed

lemma ranks_partition:
  "(\<lambda>j. row_rank (partition_of ns w rs i) j) ` set (partition_of ns w rs i) =
   {1..length (partition_of ns w rs i)}"
proof -
  let ?is = "partition_of ns w rs i"
  have "set ?is = nth ?is ` {0..<length ?is}"
    using nth_image [of "length ?is" ?is] by simp
  then have "row_rank ?is ` set ?is = (\<lambda>p. row_rank ?is (?is ! p)) ` {0..<length ?is}"
    by (simp add: image_image)
  also have "\<dots> = Suc ` {0..<length ?is}"
    using row_rank_nth [OF distinct_partition_of] by (intro image_cong) auto
  also have "\<dots> = {1..length ?is}" by (simp add: image_Suc_atLeastLessThan atLeastLessThanSuc_atLeastAtMost)
  finally show ?thesis .
qed

end
