(* ===== verification/Select.thy ===== *)
theory Select
  imports Windows
begin

text \<open>
  \<open>select\<close>, \<open>resolve_in_subqueries\<close> and \<open>select_prepared\<close> of src/engine.rs. A query reads the
  engine and gives a result or panics (\<open>None\<close>). The paths are tried in the order of the code:
  set operations, no FROM, a derived table, joins, aggregates, GROUP BY, expressions, and the
  columns of one table by primary key, by the SIMD scan or by the scan of the rows.
\<close>

section \<open>Results\<close>

definition text_result :: "'q crates \<Rightarrow> query_result \<Rightarrow> query_result + string list \<times> string option list list" where
  "text_result x r =
     (case r of
        QRows cols rs \<Rightarrow> Inr (cols, rs)
      | QValueRows cols rs \<Rightarrow> Inr (cols, map (map (to_display x)) rs)
      | _ \<Rightarrow> Inl r)"

definition union_results :: "'q crates \<Rightarrow> bool \<Rightarrow> query_result \<Rightarrow> query_result \<Rightarrow> query_result" where
  "union_results x all l r =
     (case text_result x l of
        Inl err \<Rightarrow> err
      | Inr (cols, ls) \<Rightarrow>
          (case text_result x r of
             Inl err \<Rightarrow> err
           | Inr (_, rs) \<Rightarrow> QRows cols (if all then ls @ rs else dedup (ls @ rs))))"

section \<open>SELECT without FROM\<close>

definition item_expr :: "'q select_item \<Rightarrow> 'q expr option" where
  "item_expr p = (case p of SelExpr e \<Rightarrow> Some e | SelAlias e _ \<Rightarrow> Some e | _ \<Rightarrow> None)"

definition shown_value :: "'q crates \<Rightarrow> 'q expr \<Rightarrow> string option option" where
  "shown_value x e =
     map_option (\<lambda>v. Some (case to_display x v of Some s \<Rightarrow> s | None \<Rightarrow> show_expr x e)) (eval_row_expr x [] [] e)"

definition nofrom_function :: "'q crates \<Rightarrow> engine \<Rightarrow> string \<Rightarrow> string \<Rightarrow> string option option" where
  "nofrom_function x e db f =
     (if f \<in> {''DATABASE'', ''SCHEMA''} then Some (if db = [] then None else Some db)
      else if f = ''VERSION'' then Some (Some ''8.0.32-RunAlexDB'')
      else if f \<in> {''USER'', ''CURRENT_USER'', ''SESSION_USER'', ''SYSTEM_USER''} then Some (Some ''root@localhost'')
      else if f = ''CONNECTION_ID'' then Some (Some ''1'')
      else if f = ''ROW_COUNT'' then Some (Some ''0'')
      else if f = ''LAST_INSERT_ID'' then Some (Some (show_u64 (last_insert_id e)))
      else None)"

definition nofrom_item :: "'q crates \<Rightarrow> engine \<Rightarrow> string \<Rightarrow> 'q select_item \<Rightarrow> string option option" where
  "nofrom_item x e db p =
     (case item_expr p of
        None \<Rightarrow> Some (Some (show_item x p))
      | Some ex \<Rightarrow>
          (case ex of
             EValue v \<Rightarrow> Some (Some (trim_char (CHR 0x27) (show_value x v)))
           | EFunction name _ _ _ _ \<Rightarrow>
               (case nofrom_function x e db (to_upper name) of
                  Some r \<Rightarrow> Some r
                | None \<Rightarrow> shown_value x ex)
           | _ \<Rightarrow> shown_value x ex))"

definition select_nofrom :: "query crates \<Rightarrow> engine \<Rightarrow> string \<Rightarrow> select \<Rightarrow> query_result option" where
  "select_nofrom x e db s =
     map_option (\<lambda>vals. QRows (shown_items x (projection s)) [vals])
       (map_panic (nofrom_item x e db) (projection s))"

section \<open>Derived tables\<close>

definition parsed_value :: "string option \<Rightarrow> Value" where
  "parsed_value v =
     (case v of
        None \<Rightarrow> Null
      | Some s \<Rightarrow>
          (case parse_i64 s of
             Some n \<Rightarrow> VInt n
           | None \<Rightarrow> (case f64_parse s of Some f \<Rightarrow> VFloat f | None \<Rightarrow> VText s)))"

definition derived_columns :: "string list \<Rightarrow> column list" where
  "derived_columns ns =
     map (\<lambda>n. \<lparr> col_name = n, col_type = CVarChar 255, nullable = True, primary_key = False \<rparr>) ns"

definition column_idents :: "column list \<Rightarrow> (string \<times> 'q expr) list" where
  "column_idents cols = map (\<lambda>c. (col_name c, EIdentifier (col_name c))) cols"

definition expr_projection :: "'q crates \<Rightarrow> column list \<Rightarrow> 'q select_item list \<Rightarrow> (string \<times> 'q expr) list" where
  "expr_projection x cols items =
     (if is_wildcard items then column_idents cols else item_exprs (expr_name x) items)"

definition select_derived :: "query crates \<Rightarrow> select \<Rightarrow> query order_kind option \<Rightarrow> query expr option \<Rightarrow>
    query expr option \<Rightarrow> query_result \<Rightarrow> query_result option" where
  "select_derived x s ob lim off inner =
     (case text_result x inner of
        Inl err \<Rightarrow> Some err
      | Inr (ns, rs) \<Rightarrow>
          let cols = derived_columns ns; out = expr_projection x cols (projection s)
          in do { rs \<leftarrow> where_rows x cols (selection s) (map (map parsed_value) rs);
                  ps \<leftarrow> project_rows x cols (map snd out) rs;
                  Some (QRows (map fst out) (limit_rows (number_usize lim) (number_usize off)
                         (order_output x cmp_number_cell (map fst out) ob ps))) })"

section \<open>One table\<close>

type_synonym 'q func_parts = "string \<times> 'q expr func_arg list option \<times> bool \<times> arg_clause list"

definition item_function :: "'q select_item \<Rightarrow> 'q func_parts option" where
  "item_function p =
     (case item_expr p of Some (EFunction n as d cs _) \<Rightarrow> Some (n, as, d, cs) | _ \<Rightarrow> None)"

definition aggregate_names :: "string set" where
  "aggregate_names =
     {''COUNT'', ''SUM'', ''AVG'', ''MIN'', ''MAX'', ''GROUP_CONCAT'', ''STD'', ''STDDEV'', ''STDDEV_POP'',
      ''VARIANCE'', ''VAR_POP'', ''BIT_AND'', ''BIT_OR'', ''BIT_XOR''}"

definition has_group_by :: "select \<Rightarrow> bool" where
  "has_group_by s \<longleftrightarrow> sel_group_by s \<noteq> GroupAll \<and> sel_group_by s \<noteq> GroupExprs []"

definition is_aggregate_only :: "select \<Rightarrow> bool" where
  "is_aggregate_only s \<longleftrightarrow> projection s \<noteq> [] \<and> \<not> has_group_by s \<and>
     list_all (\<lambda>p. case item_function p of Some (n, _) \<Rightarrow> to_upper n \<in> aggregate_names | None \<Rightarrow> False)
       (projection s)"

definition select_aggregate :: "query crates \<Rightarrow> table \<Rightarrow> select \<Rightarrow> query_result option" where
  "select_aggregate x t s =
     map_option (\<lambda>rs. QRows (shown_items x (projection s))
         [map (\<lambda>p. case item_function p of
                Some (n, as, d, cs) \<Rightarrow> total_aggregate x (columns t) rs n as d cs | None \<Rightarrow> None)
            (projection s)])
       (where_rows x (columns t) (selection s) (rows t))"

definition group_cell :: "column list \<Rightarrow> nat list \<Rightarrow> string option list \<Rightarrow> string \<Rightarrow> string option" where
  "group_cell cols gcols k n =
     Option.bind (position (\<lambda>c. eq_ignore_case (col_name (cols ! c)) n) gcols) (\<lambda>p. Option.bind (vec_get k p) id)"

definition group_item :: "'q crates \<Rightarrow> column list \<Rightarrow> nat list \<Rightarrow> string option list \<Rightarrow> row list \<Rightarrow>
    'q select_item \<Rightarrow> string option" where
  "group_item x cols gcols k rs p =
     (case item_function p of
        Some (n, as, d, cs) \<Rightarrow> group_aggregate x cols rs n as d cs
      | None \<Rightarrow>
          (case p of
             SelExpr e \<Rightarrow> Option.bind (group_name e) (group_cell cols gcols k)
           | _ \<Rightarrow> None))"

definition group_out :: "query crates \<Rightarrow> column list \<Rightarrow> nat list \<Rightarrow> select \<Rightarrow>
    (string option list \<times> row list) list \<Rightarrow> string option list list option" where
  "group_out x cols gcols s groups =
     map_option (map (\<lambda>(k, rs). map (group_item x cols gcols k rs) (projection s)))
       (filter_panic (\<lambda>(k, rs). case having s of
            Some h \<Rightarrow> eval_having_agg x rs cols (alias_map (projection s)) h
          | None \<Rightarrow> Some True) groups)"

definition select_groups :: "query crates \<Rightarrow> table \<Rightarrow> nat list \<Rightarrow> select \<Rightarrow> query_result option" where
  "select_groups x t gcols s =
     do { rs \<leftarrow> where_rows x (columns t) (selection s) (rows t);
          out \<leftarrow> group_out x (columns t) gcols s (group_rows (group_key x gcols) rs);
          Some (QRows (shown_items x (projection s)) out) }"

definition is_plain_col :: "'q select_item \<Rightarrow> bool" where
  "is_plain_col p =
     (case item_expr p of Some (EIdentifier _) \<Rightarrow> True | Some (ECompoundIdentifier _) \<Rightarrow> True
      | Some _ \<Rightarrow> False | None \<Rightarrow> True)"

definition select_exprs :: "query crates \<Rightarrow> table \<Rightarrow> select \<Rightarrow> query order_kind option \<Rightarrow>
    query expr option \<Rightarrow> query expr option \<Rightarrow> query_result option" where
  "select_exprs x t s ob lim off =
     (let proj = expr_projection x (columns t) (projection s); ns = map fst proj
      in do { rs \<leftarrow> where_rows x (columns t) (selection s) (rows t);
              ps \<leftarrow> project_rows x (columns t) (map snd proj) rs;
              Some (QRows ns (limit_rows (number_usize lim) (number_usize off)
                     (order_output x cmp_cell ns ob (window_pass x proj ps)))) })"

definition column_item :: "'q select_item \<Rightarrow> (string \<times> string) option" where
  "column_item p =
     (case p of
        SelExpr e \<Rightarrow> map_option (\<lambda>n. (n, n)) (group_name e)
      | SelAlias (EIdentifier n) a \<Rightarrow> Some (a, n)
      | _ \<Rightarrow> None)"

definition projected_columns :: "column list \<Rightarrow> 'q select_item list \<Rightarrow> (string \<times> nat) list" where
  "projected_columns cols items =
     (if is_wildcard items then map (\<lambda>(i, c). (col_name c, i)) (List.enumerate 0 cols)
      else List.map_filter (\<lambda>p. Option.bind (column_item p)
             (\<lambda>(out, n). map_option (\<lambda>i. (out, i)) (col_position cols n))) items)"

definition row_cells :: "'q crates \<Rightarrow> (string \<times> nat) list \<Rightarrow> row \<Rightarrow> string option list" where
  "row_cells x pcs r = map (\<lambda>(_, i). display_at x r i) pcs"

definition row_values :: "(string \<times> nat) list \<Rightarrow> row \<Rightarrow> Value list" where
  "row_values pcs r = map (\<lambda>(_, i). cell_or_null r (Some i)) pcs"

definition pk_row :: "table \<Rightarrow> string \<Rightarrow> row list" where
  "pk_row t k = (case pk_index t k of Some ri \<Rightarrow> (case vec_get (rows t) ri of Some r \<Rightarrow> [r] | None \<Rightarrow> [])
                 | None \<Rightarrow> [])"

definition source_rows :: "query crates \<Rightarrow> bool \<Rightarrow> table \<Rightarrow> query expr option \<Rightarrow> row list option" where
  "source_rows x avx2 t w =
     (case Option.bind w (try_simd_scan avx2 t) of
        Some is \<Rightarrow> Some (List.map_filter (vec_get (rows t)) is)
      | None \<Rightarrow> where_rows x (columns t) w (rows t))"

definition select_columns :: "query crates \<Rightarrow> bool \<Rightarrow> table \<Rightarrow> select \<Rightarrow> query order_kind option \<Rightarrow>
    query expr option \<Rightarrow> query expr option \<Rightarrow> query_result option" where
  "select_columns x avx2 t s ob lim off =
     (let pcs = projected_columns (columns t) (projection s); ns = map fst pcs
      in do { key \<leftarrow> pk_eq_key t (selection s);
              case key of
                Some k \<Rightarrow> Some (QRows ns (map (row_cells x pcs) (pk_row t k)))
              | None \<Rightarrow>
                  do { src \<leftarrow> source_rows x avx2 t (selection s);
                       if ob = None \<and> lim = None \<and> off = None
                       then Some (QValueRows ns (map (row_values pcs) src))
                       else
                         let rs = limit_rows (shown_usize x lim) (shown_usize x off)
                                    (map (row_cells x pcs) (order_rows x (columns t) ob src))
                         in Some (QRows ns (if sel_distinct s then keep_first {} rs else rs)) } })"

definition select_table :: "query crates \<Rightarrow> bool \<Rightarrow> engine \<Rightarrow> string \<Rightarrow> string \<Rightarrow> select \<Rightarrow>
    query order_kind option \<Rightarrow> query expr option \<Rightarrow> query expr option \<Rightarrow> query_result option" where
  "select_table x avx2 e db tn s ob lim off =
     (case find_table db tn (no_table db tn) e of
        Inl err \<Rightarrow> Some err
      | Inr t \<Rightarrow>
          let gcols = group_columns (col_position (columns t)) (sel_group_by s)
          in if is_aggregate_only s then select_aggregate x t s
             else if gcols \<noteq> [] then select_groups x t gcols s
             else if \<not> list_all is_plain_col (projection s) then select_exprs x t s ob lim off
             else select_columns x avx2 t s ob lim off)"

section \<open>Queries and their subqueries\<close>

definition text_literal :: "string \<Rightarrow> sql_value" where
  "text_literal s = (if parse_i64 s \<noteq> None then SNumber s else SSingleQuotedString s)"

definition value_literal :: "Value \<Rightarrow> sql_value" where
  "value_literal v =
     (case v of
        VInt n \<Rightarrow> SNumber (show_i64 n)
      | VText s \<Rightarrow> SSingleQuotedString s
      | VFloat f \<Rightarrow> SNumber (f64_show f)
      | _ \<Rightarrow> SNull)"

definition subquery_list :: "query_result \<Rightarrow> query expr list" where
  "subquery_list r =
     (case r of
        QRows _ rs \<Rightarrow> List.map_filter (\<lambda>r. Option.bind (vec_get r 0) (map_option (\<lambda>s. EValue (text_literal s)))) rs
      | QValueRows _ rs \<Rightarrow> List.map_filter (\<lambda>r. map_option (\<lambda>v. EValue (value_literal v)) (vec_get r 0)) rs
      | _ \<Rightarrow> [])"

definition scalar_subquery :: "'q crates \<Rightarrow> query_result \<Rightarrow> query expr" where
  "scalar_subquery x r =
     EValue (case (case r of
                     QRows _ (r # _) \<Rightarrow> Option.bind (vec_get r 0) id
                   | QValueRows _ (r # _) \<Rightarrow> Option.bind (vec_get r 0) (to_display x)
                   | _ \<Rightarrow> None) of
               None \<Rightarrow> SNull | Some s \<Rightarrow> text_literal s)"

definition select_from :: "query crates \<Rightarrow> bool \<Rightarrow> engine \<Rightarrow> string \<Rightarrow> string \<Rightarrow> bool \<Rightarrow> select \<Rightarrow>
    query order_kind option \<Rightarrow> query expr option \<Rightarrow> query expr option \<Rightarrow> query_result option" where
  "select_from x avx2 e db tn joined s ob lim off =
     (if joined then select_joined x e db s ob lim off
      else select_table x avx2 e db tn s ob lim off)"

lemma size_options:
  "2 < size_option f a + (size_option g b + (size_option h c + (n :: nat)))"
  by (cases a; cases b; cases c) simp_all

function select :: "query crates \<Rightarrow> bool \<Rightarrow> engine \<Rightarrow> string \<Rightarrow> query \<Rightarrow> query_result option"
and resolve_in_subqueries :: "query crates \<Rightarrow> bool \<Rightarrow> engine \<Rightarrow> string \<Rightarrow> query expr \<Rightarrow> query expr option"
where
  "select x avx2 e db (Query (SetOperation all l r) ob lim off) =
     do { lr \<leftarrow> select x avx2 e db (Query l None None None);
          rr \<leftarrow> select x avx2 e db (Query r None None None);
          Some (union_results x all lr rr) }"
| "select x avx2 e db (Query (SetSelect (Select dis items [] w h g)) ob lim off) =
     select_nofrom x e db (Select dis items [] w h g)"
| "select x avx2 e db (Query (SetSelect (Select dis items ((FDerived q, js) # fs) w h g)) ob lim off) =
     do { r \<leftarrow> select x avx2 e db q;
          select_derived x (Select dis items ((FDerived q, js) # fs) w h g) ob lim off r }"
| "select x avx2 e db (Query (SetSelect (Select dis items ((FTable n a, js) # fs) w h g)) ob lim off) =
     (let (db', tn) = qualified_name (trim_char backtick) db (show_factor x (FTable n a))
      in do { w' \<leftarrow> (case w of None \<Rightarrow> Some None
                    | Some c \<Rightarrow> map_option Some (resolve_in_subqueries x avx2 e db' c));
              select_from x avx2 e db' tn (js \<noteq> []) (Select dis items ((FTable n a, js) # fs) w' h g) ob lim off })"
| "select x avx2 e db (Query (SetSelect (Select dis items ((FOther k, js) # fs) w h g)) ob lim off) =
     (let (db', tn) = qualified_name (trim_char backtick) db (show_factor x (FOther k))
      in do { w' \<leftarrow> (case w of None \<Rightarrow> Some None
                    | Some c \<Rightarrow> map_option Some (resolve_in_subqueries x avx2 e db' c));
              select_from x avx2 e db' tn (js \<noteq> []) (Select dis items ((FOther k, js) # fs) w' h g) ob lim off })"
| "select x avx2 e db (Query (SetValues vs) ob lim off) = Some (QErr 1295 ''Complex SELECT not yet supported'')"
| "select x avx2 e db (Query SetOther ob lim off) = Some (QErr 1295 ''Complex SELECT not yet supported'')"
| "resolve_in_subqueries x avx2 e db c =
     (case c of
        EInSubquery inner q neg \<Rightarrow>
          map_option (\<lambda>r. EInList inner (subquery_list r) neg) (select x avx2 e db q)
      | EBinaryOp l op r \<Rightarrow>
          do { l \<leftarrow> resolve_in_subqueries x avx2 e db l;
               r \<leftarrow> resolve_in_subqueries x avx2 e db r;
               Some (EBinaryOp l op r) }
      | EUnaryOp op c' \<Rightarrow> map_option (EUnaryOp op) (resolve_in_subqueries x avx2 e db c')
      | ESubquery q \<Rightarrow> map_option (scalar_subquery x) (select x avx2 e db q)
      | ENested c' \<Rightarrow> map_option ENested (resolve_in_subqueries x avx2 e db c')
      | _ \<Rightarrow> Some c)"
  by pat_completeness auto

termination
  by (relation "measure (case_sum (\<lambda>(x, avx2, e, db, q). size q) (\<lambda>(x, avx2, e, db, c). size_expr size c))")
    (auto simp: size_options)

declare resolve_in_subqueries.simps [simp del]

section \<open>Prepared SELECT\<close>

definition bound_rows :: "query crates \<Rightarrow> column list \<Rightarrow> query expr option \<Rightarrow> Value list \<Rightarrow> row list \<Rightarrow> row list option" where
  "bound_rows x cols w bound rs =
     filter_panic (\<lambda>r. case w of Some c \<Rightarrow> eval_where_bound x r cols c bound | None \<Rightarrow> Some True) rs"

definition prepared_columns :: "column list \<Rightarrow> 'q select_item list \<Rightarrow> (string \<times> nat) list" where
  "prepared_columns cols items =
     (if is_wildcard items then map (\<lambda>(i, c). (col_name c, i)) (List.enumerate 0 cols)
      else List.map_filter (\<lambda>p. case p of
             SelExpr e \<Rightarrow>
               if e = ECompoundIdentifier [] then None
               else Option.bind (group_name e) (\<lambda>n. map_option (\<lambda>i. (n, i)) (col_position cols n))
           | _ \<Rightarrow> None) items)"

definition prepared_count :: "'q select_item \<Rightarrow> row list \<Rightarrow> string option" where
  "prepared_count p rs =
     (case item_function p of
        Some (n, _) \<Rightarrow> if to_upper n = ''COUNT'' then Some (show_nat (length rs)) else None
      | None \<Rightarrow> None)"

definition select_prepared_table :: "query crates \<Rightarrow> table \<Rightarrow> select \<Rightarrow> Value list \<Rightarrow> query_result option" where
  "select_prepared_table x t s bound =
     (let pcs = prepared_columns (columns t) (projection s); ns = map fst pcs
      in do { key \<leftarrow> pk_eq_param x t [] (selection s) bound;
              case key of
                Some k \<Rightarrow> Some (QRows ns (map (row_cells x pcs) (pk_row t k)))
              | None \<Rightarrow>
                  do { rs \<leftarrow> bound_rows x (columns t) (selection s) bound (rows t);
                       Some (if projection s \<noteq> [] \<and> list_all (\<lambda>p. item_function p \<noteq> None) (projection s)
                             then QRows (map (show_item x) (projection s))
                                    [map (\<lambda>p. prepared_count p rs) (projection s)]
                             else QRows ns (map (row_cells x pcs) rs)) } })"

definition select_prepared :: "query crates \<Rightarrow> engine \<Rightarrow> string \<Rightarrow> query \<Rightarrow> Value list \<Rightarrow> query_result option" where
  "select_prepared x e db q bound =
     (case q_body q of
        SetSelect s \<Rightarrow>
          (case sel_from s of
             [] \<Rightarrow> Some (QErr 1295 ''No FROM'')
           | (rel, _) # _ \<Rightarrow>
               let (sdb, tn) = qualified_name (trim_char backtick) db (show_factor x rel) in
               case find_table sdb tn (''Table not found: '' @ tn) e of
                 Inl err \<Rightarrow> Some err
               | Inr t \<Rightarrow> select_prepared_table x t s bound)
      | _ \<Rightarrow> Some (QErr 1295 ''Complex SELECT not supported''))"

end
