(* ===== verification/Select_Laws.thy ===== *)
theory Select_Laws
  imports Select
begin

text \<open>
  What the query paths give: the primary-key path and the SIMD path read the rows the scan would
  read, an ordered result is a sorted permutation cut to its limit, a join is the matching pairs
  (and for a LEFT JOIN the unmatched rows padded), the groups of a query partition its rows.
\<close>

section \<open>Reading one table\<close>

lemma where_rows_filter:
  assumes "\<And>r. r \<in> set rs \<Longrightarrow> eval_opt_where x r cols w \<noteq> None"
  shows "where_rows x cols w rs = Some (filter (\<lambda>r. eval_opt_where x r cols w = Some True) rs)"
  using assms
proof (induction rs)
  case (Cons r rs)
  obtain b where "eval_opt_where x r cols w = Some b" using Cons.prems [of r] by auto
  moreover have "where_rows x cols w rs = Some (filter (\<lambda>r. eval_opt_where x r cols w = Some True) rs)"
    using Cons by simp
  ultimately show ?case by (simp add: where_rows_def)
qed (simp add: where_rows_def)

lemma where_rows_Some:
  "where_rows x cols w rs = Some rs' \<Longrightarrow> rs' = filter (\<lambda>r. eval_opt_where x r cols w = Some True) rs"
  by (induction rs arbitrary: rs') (auto simp: where_rows_def bind_eq_Some_conv split: if_splits)

lemma filter_one:
  assumes "i < length rs" "\<And>j. j < length rs \<Longrightarrow> P (rs ! j) \<longleftrightarrow> j = i"
  shows "filter P rs = [rs ! i]"
proof -
  have "filter P (take i rs) = []" "filter P (drop (Suc i) rs) = []"
    using assms by (auto simp: filter_empty_conv in_set_conv_nth)
  moreover have "filter P rs = filter P (take i rs @ [rs ! i] @ drop (Suc i) rs)"
    using assms(1) by (simp add: id_take_nth_drop [symmetric])
  ultimately show ?thesis using assms by simp
qed

lemma pk_row_scan:
  assumes "pk_query c k w" "int_keyed c p t" "index_ok x t"
  shows "where_rows x (columns t) (Some w) (rows t) = Some (pk_row t (show_i64 k))"
proof -
  have t: "pk_col_idx t = Some p \<and> index_ok x t" using assms(2,3) by (simp add: int_keyed_def)
  note cond = pk_query_where [OF assms(1,2)]
  have "where_rows x (columns t) (Some w) (rows t) =
      Some (filter (\<lambda>r. row_pk_key x r p = show_i64 k) (rows t))"
    by (subst where_rows_filter) (auto simp: eval_opt_where_def cond cong: filter_cong)
  moreover have "filter (\<lambda>r. row_pk_key x r p = show_i64 k) (rows t) = pk_row t (show_i64 k)"
  proof (cases "pk_index t (show_i64 k)")
    case None
    then show ?thesis using pk.lookup_None [OF t, of "show_i64 k"]
      by (force simp: pk_row_def filter_empty_conv)
  next
    case (Some ri)
    then have "ri < length (rows t)" using pk.lookup_Some [OF t, of "show_i64 k" ri] by simp
    moreover have "row_pk_key x (rows t ! j) p = show_i64 k \<longleftrightarrow> j = ri" if "j < length (rows t)" for j
      using pk.lookup_Some [OF t, of "show_i64 k" j] Some that by auto
    ultimately show ?thesis using Some filter_one [of ri "rows t" "\<lambda>r. row_pk_key x r p = show_i64 k"]
      by (simp add: pk_row_def vec_get_def)
  qed
  ultimately show ?thesis by simp
qed

lemma simd_scan_total:
  assumes "scan_safe t e" "try_simd_scan avx2 t e = Some js"
  shows "eval_cond x r (columns t) e \<noteq> None"
proof -
  obtain l op rt where e: "e = EBinaryOp l op rt"
    using assms(2) by (cases e) (simp_all add: try_simd_scan_def)
  obtain n ci where n: "column_name l = Some n" "col_position (columns t) n = Some ci"
    using assms(2) by (auto simp: e try_simd_scan_def bind_eq_Some_conv)
  have "plain_column (columns t) l" using assms(1) by (simp add: scan_safe_def e)
  then have l: "eval_row_expr x r (columns t) l = Some (cell_or_null r (Some ci))"
    using n by (rule plain_column_value)
  have "op \<noteq> OpAnd" "op \<noteq> OpOr" "number_literal rt \<noteq> None \<or> quoted_literal rt \<noteq> None"
    using assms(2) n by (auto simp: e try_simd_scan_def bind_eq_Some_conv
        simp del: scan_i64 scan_eq_str split: option.splits if_splits)
  moreover obtain v where "eval_row_expr x r (columns t) rt = Some v"
    using calculation(3) number_literal_value [of rt _ x r "columns t"]
      quoted_literal_value [of rt _ x r "columns t"] by blast
  ultimately show ?thesis using l by (simp add: e eval_cond_compare)
qed

lemma map_nth_filter: "map (nth rs) (indices_where P rs) = filter P rs"
  by (rule map_nth_indices_where)

lemma map_filter_vec_get:
  "(\<And>i. i \<in> set js \<Longrightarrow> i < length rs) \<Longrightarrow> List.map_filter (vec_get rs) js = map (nth rs) js"
  by (induction js) (simp_all add: map_filter_simps vec_get_def)

lemma source_rows_scan:
  assumes "store_ok t" "scan_safe t e"
  shows "source_rows x avx2 t (Some e) = where_rows x (columns t) (Some e) (rows t)"
proof (cases "try_simd_scan avx2 t e")
  case (Some js)
  have "js = indices_where (\<lambda>r. eval_cond x r (columns t) e = Some True) (rows t)"
    using assms Some by (rule try_simd_scan_where)
  then have "List.map_filter (vec_get (rows t)) js =
      filter (\<lambda>r. eval_cond x r (columns t) e = Some True) (rows t)"
    using map_filter_vec_get [of js "rows t"] by (simp add: set_indices_where map_nth_filter)
  then have "source_rows x avx2 t (Some e) = Some (filter (\<lambda>r. eval_cond x r (columns t) e = Some True) (rows t))"
    using Some by (simp add: source_rows_def)
  also have "\<dots> = where_rows x (columns t) (Some e) (rows t)"
    using simd_scan_total [OF assms(2) Some] by (subst where_rows_filter) (simp_all add: eval_opt_where_def)
  finally show ?thesis .
qed (simp add: source_rows_def)

section \<open>ORDER BY\<close>

lemma order_rows_mset: "mset (order_rows x cols ob rs) = mset rs"
  by (simp add: order_rows_def)

text \<open>The columns ORDER BY names, where they hold numbers only or no numbers, order the rows.\<close>

definition order_columns :: "'q crates \<Rightarrow> column list \<Rightarrow> 'q order_kind option \<Rightarrow> (nat \<times> bool option) list" where
  "order_columns x cols ob = named_keys (\<lambda>e. col_position cols (order_column x e)) (order_keys ob)"

lemma order_rows_sorted:
  assumes "\<And>i. i \<in> fst ` set (order_columns x cols ob) \<Longrightarrow> ordered_keys (map (\<lambda>r. row_text x r i) rs)"
  shows "sorted_wrt (lex_le cmp_text (\<lambda>i r. row_text x r i) (order_columns x cols ob)) (order_rows x cols ob rs)"
  unfolding order_rows_def order_columns_def
proof (rule sort_keys_sorted)
  fix i
  assume "i \<in> fst ` set (named_keys (\<lambda>e. col_position cols (order_column x e)) (order_keys ob))"
  then show "\<exists>A. total_cmp A cmp_text \<and> (\<lambda>r. row_text x r i) ` set rs \<subseteq> A"
    using ordered_keys_total [OF assms [of i]] by (simp add: order_columns_def)
qed

text \<open>The scan path of a query over columns: what it returns is the sorted matching rows, cut.\<close>

lemma select_columns_ordered:
  assumes "store_ok t" "scan_safe t w" "pk_eq_key t (Some w) = Some None"
    and "\<And>r. r \<in> set (rows t) \<Longrightarrow> eval_cond x r (columns t) w \<noteq> None"
    and "ob \<noteq> None" "pcs = projected_columns (columns t) items"
  shows "select_columns x avx2 t (Select False items fs (Some w) h g) ob lim off =
    Some (QRows (map fst pcs) (limit_rows (shown_usize x lim) (shown_usize x off)
      (map (row_cells x pcs)
        (order_rows x (columns t) ob (filter (\<lambda>r. eval_cond x r (columns t) w = Some True) (rows t))))))"
proof -
  have "where_rows x (columns t) (Some w) (rows t) =
      Some (filter (\<lambda>r. eval_cond x r (columns t) w = Some True) (rows t))"
    using assms(4) by (subst where_rows_filter) (simp_all add: eval_opt_where_def)
  then show ?thesis
    using assms(3,5,6) source_rows_scan [OF assms(1,2), of x avx2]
    by (simp add: select_columns_def Let_def)
qed

section \<open>Joins\<close>

text \<open>The rows of the right table that match a left row, and what a left row contributes.\<close>

definition matches :: "'q crates \<Rightarrow> column list \<Rightarrow> 'q expr option \<Rightarrow> row list \<Rightarrow> row \<Rightarrow> row list" where
  "matches x cols on right l = filter (\<lambda>r. eval_opt_where x (l @ r) cols on = Some True) right"

definition join_ok :: "'q crates \<Rightarrow> column list \<Rightarrow> 'q expr option \<Rightarrow> row list \<Rightarrow> row list \<Rightarrow> bool" where
  "join_ok x cols on left right \<longleftrightarrow>
     (\<forall>l\<in>set left. \<forall>r\<in>set right. eval_opt_where x (l @ r) cols on \<noteq> None)"

lemma where_rows_joined:
  assumes "\<forall>r\<in>set right. eval_opt_where x (l @ r) cols on \<noteq> None"
  shows "where_rows x cols on (map (\<lambda>r. l @ r) right) = Some (map (\<lambda>r. l @ r) (matches x cols on right l))"
  using assms by (subst where_rows_filter) (auto simp: matches_def filter_map comp_def)

lemma join_rows_concat:
  assumes "join_ok x cols on left right"
  shows "join_rows x cols on is_left n left right = Some (concat (map (\<lambda>l.
      if matches x cols on right l = [] \<and> is_left then [l @ replicate n Null]
      else map (\<lambda>r. l @ r) (matches x cols on right l)) left))"
  using assms
proof (induction left)
  case (Cons l ls)
  then have "\<forall>r\<in>set right. eval_opt_where x (l @ r) cols on \<noteq> None" "join_ok x cols on ls right"
    by (simp_all add: join_ok_def)
  then show ?case using Cons.IH by (simp add: where_rows_joined)
qed simp

lemma join_rows_set:
  assumes "join_ok x cols on left right" "join_rows x cols on is_left n left right = Some rs"
  shows "set rs =
    {l @ r |l r. l \<in> set left \<and> r \<in> set right \<and> eval_opt_where x (l @ r) cols on = Some True} \<union>
    {l @ replicate n Null |l. is_left \<and> l \<in> set left \<and>
        (\<forall>r\<in>set right. eval_opt_where x (l @ r) cols on \<noteq> Some True)}"
proof -
  have none: "matches x cols on right l = [] \<longleftrightarrow> (\<forall>r\<in>set right. eval_opt_where x (l @ r) cols on \<noteq> Some True)" for l
    by (auto simp: matches_def filter_empty_conv)
  have some: "r \<in> set (matches x cols on right l) \<longleftrightarrow>
      r \<in> set right \<and> eval_opt_where x (l @ r) cols on = Some True" for l r
    by (auto simp: matches_def)
  show ?thesis
    using assms(2) unfolding join_rows_concat [OF assms(1)]
    by (fastforce simp: none some)
qed

lemma join_rows_cross:
  "join_rows x cols None False n left right = Some (concat (map (\<lambda>l. map (\<lambda>r. l @ r) right) left))"
  by (subst join_rows_concat) (simp_all add: join_ok_def matches_def eval_opt_where_def)

lemma join_rows_left_keeps:
  assumes "join_ok x cols on left right" "join_rows x cols on True n left right = Some rs"
  shows "\<forall>l\<in>set left. \<exists>r. l @ r \<in> set rs"
  unfolding join_rows_set [OF assms] by blast

section \<open>GROUP BY and COUNT\<close>

lemma group_insert_size:
  "sum_list (map (\<lambda>g. length (snd g)) (group_insert cmp k r gs)) = Suc (sum_list (map (\<lambda>g. length (snd g)) gs))"
  by (induction gs) (auto split: ordering.split)

lemma group_sizes: "sum_list (map (\<lambda>g. length (snd g)) (group_rows key rs)) = length rs"
proof (induction rs rule: rev_induct)
  case (snoc r rs)
  then show ?case by (simp add: group_rows_step group_insert_size)
qed (simp add: group_rows_def)

lemma filter_panic_True: "(\<And>a. f a = Some True) \<Longrightarrow> filter_panic f as = Some as"
  by (induction as) simp_all

lemma map_groups:
  "map (\<lambda>(k, g). f g) (group_rows key rs) =
   map (\<lambda>k. f (filter (\<lambda>r. key r = k) rs)) (map fst (group_rows key rs))"
  by (auto simp: group_rows_iff)

lemma group_keys: "set (map fst (group_rows key rs)) = key ` set rs"
proof -
  have "k \<in> set (map fst (group_rows key rs)) \<longleftrightarrow> (\<exists>g. (k, g) \<in> set (group_rows key rs))" for k
    by force
  then show ?thesis unfolding group_rows_iff by blast
qed

text \<open>\<open>SELECT COUNT(...) ... GROUP BY ...\<close>: one row per key, in the order of the keys.\<close>

lemma select_groups_count:
  assumes "where_rows x (columns t) w (rows t) = Some rs" "to_upper f = ''COUNT''"
  shows "select_groups x t gcols (Select d [SelExpr (EFunction f as False cs ov)] fs w None g) =
    Some (QRows (shown_items x [SelExpr (EFunction f as False cs ov)])
      (map (\<lambda>k. [Some (show_nat (length (filter (\<lambda>r. group_key x gcols r = k) rs)))])
        (map fst (group_rows (group_key x gcols) rs))))"
proof -
  have "group_item x (columns t) gcols k rs' (SelExpr (EFunction f as False cs ov)) =
      Some (show_nat (length rs'))" for k rs'
    using assms(2) by (simp add: group_item_def item_function_def item_expr_def group_aggregate_def Let_def)
  then show ?thesis
    using assms(1) unfolding map_groups [of "\<lambda>g. [Some (show_nat (length g))]", symmetric]
    by (simp add: select_groups_def group_out_def filter_panic_True split: prod.split)
qed

section \<open>HAVING\<close>

lemma having_value_step:
  "eval_having_agg_val x rs cols als (EIdentifier n) =
     (case als (to_upper n) of
        Some e \<Rightarrow> eval_having_agg_val x rs cols als e | None \<Rightarrow> Some (first_cell cols rs n))"
  by (subst eval_having_agg_val.simps) simp

lemma having_value_leaf:
  "(\<And>n. e \<noteq> EIdentifier n) \<Longrightarrow> \<exists>v. eval_having_agg_val x rs cols als e = Some v"
  by (subst eval_having_agg_val.simps) (auto split: expr.split)

text \<open>When the lookup of an alias ends: at a name that is no alias, or at an alias of no name.\<close>

inductive alias_ends :: "'q aliases \<Rightarrow> string \<Rightarrow> bool" for als where
  no_alias: "als (to_upper n) = None \<Longrightarrow> alias_ends als n"
| other: "als (to_upper n) = Some e \<Longrightarrow> (\<And>m. e \<noteq> EIdentifier m) \<Longrightarrow> alias_ends als n"
| chain: "als (to_upper n) = Some (EIdentifier m) \<Longrightarrow> alias_ends als m \<Longrightarrow> alias_ends als n"

lemma having_value_ends:
  assumes "alias_ends als n"
  shows "eval_having_agg_val x rs cols als (EIdentifier n) \<noteq> None"
  using assms
proof induction
  case (other n e)
  then show ?case using having_value_leaf [of e x rs cols als] by (auto simp: having_value_step)
qed (simp_all add: having_value_step)

lemma alias_step:
  assumes "als (to_upper m) = Some e" "\<And>k. e = EIdentifier k \<Longrightarrow> alias_ends als k"
  shows "alias_ends als m"
  using assms by (cases "\<exists>k. e = EIdentifier k") (auto intro: alias_ends.intros)

lemma having_value_endless:
  fixes als :: "'q aliases"
  assumes "eval_having_agg_val x rs cols als (EIdentifier n) = Some v"
  shows "alias_ends als n"
proof -
  note ind = eval_having_agg_val.raw_induct
    [where P = "\<lambda>_ _ _ als' e _. als' = als \<longrightarrow> (\<forall>m. e = EIdentifier m \<longrightarrow> alias_ends als m)" and
      xa = "((((x, rs), cols), als), EIdentifier n)", unfolded prod.case]
  have "als = als \<longrightarrow> (\<forall>m. EIdentifier n = (EIdentifier m :: 'q expr) \<longrightarrow> alias_ends als m)"
  proof (rule ind [OF _ assms], goal_cases)
    case (1 f x rs cols als' e v)
    have "alias_ends als m" if eq: "als' = als" "e = EIdentifier m" for m
    proof (cases "als (to_upper m)")
      case (Some e')
      then have "f x rs cols als e' = Some v" using 1(2) eq by simp
      from 1(1) [OF this] show ?thesis using Some by (blast intro: alias_step)
    qed (rule alias_ends.no_alias)
    then show ?case by blast
  qed
  then show ?thesis by blast
qed

lemma having_value_iff:
  "eval_having_agg_val x rs cols als (EIdentifier n) \<noteq> None \<longleftrightarrow> alias_ends als n"
  using having_value_ends having_value_endless by (metis not_None_eq)

text \<open>So it returns when no alias names an alias, and an alias that names itself is looked up for ever.\<close>

lemma having_value_returns:
  assumes "\<And>a n. als a \<noteq> Some (EIdentifier n)"
  shows "\<exists>v. eval_having_agg_val x rs cols als e = Some v"
proof (cases "\<exists>n. e = EIdentifier n")
  case True
  then obtain n where e: "e = EIdentifier n" by blast
  have "alias_ends als n" using assms [of "to_upper n"]
    by (cases "als (to_upper n)") (auto intro: alias_ends.intros)
  then show ?thesis using having_value_iff [of x rs cols als n] e by blast
qed (blast intro: having_value_leaf)

lemma having_self_alias:
  assumes "als (to_upper n) = Some (EIdentifier n)"
  shows "eval_having_agg_val x rs cols als (EIdentifier n) = None"
proof -
  have "alias_ends als m \<Longrightarrow> to_upper m \<noteq> to_upper n" for m
    by (induction rule: alias_ends.induct) (use assms in \<open>auto, blast\<close>)
  then show ?thesis using having_value_iff by blast
qed

section \<open>The whole result\<close>

lemma length_limit_rows: "length (limit_rows lim off as) =
    (case lim of Some k \<Rightarrow> min k (length as - or_zero off) | None \<Rightarrow> length as - or_zero off)"
  by (simp add: limit_rows_def take_opt_def min.commute split: option.split)

end
