(* ===== verification/Result_Shape.thy ===== *)
theory Result_Shape
  imports Select_Laws
begin

text \<open>
  The shape of results: every row of a result has a cell for each of its column names, which the
  encoders of the protocol rely on. It holds of every query but a set operation, which takes the
  names of its left side and the rows of both.
\<close>

definition shaped :: "query_result \<Rightarrow> bool" where
  "shaped r \<longleftrightarrow>
     (case r of
        QRows ns rs \<Rightarrow> \<forall>row\<in>set rs. length row = length ns
      | QValueRows ns rs \<Rightarrow> \<forall>row\<in>set rs. length row = length ns
      | _ \<Rightarrow> True)"

lemma shaped_simps [simp]:
  "shaped (QRows ns rs) \<longleftrightarrow> (\<forall>row\<in>set rs. length row = length ns)"
  "shaped (QValueRows ns vs) \<longleftrightarrow> (\<forall>row\<in>set vs. length row = length ns)"
  "shaped (QOk n i)" "shaped (QErr c m)"
  by (simp_all add: shaped_def)

section \<open>What the parts of a query do to the rows\<close>

lemma map_panic_set: "map_panic f xs = Some ys \<Longrightarrow> y \<in> set ys \<Longrightarrow> \<exists>x\<in>set xs. f x = Some y"
  by (induction xs arbitrary: ys) (auto simp: bind_eq_Some_conv)

lemma project_rows_width: "project_rows x cols es rs = Some ps \<Longrightarrow> row \<in> set ps \<Longrightarrow> length row = length es"
  unfolding project_rows_def
  by (drule (1) map_panic_set) (auto simp: project_row_def dest: map_panic_length)

lemma set_sort_keys [simp]: "set (sort_keys pos cmp ks rs) = set rs"
  by (rule mset_eq_setD [OF mset_sort_keys])

lemma set_order_output [simp]: "set (order_output x cmp ns ob rs) = set rs"
  by (simp add: order_output_def)

lemma set_limit_rows: "row \<in> set (limit_rows lim off rs) \<Longrightarrow> row \<in> set rs"
  by (auto simp: limit_rows_def take_opt_def dest: in_set_takeD in_set_dropD split: option.splits)

lemma set_take_opt: "row \<in> set (take_opt n rs) \<Longrightarrow> row \<in> set rs"
  by (auto simp: take_opt_def dest: in_set_takeD split: option.splits)

lemma apply_window_width:
  "(\<And>row. row \<in> set rs \<Longrightarrow> length row = n) \<Longrightarrow> row \<in> set (apply_window x ns w rs) \<Longrightarrow> length row = n"
  by (auto simp: apply_window_def split: option.splits)

lemma window_pass_width:
  assumes "\<And>row. row \<in> set rs \<Longrightarrow> length row = n" "row \<in> set (window_pass x proj rs)"
  shows "length row = n"
proof -
  have "\<forall>row\<in>set (fold (\<lambda>w rs. apply_window x ns w rs) ws rs). length row = n"
    if "\<forall>row\<in>set rs. length row = n" for ns ws and rs :: "string option list list"
    using that by (induction ws arbitrary: rs) (auto intro: apply_window_width)
  then show ?thesis using assms by (auto simp: window_pass_def)
qed

section \<open>The paths of a query\<close>

lemma nofrom_shaped: "select_nofrom x e db s = Some r \<Longrightarrow> shaped r"
  by (auto simp: select_nofrom_def shown_items_def dest: map_panic_length)

lemma text_result_shaped:
  "text_result x r = Inl r' \<Longrightarrow> shaped r'"
  "text_result x r = Inr (ns, rs) \<Longrightarrow> shaped r \<longleftrightarrow> (\<forall>row\<in>set rs. length row = length ns)"
  by (auto simp: text_result_def split: query_result.splits)

text \<open>Rows of a projection, sorted and cut.\<close>

lemma projected_shaped:
  assumes "project_rows x cols (map snd out) rs = Some ps"
  shows "shaped (QRows (map fst out) (limit_rows lim off (order_output x cmp ns ob ps)))"
    and "shaped (QRows (map fst out) (limit_rows lim off (order_output x cmp ns ob (window_pass x proj ps))))"
proof -
  have w: "length row = length out" if "row \<in> set ps" for row using project_rows_width [OF assms that] by simp
  then show "shaped (QRows (map fst out) (limit_rows lim off (order_output x cmp ns ob ps)))"
    by (auto dest: set_limit_rows)
  show "shaped (QRows (map fst out) (limit_rows lim off (order_output x cmp ns ob (window_pass x proj ps))))"
    using window_pass_width [of ps "length out" _ x proj] w by (auto dest: set_limit_rows)
qed

lemma derived_shaped: "select_derived x s ob lim off inner = Some r \<Longrightarrow> shaped r"
  by (auto simp: select_derived_def Let_def bind_eq_Some_conv simp del: shaped_simps split: sum.splits prod.splits
      intro: text_result_shaped(1) projected_shaped)

lemma aggregate_shaped: "select_aggregate x t s = Some r \<Longrightarrow> shaped r"
  by (auto simp: select_aggregate_def shown_items_def)

lemma groups_shaped: "select_groups x t gcols s = Some r \<Longrightarrow> shaped r"
  by (auto simp: select_groups_def group_out_def shown_items_def bind_eq_Some_conv)

lemma exprs_shaped: "select_exprs x t s ob lim off = Some r \<Longrightarrow> shaped r"
  by (auto simp: select_exprs_def Let_def bind_eq_Some_conv simp del: shaped_simps intro: projected_shaped)

lemma cells_width [simp]: "length (row_cells x pcs r) = length pcs" "length (row_values pcs r) = length pcs"
  by (simp_all add: row_cells_def row_values_def)

lemma columns_shaped: "select_columns x avx2 t s ob lim off = Some r \<Longrightarrow> shaped r"
  by (auto simp: select_columns_def Let_def bind_eq_Some_conv set_keep_first split: option.splits if_splits
      dest!: set_limit_rows)

lemma find_table_shaped: "find_table db t msg e = Inl r \<Longrightarrow> shaped r"
  by (auto simp: find_table_def split: option.splits)

lemma table_shaped: "select_table x avx2 e db tn s ob lim off = Some r \<Longrightarrow> shaped r"
  by (auto simp: select_table_def Let_def split: sum.splits if_splits
      dest: find_table_shaped aggregate_shaped groups_shaped exprs_shaped columns_shaped)

section \<open>Joins\<close>

lemma join_all_shaped: "join_all x db e js (cols, rs) = Some (Inl r) \<Longrightarrow> shaped r"
  by (induction x db e js "(cols, rs)" arbitrary: cols rs rule: join_all.induct)
    (auto simp: Let_def bind_eq_Some_conv split: prod.splits sum.splits dest: find_table_shaped)

lemma joined_group_rows_width:
  "map_panic (joined_group_row x cols gcols items) gs = Some out \<Longrightarrow> row \<in> set out \<Longrightarrow> length row = length items"
  by (drule (1) map_panic_set) (auto simp: joined_group_row_def dest: map_panic_length)

lemma joined_groups_shaped:
  assumes "joined_groups x cols items g ob lim rs = Some r"
  shows "shaped r"
proof -
  let ?gcols = "group_columns (\<lambda>n. position (joined_match n) cols) g"
  obtain out where out: "map_panic (joined_group_row x cols ?gcols items) (group_rows (group_key x ?gcols) rs) = Some out"
    and r: "r = QRows (joined_names x items) (take_opt (number_usize lim) (order_output x cmp_number_cell (joined_names x items) ob out))"
    using assms by (auto simp: joined_groups_def Let_def bind_eq_Some_conv)
  show ?thesis using joined_group_rows_width [OF out] by (auto simp: r joined_names_def dest: set_take_opt)
qed

lemma joined_rows_shaped: "joined_rows x cols items ob lim off rs = Some r \<Longrightarrow> shaped r"
  by (auto simp: joined_rows_def Let_def bind_eq_Some_conv simp del: shaped_simps intro: projected_shaped)

lemma joined_shaped:
  assumes "select_joined x e db s ob lim off = Some r"
  shows "shaped r"
proof -
  obtain rel js fs where f: "sel_from s = (rel, js) # fs"
    using assms by (auto simp: select_joined_def split: list.splits)
  obtain bdb bt where q: "qualified_name (trim_char backtick) db (factor_name x rel) = (bdb, bt)" by fastforce
  show ?thesis
  proof (cases "find_table bdb bt (no_such_table bt) e")
    case (Inl err)
    then show ?thesis using assms f q by (auto simp: select_joined_def dest: find_table_shaped)
  next
    case (Inr tab)
    then obtain j where j: "join_all x db e js (columns tab, rows tab) = Some j"
      using assms f q by (auto simp: select_joined_def bind_eq_Some_conv)
    show ?thesis
    proof (cases j)
      case (Inl err)
      then show ?thesis using assms f q Inr j by (auto simp: select_joined_def dest: join_all_shaped)
    next
      case (Inr cr)
      then show ?thesis using assms f q \<open>find_table bdb bt (no_such_table bt) e = Inr tab\<close> j
        by (cases cr) (auto simp: select_joined_def bind_eq_Some_conv split: if_splits
            dest: joined_groups_shaped joined_rows_shaped)
    qed
  qed
qed

section \<open>Whole queries\<close>

lemma from_shaped: "select_from x avx2 e db tn joined s ob lim off = Some r \<Longrightarrow> shaped r"
  by (auto simp: select_from_def split: if_splits dest: joined_shaped table_shaped)

lemma select_shaped:
  assumes "select x avx2 e db (Query body ob lim off) = Some r" "\<And>all l r. body \<noteq> SetOperation all l r"
  shows "shaped r"
proof (cases body)
  case (SetSelect s)
  obtain d items fs w h g where s: "s = Select d items fs w h g" by (cases s)
  show ?thesis
  proof (cases fs)
    case Nil
    then show ?thesis using assms(1) SetSelect s by (auto dest: nofrom_shaped)
  next
    case (Cons fj fs')
    obtain f js where fj: "fj = (f, js)" by fastforce
    then show ?thesis using assms(1) SetSelect s Cons
      by (cases f) (auto simp: bind_eq_Some_conv split: prod.splits dest: derived_shaped from_shaped)
  qed
qed (use assms in auto)

text \<open>A set operation takes the names of its left side: its rows fit them when those of the right side do.\<close>

lemma union_shaped:
  assumes "shaped l" "shaped r" "text_result x l = Inr (ns, ls)" "text_result x r = Inr (ns', rs)"
  shows "shaped (union_results x all l r) \<longleftrightarrow> rs = [] \<or> length ns' = length ns"
  using assms text_result_shaped(2) [OF assms(3)] text_result_shaped(2) [OF assms(4)]
  by (cases rs) (auto simp: union_results_def)

text \<open>UNION removes a row that is equal to the one in front of it, and no other.\<close>

lemma union_duplicates: "a \<noteq> b \<Longrightarrow> dedup [a, b, a] = [a, b, a]"
  by simp

end
