(* ===== verification/Stale.thy ===== *)
theory Stale
  imports Select_Laws
begin

text \<open>
  What the paths by key and by SIMD miss. An UPDATE by scan (\<open>Engine::update\<close> of src/engine.rs) moves
  neither the index nor the column stores, one by key writes the stores but not the index, an INSERT
  does not ask whether its key is there, and the stores hold 0 and the empty text for NULL. The lemmas
  say what later statements then find: rows by their old values, and not the rows with the new ones;
  and what an UPDATE that panics leaves behind.
\<close>

section \<open>UPDATE by scan\<close>

lemma update_by_scan:
  assumes "pk_eq_key t sel = Some None" "update_table x asgns sel t = Some (t', n)"
  obtains rs where "t' = t\<lparr> rows := rs \<rparr>"
  using assms by (auto simp: update_table_def)

lemma rows_unread [simp]: "try_simd_scan avx2 (t\<lparr> rows := rs \<rparr>) e = try_simd_scan avx2 t e"
  by (cases t, hypsubst, unfold try_simd_scan_def table.simps, rule refl)

text \<open>A query through SIMD or the index finds the places the old rows had.\<close>

lemma scan_after_update:
  assumes "store_ok t" "scan_safe t e" "pk_eq_key t sel = Some None"
    and "update_table x asgns sel t = Some (t', n)" "try_simd_scan avx2 t' e = Some is"
  shows "is = indices_where (\<lambda>r. eval_cond x r (columns t) e = Some True) (rows t)"
    and "source_rows x avx2 t' (Some e) = Some (List.map_filter (vec_get (rows t')) is)"
    and "pk_index t' = pk_index t"
proof -
  obtain rs where t': "t' = t\<lparr> rows := rs \<rparr>" using update_by_scan [OF assms(3,4)] .
  then show "is = indices_where (\<lambda>r. eval_cond x r (columns t) e = Some True) (rows t)"
    using assms(5) by (intro try_simd_scan_where [OF assms(1,2)]) simp
  show "source_rows x avx2 t' (Some e) = Some (List.map_filter (vec_get (rows t')) is)"
    using assms(5) by (simp add: source_rows_def)
  show "pk_index t' = pk_index t" using t' by simp
qed

section \<open>UPDATE of the key\<close>

lemma assign_at_index:
  assumes "assign_at x ri asgns t = Some t'"
  shows "pk_index t' = pk_index t" "pk_col_idx t' = pk_col_idx t" "columns t' = columns t"
  using assms
  by (induction x ri asgns t rule: assign_at.induct)
    (auto simp: set_cell_def bind_eq_Some_conv split: option.splits if_splits)

lemma pk_eq_key_cong:
  "pk_col_idx t' = pk_col_idx t \<Longrightarrow> columns t' = columns t \<Longrightarrow> pk_eq_key t' sel = pk_eq_key t sel"
  by (simp add: pk_eq_key_def cong: option.case_cong)

text \<open>No statement finds a key the index does not have.\<close>

lemma unindexed_key:
  assumes "pk_eq_key t w = Some (Some k)" "pk_index t k = None"
  shows "update_table x asgns w t = Some (t, 0)" "delete_table x w t = Some (t, 0)"
    and "selection s = w \<Longrightarrow> \<exists>ns. select_columns x' avx2 t s ob lim off = Some (QRows ns [])"
  using assms by (simp_all add: update_table_def delete_table_def delete_key_def select_columns_def
      pk_row_def Let_def)

lemma rekey_row:
  assumes "pk_query c k w" "int_keyed c p t" "pk_index t (show_i64 k) = Some ri" "ri < length (rows t)"
  shows "\<exists>t'. update_table x [(c, EValue (SNumber (show_i64 k')))] (Some w) t = Some (t', 1) \<and>
    vec_get (rows t' ! ri) p = Some (VInt k') \<and> length (rows t') = length (rows t) \<and>
    pk_index t' = pk_index t \<and> pk_col_idx t' = pk_col_idx t \<and> columns t' = columns t"
proof -
  have "rows t ! ri \<in> set (rows t)" using assms(4) by simp
  then have p: "p < length (rows t ! ri)" "col_position (columns t) c = Some p"
    using assms(2) by (auto simp: int_keyed_def vec_get_Some)
  obtain t' where t': "set_cell ri p (VInt k') t = Some t'"
    "rows t' = (rows t)[ri := (rows t ! ri)[p := VInt k']]"
    using p(1) by (simp add: set_cell_def)
  then have a: "assign_at x ri [(c, EValue (SNumber (show_i64 k')))] t = Some t'"
    using p(2) by (simp add: number_to_value_def)
  then have "update_table x [(c, EValue (SNumber (show_i64 k')))] (Some w) t = Some (t', 1)"
    using pk_query_key [OF assms(1,2)] assms(3,4) by (simp add: update_table_def)
  then show ?thesis using t'(2) p(1) assms(4) assign_at_index [OF a] by (simp add: vec_get_def)
qed

text \<open>A row that an UPDATE gives a new key is there and no statement finds it by this key.\<close>

lemma rekeyed_row_lost:
  assumes "pk_query c k w" "pk_query c k' w'" "int_keyed c p t" "index_ok x t"
    and "show_i64 k \<in> set (keys_of x p (rows t))" "show_i64 k' \<notin> set (keys_of x p (rows t))"
  shows "\<exists>t'. update_table x [(c, EValue (SNumber (show_i64 k')))] (Some w) t = Some (t', 1) \<and>
    (\<exists>r\<in>set (rows t'). vec_get r p = Some (VInt k')) \<and>
    update_table x asgns (Some w') t' = Some (t', 0) \<and> delete_table x (Some w') t' = Some (t', 0) \<and>
    (selection s = Some w' \<longrightarrow> (\<exists>ns. select_columns x' avx2 t' s ob lim off = Some (QRows ns [])))"
proof -
  have t: "pk_col_idx t = Some p \<and> index_ok x t" using assms(3,4) by (simp add: int_keyed_def)
  obtain ri where ri: "pk_index t (show_i64 k) = Some ri" "ri < length (rows t)"
    using pk.lookup_None [OF t, of "show_i64 k"] pk.lookup_Some [OF t, of "show_i64 k"] assms(5)
    by (cases "pk_index t (show_i64 k)") (auto simp: keys_of_def)
  obtain t' where t': "update_table x [(c, EValue (SNumber (show_i64 k')))] (Some w) t = Some (t', 1)"
    "vec_get (rows t' ! ri) p = Some (VInt k')" "length (rows t') = length (rows t)"
    "pk_index t' = pk_index t" "pk_col_idx t' = pk_col_idx t" "columns t' = columns t"
    using rekey_row [OF assms(1,3) ri, of x k'] by blast
  have "pk_eq_key t' (Some w') = Some (Some (show_i64 k'))"
    using pk_eq_key_cong [OF t'(5,6), of "Some w'"] pk_query_key [OF assms(2,3)] by simp
  moreover have "pk_index t' (show_i64 k') = None"
    using pk.lookup_None [OF t, of "show_i64 k'"] assms(6) t'(4) by (simp add: keys_of_def)
  moreover have "rows t' ! ri \<in> set (rows t')" using ri(2) t'(3) by simp
  ultimately show ?thesis using unindexed_key [of t' "Some w'" "show_i64 k'"] t'(1,2) by blast
qed

section \<open>INSERT of a key that is there\<close>

text \<open>The plain INSERT takes a key a second time; the index then has the new row only, and when it is
  deleted by key the old one is there and is not found.\<close>

lemma duplicate_key:
  assumes "pk_col_idx t = Some p" "index_ok x t" "row_pk_key x src p \<in> set (keys_of x p (rows t))"
  shows "\<exists>t'. insert_one x False [] src t = Some t' \<and> \<not> distinct (keys_of x p (rows t')) \<and>
    mset (rows (delete_key x (row_pk_key x src p) t')) = mset (rows t) \<and>
    pk_index (delete_key x (row_pk_key x src p) t') (row_pk_key x src p) = None"
proof -
  obtain t' where t': "insert_one x False [] src t = Some t'" using insert_one_total by blast
  have rows: "rows t' = rows t @ [src]"
    using insert_one_plain [OF t'] by (simp add: built_def build_row_def)
  have ix: "pk_index t' (row_pk_key x src p) = Some (length (rows t))" "pk_col_idx t' = Some p"
    using t' assms(1) advance_auto_table [of src t]
    by (auto simp: insert_one_def build_row_def push_row_def push_stores_def push_index_def Let_def)
  show ?thesis
    using t' rows ix assms(1,3)
    by (auto simp: keys_of_def delete_key_def Let_def swap_remove_stores_def swap_remove_def)
qed

text \<open>A prepared INSERT leaves the counter where it is, so the key it gives may be given again.\<close>

lemma counter_in_use:
  assumes "auto_insert p col_map t" "r \<in> set (rows t)" "vec_get r p = Some (VInt (next_auto t))"
    and "insert_one x False col_map src t = Some t'"
  shows "\<not> distinct (keys_of x p (rows t'))"
proof -
  obtain row where row: "build_row col_map src t = (row, t\<lparr> next_auto := next_auto t + 1 \<rparr>)"
    "vec_get row p = Some (VInt (next_auto t))" by (rule build_row_auto [OF assms(1)])
  then have "rows t' = rows t @ [row]" using insert_one_plain [OF assms(4)] by (simp add: built_def)
  moreover have "row_pk_key x r p = row_pk_key x row p" using assms(3) row(2) by (simp add: row_pk_key_def)
  ultimately show ?thesis using assms(2) by (auto simp: keys_of_def intro: rev_image_eqI)
qed

section \<open>NULL in a store\<close>

lemma null_found:
  assumes "store_ok t" "col_position (columns t) c = Some ci" "vec_get (col_int_data t) ci = Some (Some st)"
    and "i < length (rows t)" "cell_or_null (rows t ! i) (Some ci) = Null"
  shows "\<exists>is. try_simd_scan avx2 t (EBinaryOp (EIdentifier c) OpEq (EValue (SNumber (show_i64 0)))) = Some is \<and> i \<in> set is"
    and "eval_cond x (rows t ! i) (columns t) (EBinaryOp (EIdentifier c) OpEq (EValue (SNumber (show_i64 0)))) = Some False"
proof -
  have "st = map (\<lambda>r. int_cell r ci) (rows t)"
    using assms(1,3) by (auto simp: store_ok_def mirrors_def vec_get_Some)
  moreover have "int_cell (rows t ! i) ci = 0" using assms(5) by (simp add: cell_cases)
  ultimately have "i \<in> set (scan_eq_i64 avx2 st 0)"
    using assms(4) by (simp add: set_indices_where)
  then show "\<exists>is. try_simd_scan avx2 t (EBinaryOp (EIdentifier c) OpEq (EValue (SNumber (show_i64 0)))) = Some is \<and> i \<in> set is"
    using assms(2,3) by (simp add: try_simd_scan_def column_name_def del: scan_i64)
  show "eval_cond x (rows t ! i) (columns t) (EBinaryOp (EIdentifier c) OpEq (EValue (SNumber (show_i64 0)))) = Some False"
    using assms(2,5) by (simp add: eval_cond_compare compare_op_def lookup_ident_def number_to_value_def)
qed

section \<open>An UPDATE that panics\<close>

text \<open>The rows an UPDATE by scan leaves behind when an expression panics: the assignments are made in
  place, row after row, and nothing takes them back.\<close>

fun assign_row_left :: "'q crates \<Rightarrow> column list \<Rightarrow> 'q assignments \<Rightarrow> row \<Rightarrow> row" where
  "assign_row_left x cols [] row = row"
| "assign_row_left x cols ((n, e) # as) row =
     (case col_position cols n of
        None \<Rightarrow> assign_row_left x cols as row
      | Some idx \<Rightarrow>
          (case eval_row_expr x row cols e of
             Some v \<Rightarrow> if idx < length row then assign_row_left x cols as (row[idx := v]) else row
           | None \<Rightarrow> row))"

fun update_scan_left :: "'q crates \<Rightarrow> column list \<Rightarrow> (row \<Rightarrow> bool option) \<Rightarrow> 'q assignments \<Rightarrow> row list \<Rightarrow> row list" where
  "update_scan_left x cols cond asgns [] = []"
| "update_scan_left x cols cond asgns (r # rs) =
     (case cond r of
        None \<Rightarrow> r # rs
      | Some False \<Rightarrow> r # update_scan_left x cols cond asgns rs
      | Some True \<Rightarrow>
          (case assign_row x cols asgns r of
             Some r' \<Rightarrow> r' # update_scan_left x cols cond asgns rs
           | None \<Rightarrow> assign_row_left x cols asgns r # rs))"

lemma assign_row_left_done: "assign_row x cols asgns r = Some r' \<Longrightarrow> assign_row_left x cols asgns r = r'"
  by (induction x cols asgns r rule: assign_row.induct)
    (auto simp: bind_eq_Some_conv split: option.splits if_splits)

lemma update_scan_left_done:
  "update_scan x cols cond asgns rs = Some (rs', n) \<Longrightarrow> update_scan_left x cols cond asgns rs = rs'"
proof (induction rs arbitrary: rs' n)
  case (Cons r rs)
  then show ?case by (cases "cond r") (auto simp: bind_eq_Some_conv split: if_splits bool.split)
qed simp

text \<open>What was done before the panic stays, what comes after it is as it was.\<close>

lemma update_not_atomic:
  assumes "update_scan x cols cond asgns rs = Some (rs', n)" "cond r = Some True" "assign_row x cols asgns r = None"
  shows "update_scan x cols cond asgns (rs @ r # rest) = None"
    and "update_scan_left x cols cond asgns (rs @ r # rest) = rs' @ assign_row_left x cols asgns r # rest"
proof -
  have "update_scan x cols cond asgns (rs @ r # rest) = None \<and>
    update_scan_left x cols cond asgns (rs @ r # rest) = rs' @ assign_row_left x cols asgns r # rest"
    using assms(1)
  proof (induction rs arbitrary: rs' n)
    case (Cons q qs)
    then obtain b q' qs' m where q: "cond q = Some b" "(if b then assign_row x cols asgns q else Some q) = Some q'"
      "update_scan x cols cond asgns qs = Some (qs', m)" "rs' = q' # qs'" by (auto simp: bind_eq_Some_conv)
    then show ?case using Cons.IH [OF q(3)] by (cases b) simp_all
  qed (use assms(2,3) in simp)
  then show "update_scan x cols cond asgns (rs @ r # rest) = None"
    "update_scan_left x cols cond asgns (rs @ r # rest) = rs' @ assign_row_left x cols asgns r # rest" by blast+
qed

end
