(* ===== verification/Auth.thy ===== *)
theory Auth
  imports Simd
begin

text \<open>
  src/auth.rs: the scramble of the handshake and the two checks of a \<open>mysql_native_password\<close>
  response, with \<open>sha1\<close> (the crate) an argument. What the proofs use of it is its length.
\<close>

section \<open>Scramble and checks\<close>

definition generate_scramble :: "u8 list \<Rightarrow> u8 list" where \<comment> \<open>from the 20 random bytes\<close>
  "generate_scramble random = map (\<lambda>b. if b = 0 then 1 else b) random"

definition xor_bytes :: "u8 list \<Rightarrow> u8 list \<Rightarrow> u8 list" where
  "xor_bytes a b = map2 xor a b"

definition verify_native_password :: "(u8 list \<Rightarrow> u8 list) \<Rightarrow> string \<Rightarrow> u8 list \<Rightarrow> u8 list \<Rightarrow> bool" where
  "verify_native_password sha1 password scramble response =
     (if response = [] then password = []
      else
        let hash1 = sha1 (as_bytes password);
            hash2 = sha1 hash1;
            expected_xor = sha1 (scramble @ hash2)
        in if length response \<noteq> 20 then False
           else xor_bytes response expected_xor = hash1)"

definition verify_native_password_hash :: "(u8 list \<Rightarrow> u8 list) \<Rightarrow> u8 list \<Rightarrow> u8 list \<Rightarrow> u8 list \<Rightarrow> bool" where
  "verify_native_password_hash sha1 hash2 scramble response =
     (if response = [] then list_all (\<lambda>b. b = 0) hash2
      else if length response \<noteq> 20 then False
      else
        let expected_xor = sha1 (scramble @ hash2);
            hash1_from_client = xor_bytes response expected_xor
        in sha1 hash1_from_client = hash2)"

definition double_sha1 :: "(u8 list \<Rightarrow> u8 list) \<Rightarrow> u8 list \<Rightarrow> u8 list" where
  "double_sha1 sha1 data = sha1 (sha1 data)"

section \<open>The client's side and what the checks decide\<close>

text \<open>What a client with the first hash of a password answers to a scramble.\<close>

definition native_response :: "(u8 list \<Rightarrow> u8 list) \<Rightarrow> u8 list \<Rightarrow> u8 list \<Rightarrow> u8 list" where
  "native_response sha1 hash1 scramble = xor_bytes hash1 (sha1 (scramble @ sha1 hash1))"

definition digest20 :: "(u8 list \<Rightarrow> u8 list) \<Rightarrow> bool" where
  "digest20 sha1 \<longleftrightarrow> (\<forall>data. length (sha1 data) = 20)"

lemma digest20D [simp]: "digest20 sha1 \<Longrightarrow> length (sha1 data) = 20"
  by (simp add: digest20_def)

lemma digest20_Nil [simp]: "digest20 sha1 \<Longrightarrow> sha1 data \<noteq> []"
  by (metis digest20D list.size(3) zero_neq_numeral)

lemma length_xor_bytes [simp]: "length (xor_bytes a b) = min (length a) (length b)"
  by (simp add: xor_bytes_def)

lemma xor_bytes_cancel:
  "length a \<le> length b \<Longrightarrow> xor_bytes (xor_bytes a b) b = a"
  by (intro nth_equalityI) (auto simp: xor_bytes_def xor.assoc)

lemma xor_bytes_swap:
  assumes "length a = length b" "length c = length b"
  shows "xor_bytes a b = c \<longleftrightarrow> a = xor_bytes c b"
  using xor_bytes_cancel [of a b] xor_bytes_cancel [of c b] assms by fastforce

lemma length_native_response [simp]:
  "digest20 sha1 \<Longrightarrow> length h = 20 \<Longrightarrow> length (native_response sha1 h scramble) = 20"
  by (simp add: native_response_def)

lemma verify_password_iff:
  assumes "digest20 sha1" "response \<noteq> []"
  shows "verify_native_password sha1 password scramble response \<longleftrightarrow>
         response = native_response sha1 (sha1 (as_bytes password)) scramble"
proof (cases "length response = 20")
  case True
  then show ?thesis
    using assms by (simp add: verify_native_password_def native_response_def Let_def xor_bytes_swap)
next
  case False
  then have "response \<noteq> native_response sha1 (sha1 (as_bytes password)) scramble"
    using assms(1) by auto
  then show ?thesis using False assms by (simp add: verify_native_password_def Let_def)
qed

lemma verify_hash_iff:
  assumes "digest20 sha1" "response \<noteq> []"
  shows "verify_native_password_hash sha1 hash2 scramble response \<longleftrightarrow>
         (\<exists>h. length h = 20 \<and> sha1 h = hash2 \<and> response = native_response sha1 h scramble)"
proof
  assume *: "verify_native_password_hash sha1 hash2 scramble response"
  let ?h = "xor_bytes response (sha1 (scramble @ hash2))"
  from * assms have len: "length response = 20" and eq: "sha1 ?h = hash2"
    by (auto simp: verify_native_password_hash_def Let_def split: if_splits)
  then have "response = native_response sha1 ?h scramble"
    using assms(1) by (simp add: native_response_def xor_bytes_cancel)
  then show "\<exists>h. length h = 20 \<and> sha1 h = hash2 \<and> response = native_response sha1 h scramble"
    using len eq assms(1) by (intro exI [of _ ?h]) simp
next
  assume "\<exists>h. length h = 20 \<and> sha1 h = hash2 \<and> response = native_response sha1 h scramble"
  then show "verify_native_password_hash sha1 hash2 scramble response"
    using assms by (auto simp: verify_native_password_hash_def native_response_def xor_bytes_cancel Let_def)
qed

text \<open>A response the plain check accepts, the check against the stored hash accepts too.\<close>

lemma verify_password_hash:
  assumes "digest20 sha1" "response \<noteq> []" "verify_native_password sha1 password scramble response"
  shows "verify_native_password_hash sha1 (double_sha1 sha1 (as_bytes password)) scramble response"
  using assms
  by (auto simp: verify_password_iff verify_hash_iff double_sha1_def
      intro!: exI [of _ "sha1 (as_bytes password)"])

lemma scramble_no_zero: "0 \<notin> set (generate_scramble random)" "length (generate_scramble random) = length random"
  by (auto simp: generate_scramble_def)

end
