(* ===== verification/Users.thy ===== *)
theory Users
  imports Engine Auth
begin

text \<open>
  Accounts and privileges of src/engine.rs: the statements CREATE USER, DROP USER, GRANT, REVOKE
  and SHOW GRANTS, which are parsed by hand from their text, the lookups the server and the web
  interface make, and the check before a statement runs. A slice of a text that is out of range
  panics (\<open>None\<close>). \<open>sha1\<close> is the digest of the crate sha1.
\<close>

section \<open>Slices\<close>

definition str_slice :: "nat \<Rightarrow> nat \<Rightarrow> string \<Rightarrow> string option" where \<comment> \<open>\<open>&s[i..j]\<close>\<close>
  "str_slice i j s = (if i \<le> j \<and> j \<le> length s then Some (take (j - i) (drop i s)) else None)"

definition str_from :: "nat \<Rightarrow> string \<Rightarrow> string option" where \<comment> \<open>\<open>&s[i..]\<close>\<close>
  "str_from i s = (if i \<le> length s then Some (drop i s) else None)"

definition quote :: char where
  "quote = CHR 0x27"

definition strip_quotes :: "string \<Rightarrow> string" where \<comment> \<open>\<open>trim_matches\<close> of quotes, then of backticks\<close>
  "strip_quotes s = trim_char backtick (trim_char quote s)"

section \<open>The text of an account\<close>

definition quoted_ident :: "char \<Rightarrow> string \<Rightarrow> (string \<times> string) option" where
  "quoted_ident q s =
     (let end = (case find_char (\<lambda>c. c = q) (drop 1 s) of Some p \<Rightarrow> p + 1 | None \<Rightarrow> length s - 1)
      in do { name \<leftarrow> str_slice 1 end s; rest \<leftarrow> str_from (end + 1) s; Some (name, rest) })"

definition ident_part :: "string \<Rightarrow> (string \<times> string) option" where
  "ident_part s =
     (if starts_with [quote] s then quoted_ident quote s
      else if starts_with [backtick] s then quoted_ident backtick s
      else (let end = (case find_char (\<lambda>c. c = CHR ''@'' \<or> is_ws c) s of Some p \<Rightarrow> p | None \<Rightarrow> length s)
            in Some (take end s, drop end s)))"

definition skip_host :: "string \<Rightarrow> string" where
  "skip_host s =
     (let s = trim_start_by (\<lambda>c. c = CHR ''@'' \<or> c = quote) s
      in if starts_with [quote] s
         then drop (case find_char (\<lambda>c. c = quote) (drop 1 s) of Some p \<Rightarrow> p + 2 | None \<Rightarrow> length s) s
         else drop (case find_char is_ws s of Some p \<Rightarrow> p | None \<Rightarrow> length s) s)"

definition password_part :: "string \<Rightarrow> string" where
  "password_part s =
     (case find_sub ''IDENTIFIED BY'' (to_upper s) of
        None \<Rightarrow> []
      | Some p \<Rightarrow>
          let pw = trim (drop (p + 13) s)
          in if starts_with [quote] pw
             then take (case find_char (\<lambda>c. c = quote) (drop 1 pw) of Some e \<Rightarrow> e | None \<Rightarrow> length pw - 1) (drop 1 pw)
             else (case split_whitespace pw of w # _ \<Rightarrow> w | [] \<Rightarrow> []))"

definition parse_user_ident_with_password :: "string \<Rightarrow> (string \<times> string) option" where
  "parse_user_ident_with_password s =
     map_option (\<lambda>(name, rest). (name, password_part (skip_host rest))) (ident_part (trim s))"

section \<open>Statements on accounts\<close>

definition op_failed :: "string \<Rightarrow> string \<Rightarrow> query_result" where
  "op_failed op u = QErr 1396 (''Operation '' @ op @ '' failed for '' @ quoted u @ ''@'' @ quoted ''%'')"

definition put_user :: "string \<Rightarrow> db_user \<Rightarrow> engine \<Rightarrow> engine" where
  "put_user u d e = e\<lparr> users := (users e)(u \<mapsto> d) \<rparr>"

definition fresh_user :: "(u8 list \<Rightarrow> u8 list) \<Rightarrow> string \<Rightarrow> db_user" where
  "fresh_user sha1 password =
     \<lparr> password_sha1_sha1 = double_sha1 sha1 (as_bytes password), allowed_dbs = Some {},
       can_write = False, is_root = False \<rparr>"

definition create_user_text :: "string \<Rightarrow> string" where
  "create_user_text sql =
     (let rest = trim_start_by is_ws (trim (trim_start_by (\<lambda>c. \<not> is_ws c) sql))
      in if starts_with ''USER'' (to_upper rest) then trim_start_by is_ws (drop 4 rest) else rest)"

definition exec_create_user :: "(u8 list \<Rightarrow> u8 list) \<Rightarrow> string \<Rightarrow> engine \<Rightarrow> step" where
  "exec_create_user sha1 sql e =
     do { (u, pw) \<leftarrow> parse_user_ident_with_password (create_user_text sql);
          Some (if u = [] then (e, QErr 1064 ''CREATE USER: cannot parse username'')
                else if u = ''root'' then (e, op_failed ''CREATE USER'' u)
                else if users e u \<noteq> None then (e, op_failed ''CREATE USER'' u)
                else (put_user u (fresh_user sha1 pw) e, q_ok 0 0)) }"

definition host_free :: "string \<Rightarrow> string" where \<comment> \<open>the name before \<open>@\<close>\<close>
  "host_free s = trim (strip_quotes (hd (split_char (CHR ''@'') s)))"

definition exec_drop_user :: "string \<Rightarrow> engine \<Rightarrow> step" where
  "exec_drop_user sql e =
     do { rest \<leftarrow> str_from 9 sql;
          let u = host_free (strip_quotes (trim rest));
          Some (if u = ''root'' then (e, QErr 1396 ''Cannot drop root user'')
                else if users e u = None then (e, op_failed ''DROP USER'' u)
                else (e\<lparr> users := (users e)(u := None) \<rparr>, q_ok 0 0)) }"

text \<open>The database of \<open>... ON db.*\<close>; \<open>None\<close> is all of them.\<close>

definition on_database :: "string \<Rightarrow> string option" where
  "on_database privs =
     (case find_sub '' ON '' (to_upper privs) of
        None \<Rightarrow> None
      | Some p \<Rightarrow>
          let db = trim_char quote (trim_char backtick (trim (hd (split_char (CHR ''.'') (trim (drop (p + 4) privs))))))
          in if db = ''*'' then None else Some db)"

definition writes :: "string \<Rightarrow> bool" where
  "writes privs \<longleftrightarrow>
     (let p = to_upper privs
      in contains ''ALL'' p \<or> contains ''INSERT'' p \<or> contains ''UPDATE'' p \<or> contains ''DELETE'' p \<or>
         contains ''CREATE'' p \<or> contains ''DROP'' p)"

definition grant_user :: "(u8 list \<Rightarrow> u8 list) \<Rightarrow> string \<Rightarrow> string \<Rightarrow> string \<Rightarrow> db_user \<Rightarrow> db_user" where
  "grant_user sha1 privs pw u d =
     (let d = (if pw \<noteq> [] then d\<lparr> password_sha1_sha1 := double_sha1 sha1 (as_bytes pw) \<rparr> else d)
      in case on_database privs of
           None \<Rightarrow>
             if contains ''ALL'' (to_upper privs) then d\<lparr> allowed_dbs := None, can_write := True \<rparr> else d
         | Some db \<Rightarrow>
             d\<lparr> allowed_dbs := map_option (insert db) (allowed_dbs d),
                can_write := can_write d \<or> writes privs \<rparr>)"

definition grant_body :: "(u8 list \<Rightarrow> u8 list) \<Rightarrow> string \<Rightarrow> nat \<Rightarrow> engine \<Rightarrow> step" where
  "grant_body sha1 sql to_pos e =
     do { privs \<leftarrow> map_option trim (str_slice 6 to_pos sql);
          rest \<leftarrow> map_option trim (str_from (to_pos + 4) sql);
          (u, pw) \<leftarrow> parse_user_ident_with_password rest;
          Some (if u = [] then (e, QErr 1064 ''GRANT: cannot parse username'')
                else
                  let d = (case users e u of Some d \<Rightarrow> d | None \<Rightarrow> fresh_user sha1 [])
                  in (bump_write_gen (put_user u (grant_user sha1 privs pw u d) e), q_ok 0 0)) }"

text \<open>The error texts have a dash between spaces, which is three bytes of UTF-8.\<close>

definition dash :: string where
  "dash = [CHR 0x20, CHR 0xE2, CHR 0x80, CHR 0x94, CHR 0x20]"

text \<open>\<open>upper.find(" TO ").ok_or(()).unwrap_err()\<close> panics when the text is found.\<close>

definition ok_or_unwrap_err :: "nat option \<Rightarrow> unit option" where
  "ok_or_unwrap_err r = (case r of Some _ \<Rightarrow> None | None \<Rightarrow> Some ())"

definition exec_grant :: "(u8 list \<Rightarrow> u8 list) \<Rightarrow> string \<Rightarrow> engine \<Rightarrow> step" where
  "exec_grant sha1 sql e =
     do { _ \<leftarrow> ok_or_unwrap_err (find_sub '' TO '' (to_upper sql));
          case find_sub '' TO '' (to_upper sql) of
            Some to_pos \<Rightarrow> grant_body sha1 sql to_pos e
          | None \<Rightarrow> Some (e, QErr 1064 (''GRANT: syntax error'' @ dash @ ''missing TO'')) }"

definition revoke_user :: "string option \<Rightarrow> db_user \<Rightarrow> db_user" where
  "revoke_user db d =
     (case db of
        Some n \<Rightarrow> d\<lparr> allowed_dbs := map_option (\<lambda>s. s - {n}) (allowed_dbs d) \<rparr>
      | None \<Rightarrow> d\<lparr> allowed_dbs := Some {}, can_write := False \<rparr>)"

definition no_such_user :: "string \<Rightarrow> string" where
  "no_such_user u = ''No such user '' @ quoted u"

text \<open>The account and the database of a REVOKE, from the position of \<open>" FROM "\<close>.\<close>

definition revoke_target :: "string \<Rightarrow> nat \<Rightarrow> (string \<times> string option) option" where
  "revoke_target sql from_pos =
     do { rest \<leftarrow> map_option trim (str_from (from_pos + 6) sql);
          privs \<leftarrow> map_option trim (str_slice 7 from_pos sql);
          Some (host_free rest, on_database privs) }"

definition exec_revoke :: "string \<Rightarrow> engine \<Rightarrow> step" where
  "exec_revoke sql e =
     (case find_sub '' FROM '' (to_upper sql) of
        None \<Rightarrow> Some (e, QErr 1064 (''REVOKE: syntax error'' @ dash @ ''missing FROM''))
      | Some from_pos \<Rightarrow>
          do { (u, db) \<leftarrow> revoke_target sql from_pos;
               Some (case users e u of
                       None \<Rightarrow> (e, QErr 1396 (no_such_user u))
                     | Some d \<Rightarrow> (bump_write_gen (put_user u (revoke_user db d) e), q_ok 0 0)) })"

text \<open>\<open>iter\<close> is the order in which a hash set is walked.\<close>

definition grant_line :: "string \<Rightarrow> string \<Rightarrow> string \<Rightarrow> string option list" where
  "grant_line privs target u =
     [Some (''GRANT '' @ privs @ '' ON '' @ target @ '' TO '' @ quoted u @ ''@'' @ quoted ''%'')]"

definition exec_show_grants :: "(string set \<Rightarrow> string list) \<Rightarrow> string \<Rightarrow> engine \<Rightarrow> query_result" where
  "exec_show_grants iter sql e =
     (let u = (case find_sub '' FOR '' (to_upper sql) of
                 Some p \<Rightarrow> trim (strip_quotes (hd (split_char (CHR ''@'') (trim (drop (p + 5) sql)))))
               | None \<Rightarrow> [])
      in case users e u of
           None \<Rightarrow> QErr 1141 (no_such_user u)
         | Some d \<Rightarrow>
             let privs = (if can_write d then ''ALL PRIVILEGES'' else ''SELECT'')
             in QRows [''Grants for '' @ u @ ''@%'']
                  (case allowed_dbs d of
                     None \<Rightarrow> [grant_line privs ''*.*'' u]
                   | Some s \<Rightarrow>
                       if s = {} then [grant_line ''USAGE'' ''*.*'' u]
                       else map (\<lambda>db. grant_line privs ([backtick] @ db @ [backtick] @ ''.*'') u) (iter s)))"

section \<open>Lookups and the privilege check\<close>

definition lookup_user :: "string \<Rightarrow> engine \<Rightarrow> (u8 list \<times> bool) option" where
  "lookup_user u e = map_option (\<lambda>d. (password_sha1_sha1 d, is_root d)) (users e u)"

definition verify_webui_password :: "(u8 list \<Rightarrow> u8 list) \<Rightarrow> string \<Rightarrow> string \<Rightarrow> engine \<Rightarrow> bool" where
  "verify_webui_password sha1 u pw e =
     (case users e u of Some d \<Rightarrow> password_sha1_sha1 d = double_sha1 sha1 (as_bytes pw) | None \<Rightarrow> False)"

definition user_can_access_db :: "string \<Rightarrow> string \<Rightarrow> engine \<Rightarrow> bool" where
  "user_can_access_db u db e =
     (case users e u of
        None \<Rightarrow> False
      | Some d \<Rightarrow> is_root d \<or> (case allowed_dbs d of None \<Rightarrow> True | Some s \<Rightarrow> db \<in> s))"

definition access_denied :: "string \<Rightarrow> string \<Rightarrow> query_result" where
  "access_denied u db = QErr 1044 (''Access denied for user '' @ quoted u @ '' to database '' @ quoted db)"

definition no_write :: query_result where
  "no_write = QErr 1142 ''Command denied to user (no write privilege)''"

text \<open>The check of every parsed statement: the current database only, and the write privilege; it does
  not ask \<open>user_can_access_db\<close>, which nothing calls.\<close>

definition privilege_error :: "string \<Rightarrow> string option \<Rightarrow> bool \<Rightarrow> engine \<Rightarrow> query_result option" where
  "privilege_error u cur needs_write e =
     (case users e u of
        None \<Rightarrow> None
      | Some d \<Rightarrow>
          (case (allowed_dbs d, cur) of
             (Some s, Some db) \<Rightarrow>
               if db \<notin> s then Some (access_denied u db)
               else if \<not> can_write d \<and> needs_write then Some no_write else None
           | _ \<Rightarrow> if \<not> can_write d \<and> needs_write then Some no_write else None))"

section \<open>Reading an account back from its text\<close>

lemma quote_facts [simp]: "\<not> is_ws quote" "quote \<noteq> CHR ''@''" "quote \<noteq> backtick" "upper_char quote = quote"
  by (simp_all add: quote_def backtick_def is_ws_def upper_char_def is_lower_def)

lemma quoted_quote: "quoted s = quote # s @ [quote]"
  by (simp add: quoted_def quote_def)

lemma trim_id:
  assumes "\<not> is_ws c" "\<not> is_ws d"
  shows "trim (c # s @ [d]) = c # s @ [d]"
  using assms by (simp add: trim_def trim_start_by_def trim_end_by_def)

lemma trim_space: "trim (CHR '' '' # s) = trim s"
  by (simp add: trim_def trim_start_by_def is_ws_def)

lemma find_char_append:
  assumes "\<forall>c\<in>set a. \<not> p c" "p d"
  shows "find_char p (a @ d # b) = Some (length a)"
  using assms by (induction a) (simp_all add: find_char_def)

lemma quoted_ident_read:
  assumes "q \<notin> set n"
  shows "quoted_ident q (q # n @ q # rest) = Some (n, rest)"
proof -
  have "find_char (\<lambda>c. c = q) (n @ q # rest) = Some (length n)"
    using assms by (intro find_char_append) auto
  then show ?thesis by (simp add: quoted_ident_def str_slice_def str_from_def)
qed

lemma password_read:
  assumes "quote \<notin> set p"
  shows "password_part ('' IDENTIFIED BY '' @ quote # p @ [quote]) = p"
proof -
  have "find_sub ''IDENTIFIED BY'' (to_upper ('' IDENTIFIED BY '' @ quote # p @ [quote])) = Some 1"
    by (simp add: to_upper_def upper_char_def is_lower_def starts_with_def)
  moreover have "trim (CHR '' '' # quote # p @ [quote]) = quote # p @ [quote]"
    using trim_id [of quote quote p] by (simp add: trim_space)
  moreover have "find_char (\<lambda>c. c = quote) (p @ [quote]) = Some (length p)"
    using assms by (intro find_char_append) auto
  ultimately show ?thesis by (simp add: password_part_def starts_with_def)
qed

lemma host_skipped:
  "skip_host (''@'' @ quoted ''%'' @ CHR '' '' # rest) = CHR '' '' # rest"
  by (simp add: skip_host_def quoted_def quote_def trim_start_by_def starts_with_def find_char_def is_ws_def)

text \<open>\<open>'n'@'%' IDENTIFIED BY 'p'\<close>\<close>

definition account_text :: "string \<Rightarrow> string \<Rightarrow> string" where
  "account_text n p = quoted n @ ''@'' @ quoted ''%'' @ '' IDENTIFIED BY '' @ quoted p"

lemma parse_account:
  assumes "quote \<notin> set n" "quote \<notin> set p"
  shows "parse_user_ident_with_password (account_text n p) = Some (n, p)"
proof -
  have "trim (account_text n p) = account_text n p"
    using trim_id [of quote quote "n @ quote # ''@'' @ quoted ''%'' @ '' IDENTIFIED BY '' @ quote # p"]
    by (simp add: account_text_def quoted_quote)
  moreover have "ident_part (account_text n p) =
      Some (n, ''@'' @ quoted ''%'' @ '' IDENTIFIED BY '' @ quote # p @ [quote])"
    using quoted_ident_read [OF assms(1)]
    by (simp add: ident_part_def account_text_def quoted_quote starts_with_def)
  moreover have "skip_host (''@'' @ quoted ''%'' @ '' IDENTIFIED BY '' @ quote # p @ [quote]) =
      '' IDENTIFIED BY '' @ quote # p @ [quote]"
    using host_skipped [of "''IDENTIFIED BY '' @ quote # p @ [quote]"] by simp
  ultimately show ?thesis
    using password_read [OF assms(2)] by (simp add: parse_user_ident_with_password_def)
qed

lemma create_user_text_read: "create_user_text (''CREATE USER '' @ account_text n p) = account_text n p"
proof -
  have "trim (''USER '' @ account_text n p) = ''USER '' @ account_text n p"
    using trim_id [of "CHR ''U''" quote "''SER '' @ quoted n @ ''@'' @ quoted ''%'' @ '' IDENTIFIED BY '' @ quote # p"]
    by (simp add: account_text_def quoted_quote) (simp add: is_ws_def)
  moreover have "trim_start_by (\<lambda>c. \<not> is_ws c) (''CREATE USER '' @ s) = '' USER '' @ s"
    "trim_start_by is_ws (''USER '' @ s) = ''USER '' @ s" "trim_start_by is_ws ('' '' @ s) = trim_start_by is_ws s"
    "starts_with ''USER'' (to_upper (''USER '' @ s))" for s
    by (simp_all add: trim_start_by_def is_ws_def to_upper_def upper_char_def is_lower_def starts_with_def)
  moreover have "trim_start_by is_ws (account_text n p) = account_text n p"
    by (simp add: account_text_def quoted_quote trim_start_by_def)
  ultimately show ?thesis by (simp add: create_user_text_def trim_space)
qed

section \<open>Laws of the accounts\<close>

lemma create_user_stored:
  assumes "quote \<notin> set n" "quote \<notin> set p" "n \<noteq> []" "n \<noteq> ''root''" "users e n = None"
  shows "exec_create_user sha1 (''CREATE USER '' @ account_text n p) e =
    Some (put_user n (fresh_user sha1 p) e, q_ok 0 0)"
  unfolding exec_create_user_def create_user_text_read parse_account [OF assms(1,2)]
  using assms(3-5) by simp

lemma lookup_put_user:
  "lookup_user u (put_user u d e) = Some (password_sha1_sha1 d, is_root d)"
  by (simp add: lookup_user_def put_user_def)

lemma fresh_user_login:
  assumes "digest20 sha1"
  shows "verify_native_password_hash sha1 (password_sha1_sha1 (fresh_user sha1 p)) scramble
    (native_response sha1 (sha1 (as_bytes p)) scramble)"
proof -
  have "length (native_response sha1 (sha1 (as_bytes p)) scramble) = 20" using assms by simp
  then have ne: "native_response sha1 (sha1 (as_bytes p)) scramble \<noteq> []" by auto
  moreover have "verify_native_password sha1 p scramble (native_response sha1 (sha1 (as_bytes p)) scramble)"
    by (simp add: verify_password_iff [OF assms ne])
  ultimately show ?thesis
    using verify_password_hash [OF assms] by (simp add: fresh_user_def)
qed

lemma grant_panics:
  "contains '' TO '' (to_upper sql) \<Longrightarrow> exec_grant sha1 sql e = None"
  "\<not> contains '' TO '' (to_upper sql) \<Longrightarrow> \<exists>msg. exec_grant sha1 sql e = Some (e, QErr 1064 msg)"
  by (auto simp: exec_grant_def contains_def ok_or_unwrap_err_def)

lemma revoke_effect:
  assumes "find_sub '' FROM '' (to_upper sql) = Some p" "revoke_target sql p = Some (u, db)"
    and "users e u = Some d"
  shows "exec_revoke sql e = Some (bump_write_gen (put_user u (revoke_user db d) e), q_ok 0 0)"
  using assms by (simp add: exec_revoke_def)

lemma revoked_privilege:
  assumes "users e u = Some (revoke_user db d)"
  shows "db = None \<or> db = Some n \<and> allowed_dbs d \<noteq> None \<Longrightarrow> privilege_error u (Some n) w e = Some (access_denied u n)"
    and "db = None \<Longrightarrow> privilege_error u None True e = Some no_write"
  using assms by (auto simp: privilege_error_def revoke_user_def)

text \<open>No statement on accounts takes the account root or its rank away.\<close>

definition root_kept :: "engine \<Rightarrow> bool" where
  "root_kept e \<longleftrightarrow> (\<exists>d. users e ''root'' = Some d \<and> is_root d)"

lemma grant_user_root [simp]: "is_root (grant_user sha1 privs pw u d) = is_root d"
  by (simp add: grant_user_def Let_def split: option.split)

lemma revoke_user_root [simp]: "is_root (revoke_user db d) = is_root d"
  by (simp add: revoke_user_def split: option.split)

lemma root_kept_put:
  "root_kept e \<Longrightarrow> u = ''root'' \<longrightarrow> is_root d \<Longrightarrow> root_kept (put_user u d e)"
  by (auto simp: root_kept_def put_user_def)

lemma root_kept_fields [simp]: "root_kept (bump_write_gen e) = root_kept e"
  by (simp add: root_kept_def bump_write_gen_def)

lemma user_stmts_keep_root:
  "root_kept e \<Longrightarrow> exec_create_user sha1 sql e = Some (e', r) \<Longrightarrow> root_kept e'"
  "root_kept e \<Longrightarrow> exec_drop_user sql e = Some (e', r) \<Longrightarrow> root_kept e'"
  "root_kept e \<Longrightarrow> exec_grant sha1 sql e = Some (e', r) \<Longrightarrow> root_kept e'"
  "root_kept e \<Longrightarrow> exec_revoke sql e = Some (e', r) \<Longrightarrow> root_kept e'"
proof -
  assume root: "root_kept e"
  show "exec_create_user sha1 sql e = Some (e', r) \<Longrightarrow> root_kept e'"
    using root by (auto simp: exec_create_user_def bind_eq_Some_conv root_kept_put split: if_splits)
  show "exec_drop_user sql e = Some (e', r) \<Longrightarrow> root_kept e'"
    using root by (auto simp: exec_drop_user_def bind_eq_Some_conv root_kept_def Let_def split: if_splits)
  show "exec_grant sha1 sql e = Some (e', r) \<Longrightarrow> root_kept e'"
    using root by (auto simp: exec_grant_def ok_or_unwrap_err_def bind_eq_Some_conv split: option.splits)
  show "exec_revoke sql e = Some (e', r) \<Longrightarrow> root_kept e'"
    using root by (auto simp: exec_revoke_def bind_eq_Some_conv split: option.splits
        intro!: root_kept_put) (auto simp: root_kept_def)
qed

lemma privilege_error_root:
  "users e u = Some d \<Longrightarrow> allowed_dbs d = None \<Longrightarrow> can_write d \<Longrightarrow> privilege_error u cur needs e = None"
  by (simp add: privilege_error_def)

text \<open>An account without any database passes the check with a read while no database is current.\<close>

lemma access_not_asked:
  assumes "users e u = Some d" "allowed_dbs d = Some {}" "\<not> is_root d"
  shows "\<not> user_can_access_db u n e" "privilege_error u None False e = None"
  using assms by (simp_all add: user_can_access_db_def privilege_error_def)

lemma privilege_error_denies:
  assumes "users e u = Some d" "\<not> can_write d"
  shows "privilege_error u cur True e \<noteq> None"
  using assms by (auto simp: privilege_error_def split: option.split)

end
