(* ===== verification/Catalog.thy ===== *)
theory Catalog
  imports Users Select
begin

text \<open>
  What src/engine.rs answers about its own state: the catalog views INFORMATION_SCHEMA, the SHOW
  commands and the system variables, recognised by \<open>execute\<close> from the text of the statement, and
  DESCRIBE, SHOW COLUMNS and SHOW CREATE TABLE. Hash maps are walked in the order \<open>iter\<close>, a
  parameter; an index out of range panics (\<open>None\<close>).
\<close>

section \<open>Values of a WHERE clause, read from the text\<close>

definition dquote :: char where
  "dquote = CHR 0x22"

definition value_upto :: "(char \<Rightarrow> bool) \<Rightarrow> string \<Rightarrow> string option" where
  "value_upto stop s =
     (let raw = trim_start_by (\<lambda>c. c = dquote) (trim_start_by (\<lambda>c. c = quote) s);
          val = take (case find_char stop raw of Some p \<Rightarrow> p | None \<Rightarrow> length raw) raw
      in if val = [] then None else Some (to_lower val))"

definition text_filter :: "string \<Rightarrow> string \<Rightarrow> string option" where
  "text_filter key u =
     Option.bind (find_sub key u)
       (\<lambda>p. value_upto (\<lambda>c. c = quote \<or> c = dquote \<or> c = CHR '' '')
              (trim_start_by (\<lambda>c. is_ws c \<or> c = CHR ''='') (drop (p + length key) u)))"

text \<open>The first \<open>TABLE_NAME\<close> followed by an equals sign.\<close>

function table_name_filter :: "string \<Rightarrow> string option" where
  "table_name_filter u =
     (case find_sub ''TABLE_NAME'' u of
        None \<Rightarrow> None
      | Some p \<Rightarrow>
          let rest = trim_start_by is_ws (drop (p + 10) u)
          in if starts_with ''='' rest
             then value_upto (\<lambda>c. c = quote \<or> c = dquote) (trim_start_by is_ws (drop 1 rest))
             else table_name_filter (drop (p + 10) u))"
  by pat_completeness auto
termination
  by (relation "measure length") (auto dest!: find_sub_Some)

declare table_name_filter.simps [simp del]

section \<open>Walking the databases\<close>

type_synonym walk = "string set \<Rightarrow> string list"

definition system_schema :: "string \<Rightarrow> bool" where
  "system_schema n \<longleftrightarrow> starts_with ''information_schema'' n \<or> starts_with ''performance_schema'' n"

definition hidden_database :: "string \<Rightarrow> bool" where
  "hidden_database n \<longleftrightarrow> system_schema n \<or> n = ''mysql'' \<or> n = ''sys''"

definition shown_databases :: "walk \<Rightarrow> engine \<Rightarrow> string list" where
  "shown_databases iter e = filter (\<lambda>n. \<not> hidden_database n) (iter (dom (databases e)))"

definition filter_ok :: "string option \<Rightarrow> string \<Rightarrow> bool" where
  "filter_ok f n \<longleftrightarrow> (case f of Some s \<Rightarrow> eq_ignore_case n s | None \<Rightarrow> True)"

text \<open>The tables of the databases that pass, with their names.\<close>

definition walk_tables :: "walk \<Rightarrow> string option \<Rightarrow> string option \<Rightarrow> engine \<Rightarrow> (string \<times> string \<times> table) list" where
  "walk_tables iter schema name e =
     concat (map (\<lambda>db. case databases e db of
         None \<Rightarrow> []
       | Some d \<Rightarrow>
           List.map_filter (\<lambda>t. if filter_ok name t then map_option (\<lambda>tab. (db, t, tab)) (tables d t) else None)
             (iter (dom (tables d))))
       (filter (\<lambda>db. \<not> system_schema db \<and> filter_ok schema db) (iter (dom (databases e)))))"

section \<open>INFORMATION_SCHEMA\<close>

type_synonym text_row = "string option list"

definition tables_columns :: "string list" where
  "tables_columns =
     [''TABLE_CATALOG'', ''TABLE_SCHEMA'', ''TABLE_NAME'', ''TABLE_TYPE'', ''ENGINE'',
      ''VERSION'', ''ROW_FORMAT'', ''TABLE_ROWS'', ''AVG_ROW_LENGTH'', ''DATA_LENGTH'',
      ''MAX_DATA_LENGTH'', ''INDEX_LENGTH'', ''DATA_FREE'', ''AUTO_INCREMENT'',
      ''CREATE_TIME'', ''UPDATE_TIME'', ''CHECK_TIME'', ''TABLE_COLLATION'', ''CHECKSUM'',
      ''CREATE_OPTIONS'', ''TABLE_COMMENT'']"

definition tables_row :: "string \<times> string \<times> table \<Rightarrow> text_row" where
  "tables_row dt =
     (case dt of (db, t, tab) \<Rightarrow>
        [Some ''def'', Some db, Some t, Some ''BASE TABLE'', Some ''RunAlexDB'', Some ''10'', Some ''Dynamic'',
         Some (show_nat (length (rows tab))), Some ''0'', Some ''0'', Some ''0'', Some ''0'', Some ''0'',
         map_option (\<lambda>_. show_i64 (next_auto tab)) (pk_col_idx tab),
         None, None, None, Some ''utf8mb4_general_ci'', None, Some [], Some []])"

definition info_tables :: "walk \<Rightarrow> string \<Rightarrow> engine \<Rightarrow> query_result" where
  "info_tables iter u e =
     QRows tables_columns
       (map tables_row (walk_tables iter (text_filter ''TABLE_SCHEMA'' u) (table_name_filter u) e))"

definition show_type :: "column_type \<Rightarrow> string" where
  "show_type ct =
     (case ct of
        CInt \<Rightarrow> ''int'' | CBigInt \<Rightarrow> ''bigint'' | CFloat \<Rightarrow> ''double''
      | CVarChar n \<Rightarrow> ''varchar('' @ show_nat (unat n) @ '')''
      | CText \<Rightarrow> ''text'' | CBlob \<Rightarrow> ''blob'' | CTimestamp \<Rightarrow> ''timestamp'')"

text \<open>Data type, maximal length and numeric precision of a column.\<close>

definition type_info :: "column_type \<Rightarrow> string \<times> string option \<times> string option" where
  "type_info ct =
     (case ct of
        CInt \<Rightarrow> (''int'', None, Some ''10'')
      | CBigInt \<Rightarrow> (''bigint'', None, Some ''20'')
      | CFloat \<Rightarrow> (''double'', None, Some ''22'')
      | CVarChar n \<Rightarrow> (''varchar'', Some (show_nat (unat n)), None)
      | CText \<Rightarrow> (''text'', Some ''65535'', None)
      | CBlob \<Rightarrow> (''blob'', Some ''65535'', None)
      | CTimestamp \<Rightarrow> (''timestamp'', None, None))"

definition null_text :: "column \<Rightarrow> string" where
  "null_text c = (if nullable c then ''YES'' else ''NO'')"

definition key_text :: "column \<Rightarrow> string" where
  "key_text c = (if primary_key c then ''PRI'' else [])"

definition extra_text :: "column \<Rightarrow> string" where
  "extra_text c = (if primary_key c then ''auto_increment'' else [])"

definition columns_columns :: "string list" where
  "columns_columns =
     [''TABLE_CATALOG'', ''TABLE_SCHEMA'', ''TABLE_NAME'', ''COLUMN_NAME'',
      ''ORDINAL_POSITION'', ''COLUMN_DEFAULT'', ''IS_NULLABLE'', ''DATA_TYPE'',
      ''CHARACTER_MAXIMUM_LENGTH'', ''NUMERIC_PRECISION'', ''COLUMN_TYPE'',
      ''COLUMN_KEY'', ''EXTRA'', ''PRIVILEGES'', ''COLUMN_COMMENT'']"

definition columns_row :: "string \<Rightarrow> string \<Rightarrow> nat \<times> column \<Rightarrow> text_row" where
  "columns_row db t ic =
     (case (ic, type_info (col_type (snd ic))) of ((i, c), (data_type, char_max, num_prec)) \<Rightarrow>
        [Some ''def'', Some db, Some t, Some (col_name c), Some (show_nat (i + 1)), None,
         Some (null_text c), Some data_type, char_max, num_prec, Some (show_type (col_type c)),
         Some (key_text c), Some (extra_text c), Some ''select,insert,update,references'', Some []])"

definition info_columns :: "walk \<Rightarrow> string \<Rightarrow> engine \<Rightarrow> query_result" where
  "info_columns iter u e =
     QRows columns_columns
       (concat (map (\<lambda>(db, t, tab). map (columns_row db t) (List.enumerate 0 (columns tab)))
          (walk_tables iter (text_filter ''TABLE_SCHEMA'' u) (text_filter ''TABLE_NAME'' u) e)))"

text \<open>The key columns; the index of a key that is no column panics.\<close>

definition key_rows :: "(string \<Rightarrow> string \<Rightarrow> table \<Rightarrow> string \<Rightarrow> text_row) \<Rightarrow> (string \<times> string \<times> table) list \<Rightarrow>
    text_row list option" where
  "key_rows row dts =
     map_option concat (map_panic (\<lambda>(db, t, tab). case pk_col_idx tab of
         None \<Rightarrow> Some []
       | Some p \<Rightarrow> map_option (\<lambda>c. [row db t tab (col_name c)]) (vec_get (columns tab) p)) dts)"

definition info_key_usage :: "walk \<Rightarrow> string \<Rightarrow> engine \<Rightarrow> query_result option" where
  "info_key_usage iter u e =
     map_option (QRows
         [''CONSTRAINT_CATALOG'', ''CONSTRAINT_SCHEMA'', ''CONSTRAINT_NAME'', ''TABLE_CATALOG'',
          ''TABLE_SCHEMA'', ''TABLE_NAME'', ''COLUMN_NAME'', ''ORDINAL_POSITION'',
          ''POSITION_IN_UNIQUE_CONSTRAINT'', ''REFERENCED_TABLE_SCHEMA'', ''REFERENCED_TABLE_NAME'',
          ''REFERENCED_COLUMN_NAME''])
       (key_rows (\<lambda>db t tab c. [Some ''def'', Some db, Some ''PRIMARY'', Some ''def'', Some db, Some t, Some c,
            Some ''1'', None, None, None, None])
         (walk_tables iter (text_filter ''TABLE_SCHEMA'' u) None e))"

definition info_statistics :: "walk \<Rightarrow> string \<Rightarrow> engine \<Rightarrow> query_result option" where
  "info_statistics iter u e =
     map_option (QRows
         [''TABLE_CATALOG'', ''TABLE_SCHEMA'', ''TABLE_NAME'', ''NON_UNIQUE'', ''INDEX_SCHEMA'',
          ''INDEX_NAME'', ''SEQ_IN_INDEX'', ''COLUMN_NAME'', ''COLLATION'', ''CARDINALITY'', ''SUB_PART'',
          ''PACKED'', ''NULLABLE'', ''INDEX_TYPE'', ''COMMENT'', ''INDEX_COMMENT''])
       (key_rows (\<lambda>db t tab c. [Some ''def'', Some db, Some t, Some ''0'', Some db, Some ''PRIMARY'', Some ''1'',
            Some c, Some ''A'', Some (show_nat (length (rows tab))), None, None, Some [], Some ''BTREE'',
            Some [], Some []])
         (walk_tables iter (text_filter ''TABLE_SCHEMA'' u) None e))"

definition info_schemata :: "walk \<Rightarrow> engine \<Rightarrow> query_result" where
  "info_schemata iter e =
     QRows [''CATALOG_NAME'', ''SCHEMA_NAME'', ''DEFAULT_CHARACTER_SET_NAME'', ''DEFAULT_COLLATION_NAME'']
       (map (\<lambda>n. [Some ''def'', Some n, Some ''utf8mb4'', Some ''utf8mb4_0900_ai_ci'']) (shown_databases iter e))"

section \<open>SHOW\<close>

definition show_users :: "walk \<Rightarrow> engine \<Rightarrow> query_result" where
  "show_users iter e = QRows [''User''] (map (\<lambda>u. [Some u]) (iter (dom (users e))))"

definition show_databases :: "walk \<Rightarrow> engine \<Rightarrow> query_result" where
  "show_databases iter e = QRows [''Database''] (map (\<lambda>n. [Some n]) (shown_databases iter e))"

definition show_tables :: "walk \<Rightarrow> string \<Rightarrow> engine \<Rightarrow> query_result" where
  "show_tables iter db e =
     (case databases e db of
        Some d \<Rightarrow> QRows [''Tables''] (map (\<lambda>n. [Some n]) (iter (dom (tables d))))
      | None \<Rightarrow> q_ok 0 0)"

definition show_create_database :: "string \<Rightarrow> string \<Rightarrow> query_result option" where
  "show_create_database u sql =
     map_option (\<lambda>r. let db = trim_char backtick (trim r) in
         QRows [''Database'', ''Create Database'']
           [[Some db, Some (''CREATE DATABASE '' @ [backtick] @ db @ [backtick] @
               '' /*!40100 DEFAULT CHARACTER SET utf8mb4 */'')]])
       (str_from (if starts_with ''SHOW CREATE DATABASE'' u then 20 else 19) sql)"

definition show_variables :: query_result where
  "show_variables =
     QRows [''Variable_name'', ''Value'']
       (map (\<lambda>(n, v). [Some n, Some v])
          [(''character_set_client'', ''utf8mb4''), (''character_set_connection'', ''utf8mb4''),
           (''character_set_results'', ''utf8mb4''), (''collation_connection'', ''utf8mb4_0900_ai_ci''),
           (''max_allowed_packet'', ''67108864''), (''net_write_timeout'', ''60''),
           (''interactive_timeout'', ''28800''), (''wait_timeout'', ''28800''),
           (''sql_mode'', ''STRICT_TRANS_TABLES'')])"

definition show_status :: query_result where
  "show_status =
     QRows [''Variable_name'', ''Value'']
       [[Some ''Uptime'', Some ''0''], [Some ''Threads_connected'', Some ''1'']]"

text \<open>The table of SHOW INDEX, from the text; the keywords are matched in upper case only.\<close>

definition index_name :: "string \<Rightarrow> string" where
  "index_name sql =
     (let s = trim_start_by is_ws sql;
          s = (case find_char is_ws s of Some p \<Rightarrow> drop (p + 1) s | None \<Rightarrow> []);
          s = trim_start_str ''KEYS'' (trim_start_str ''INDEX'' (trim_start_str ''INDEXES'' (trim_start_by is_ws s)));
          s = trim_start_str ''from'' (trim_start_str ''FROM'' (trim_start_by is_ws s))
      in case split_whitespace (trim_start_by is_ws s) of w # _ \<Rightarrow> trim_char backtick w | [] \<Rightarrow> [])"

definition index_columns :: "string list" where
  "index_columns =
     [''Table'', ''Non_unique'', ''Key_name'', ''Seq_in_index'', ''Column_name'', ''Collation'',
      ''Cardinality'', ''Sub_part'', ''Packed'', ''Null'', ''Index_type'', ''Comment'', ''Index_comment'', ''Visible'']"

definition show_index :: "string \<Rightarrow> string \<Rightarrow> engine \<Rightarrow> query_result option" where
  "show_index cur sql e =
     (let (db, t) = qualified_name id cur (index_name sql)
      in case get_table e db t of
           None \<Rightarrow> Some (QRows index_columns [])
         | Some tab \<Rightarrow>
             map_option (QRows index_columns)
               (key_rows (\<lambda>db t tab c. [Some t, Some ''0'', Some ''PRIMARY'', Some ''1'', Some c, Some ''A'',
                    Some (show_nat (length (rows tab))), None, None, Some [], Some ''BTREE'', Some [], Some [],
                    Some ''YES'']) [(db, t, tab)]))"

section \<open>System variables\<close>

definition sysvars :: "(string \<times> string) list" where
  "sysvars =
     [(''max_allowed_packet'', ''67108864''), (''character_set_client'', ''utf8mb4''),
      (''character_set_connection'', ''utf8mb4''), (''character_set_results'', ''utf8mb4''),
      (''character_set_server'', ''utf8mb4''), (''collation_connection'', ''utf8mb4_general_ci''),
      (''collation_server'', ''utf8mb4_general_ci''), (''time_zone'', ''UTC''),
      (''sql_mode'', ''STRICT_TRANS_TABLES''), (''auto_increment_increment'', ''1''),
      (''transaction_isolation'', ''REPEATABLE-READ''), (''tx_isolation'', ''REPEATABLE-READ''),
      (''lower_case_table_names'', ''0''), (''version'', ''8.0.32-RunAlexDB''),
      (''version_comment'', ''RunAlexDB''), (''wait_timeout'', ''28800''),
      (''interactive_timeout'', ''28800''), (''net_write_timeout'', ''60''),
      (''net_read_timeout'', ''30''), (''init_connect'', [])]"

definition sysvar_value :: "string \<Rightarrow> string option" where
  "sysvar_value n =
     map_of sysvars
       (trim_start_str ''global.'' (trim_start_str ''session.'' (trim_start_by (\<lambda>c. c = CHR ''@'') (to_lower n))))"

definition sysvar_item :: "string \<Rightarrow> string \<times> string" where
  "sysvar_item part =
     (let part = trim part;
          (var, alias) =
            (case find_sub '' AS '' (to_upper part) of
               Some p \<Rightarrow> (trim (take p part), trim_char quote (trim_char backtick (trim (drop (p + 4) part))))
             | None \<Rightarrow> (part, trim_char backtick part))
      in (alias, case sysvar_value (trim var) of Some v \<Rightarrow> v | None \<Rightarrow> trim var))"

definition exec_select_sysvar :: "string \<Rightarrow> query_result" where
  "exec_select_sysvar sql =
     (let items = map sysvar_item (split_char (CHR '','')
            (case find_sub ''SELECT '' (to_upper sql) of Some p \<Rightarrow> drop (p + 7) sql | None \<Rightarrow> sql))
      in QRows (map fst items) [map (Some \<circ> snd) items])"

section \<open>One table\<close>

definition or_test :: "string option \<Rightarrow> string" where
  "or_test cur = (case cur of Some d \<Rightarrow> d | None \<Rightarrow> ''test'')"

definition read_table :: "string option \<Rightarrow> string \<Rightarrow> engine \<Rightarrow> query_result + string \<times> table" where
  "read_table cur n e =
     (let (db, t) = qualified_name (trim_char backtick) (or_test cur) n
      in case databases e db of
           None \<Rightarrow> Inl (QErr 1049 ''Unknown database'')
         | Some d \<Rightarrow> (case tables d t of None \<Rightarrow> Inl (QErr 1146 ''Table not found'') | Some tab \<Rightarrow> Inr (t, tab)))"

definition describe_row :: "column \<Rightarrow> text_row" where
  "describe_row c =
     [Some (col_name c), Some (show_type (col_type c)), Some (null_text c), Some (key_text c), None,
      Some (extra_text c)]"

definition describe_columns :: "string list" where
  "describe_columns = [''Field'', ''Type'', ''Null'', ''Key'', ''Default'', ''Extra'']"

definition describe_table :: "string option \<Rightarrow> string \<Rightarrow> engine \<Rightarrow> query_result" where
  "describe_table cur n e =
     (case read_table cur n e of
        Inl err \<Rightarrow> err
      | Inr (_, tab) \<Rightarrow> QRows describe_columns (map describe_row (columns tab)))"

definition full_row :: "column \<Rightarrow> text_row" where
  "full_row c =
     [Some (col_name c), Some (show_type (col_type c)),
      if is_str_type (col_type c) then Some ''utf8mb4_general_ci'' else None,
      Some (null_text c), Some (key_text c), None, Some (extra_text c),
      Some ''select,insert,update,references'', Some []]"

definition show_columns :: "string option \<Rightarrow> bool \<Rightarrow> string option \<Rightarrow> engine \<Rightarrow> query_result" where
  "show_columns cur full tbl e =
     (case tbl of
        None \<Rightarrow> QErr 1295 ''SHOW COLUMNS requires FROM table_name''
      | Some n \<Rightarrow>
          (case read_table cur n e of
             Inl err \<Rightarrow> err
           | Inr (_, tab) \<Rightarrow>
               if full
               then QRows [''Field'', ''Type'', ''Collation'', ''Null'', ''Key'', ''Default'', ''Extra'', ''Privileges'', ''Comment'']
                      (map full_row (columns tab))
               else QRows describe_columns (map describe_row (columns tab))))"

definition newline :: string where
  "newline = [CHR 0x0A]"

definition ddl_column :: "column \<Rightarrow> string" where
  "ddl_column c =
     ''  '' @ [backtick] @ col_name c @ [backtick] @ '' '' @ show_type (col_type c) @
     (if nullable c then [] else '' NOT NULL'') @ (if primary_key c then '' PRIMARY KEY'' else [])"

definition show_create_table :: "string option \<Rightarrow> string \<Rightarrow> engine \<Rightarrow> query_result" where
  "show_create_table cur n e =
     (case read_table cur n e of
        Inl err \<Rightarrow> err
      | Inr (t, tab) \<Rightarrow>
          QRows [''Table'', ''Create Table'']
            [[Some t, Some (''CREATE TABLE '' @ [backtick] @ t @ [backtick] @ '' ('' @ newline @
                 join ('','' @ newline) (map ddl_column (columns tab)) @ newline @ '') ENGINE=RunAlexDB'')]])"

end
