(* ===== verification/Exec.thy ===== *)
theory Exec
  imports Catalog
begin

text \<open>
  \<open>parse_cached\<close>, \<open>exec_stmt\<close>, \<open>execute\<close> and \<open>execute_prepared\<close> of src/engine.rs: statements are
  recognised by their text or parsed (through a cache keyed by a hash of the text), checked
  against the privileges of the account and run one after the other. The parser (crate sqlparser),
  SHA-1, the CPU features and the order of the hash maps are the parameters of \<open>env\<close>. The state
  is the statement cache, which all connections share, and the engine.
\<close>

section \<open>Statements\<close>

record create_stmt =
  ct_parts :: "string list"
  ct_columns :: "column_def list"
  ct_if_not_exists :: bool
  ct_query :: "query option"

datatype object_type = ObjTable | ObjDatabase | ObjSchema | ObjOther

text \<open>Names are the texts \<open>to_string\<close> gives, the parts of CREATE TABLE the identifiers.\<close>

datatype stmt =
    StCreateDatabase string
  | StCreateTable create_stmt
  | StInsert string "string list" bool "query option"
  | StQuery query
  | StDrop object_type "string list" bool
  | StUpdate string "query assignments" "query expr option"
  | StDelete "string list" "query expr option"
  | StUse "string option"
  | StTruncate "string list"
  | StExplainTable string
  | StShowColumns bool "string option"
  | StShowCreate bool string
  | StAlterTable string "alter_op list"
  | StOther nat

record env =
  env_crates :: "query crates"
  env_sha1 :: "u8 list \<Rightarrow> u8 list"
  env_avx2 :: bool
  env_sse42 :: bool
  env_parse :: "string \<Rightarrow> string + stmt list"
  env_walk :: walk

section \<open>The statement cache\<close>

type_synonym stmt_cache = "(u64 \<times> stmt list) list"

definition parse_cached :: "env \<Rightarrow> string \<Rightarrow> stmt_cache \<Rightarrow> stmt_cache \<times> (string + stmt list)" where
  "parse_cached v sql c =
     (let key = hash_query (env_sse42 v) (as_bytes sql)
      in case map_of c key of
           Some ss \<Rightarrow> (c, Inr ss)
         | None \<Rightarrow>
             (case env_parse v sql of
                Inr ss \<Rightarrow> ((key, ss) # (if length c > 8192 then [] else c), Inr ss)
              | Inl err \<Rightarrow> (c, Inl (''Parse error: '' @ err))))"

section \<open>CREATE TABLE AS SELECT and INSERT ... SELECT\<close>

definition run_query :: "env \<Rightarrow> string \<Rightarrow> query \<Rightarrow> engine \<Rightarrow> query_result option" where
  "run_query v db q e = select (env_crates v) (env_avx2 v) e db q"

definition guess_type :: "string option list list \<Rightarrow> nat \<Rightarrow> column_type" where
  "guess_type rs i =
     (case rs of
        [] \<Rightarrow> CVarChar 255
      | r # _ \<Rightarrow>
          (case vec_get r i of
             Some (Some s) \<Rightarrow>
               if parse_i64 s \<noteq> None then CBigInt else if f64_parse s \<noteq> None then CFloat else CVarChar 255
           | _ \<Rightarrow> CVarChar 255))"

definition ctas_columns :: "create_stmt \<Rightarrow> string list \<Rightarrow> string option list list \<Rightarrow> column list" where
  "ctas_columns c ns rs =
     (if ct_columns c \<noteq> [] then map make_column (ct_columns c)
      else map (\<lambda>(i, n). \<lparr> col_name = n, col_type = guess_type rs i, nullable = True, primary_key = False \<rparr>)
             (List.enumerate 0 ns))"

definition ctas_cell :: "column list \<Rightarrow> nat \<times> string option \<Rightarrow> Value" where
  "ctas_cell cols iv =
     (case (iv, vec_get cols (fst iv)) of
        ((_, None), _) \<Rightarrow> Null
      | ((_, Some s), None) \<Rightarrow> VText s
      | ((_, Some s), Some c) \<Rightarrow>
          if is_int_type (col_type c) then (case parse_i64 s of Some n \<Rightarrow> VInt n | None \<Rightarrow> VText s)
          else if col_type c = CFloat then (case f64_parse s of Some f \<Rightarrow> VFloat f | None \<Rightarrow> VText s)
          else VText s)"

definition ctas_table :: "string \<Rightarrow> string \<Rightarrow> column list \<Rightarrow> string option list list \<Rightarrow> table" where
  "ctas_table t db cols rs =
     (empty_table t db cols)\<lparr> rows := map (\<lambda>r. map (ctas_cell cols) (List.enumerate 0 r)) rs \<rparr>"

definition create_table_as :: "env \<Rightarrow> string \<Rightarrow> create_stmt \<Rightarrow> query \<Rightarrow> engine \<Rightarrow> step" where
  "create_table_as v cur c q e =
     map_option (\<lambda>r. case text_result (env_crates v) r of
         Inl err \<Rightarrow> (e, err)
       | Inr (ns, rs) \<Rightarrow>
           let (db, t) = name_parts cur (ct_parts c)
           in case databases e db of
                None \<Rightarrow> (e, QErr 1049 (unknown_db db))
              | Some d \<Rightarrow>
                  if ct_if_not_exists c \<and> tables d t \<noteq> None then (e, q_ok 0 0)
                  else (bump_write_gen (put_table db t (ctas_table t db (ctas_columns c ns rs) rs) e), q_ok 0 0))
       (run_query v cur q e)"

definition insert_select :: "env \<Rightarrow> string \<Rightarrow> string \<Rightarrow> query \<Rightarrow> bool \<Rightarrow> string list \<Rightarrow> engine \<Rightarrow> step" where
  "insert_select v cur n q replace_into cols e =
     (let (db, t) = qualified_name id cur n;
          types = (case get_table e db t of Some tab \<Rightarrow> map col_type (columns tab) | None \<Rightarrow> [])
      in do { r \<leftarrow> run_query v db q e;
              case text_result (env_crates v) r of
                Inl err \<Rightarrow> Some (e, err)
              | Inr (_, rs) \<Rightarrow>
                  insert_source_rows (env_crates v) db t (map (coerce_row types) rs) replace_into cols e })"

definition insert_stmt :: "env \<Rightarrow> string \<Rightarrow> string \<Rightarrow> query option \<Rightarrow> bool \<Rightarrow> string list \<Rightarrow> engine \<Rightarrow> step" where
  "insert_stmt v cur n source replace_into cols e =
     (case source of
        None \<Rightarrow> insert_values (env_crates v) cur n None replace_into cols e
      | Some q \<Rightarrow>
          (case q_body q of
             SetValues exprs \<Rightarrow> insert_values (env_crates v) cur n (Some exprs) replace_into cols e
           | _ \<Rightarrow> insert_select v cur n q replace_into cols e))"

section \<open>One statement\<close>

definition first_name :: "string list \<Rightarrow> string" where
  "first_name ns = (case ns of n # _ \<Rightarrow> n | [] \<Rightarrow> [])"

definition exec_stmt :: "env \<Rightarrow> string option \<Rightarrow> stmt \<Rightarrow> engine \<Rightarrow> step" where
  "exec_stmt v cur s e =
     (case s of
        StCreateDatabase n \<Rightarrow> Some (create_database n e)
      | StCreateTable c \<Rightarrow>
          (case ct_query c of
             Some q \<Rightarrow> create_table_as v (or_test cur) c q e
           | None \<Rightarrow> Some (create_table (or_test cur) (ct_parts c) (ct_columns c) (ct_if_not_exists c) e))
      | StInsert n cols replace_into source \<Rightarrow> insert_stmt v (or_test cur) n source replace_into cols e
      | StQuery q \<Rightarrow> map_option (Pair e) (run_query v (or_test cur) q e)
      | StDrop ty ns if_exists \<Rightarrow>
          Some (case ty of
                  ObjTable \<Rightarrow> drop_tables (or_test cur) if_exists ns e
                | ObjOther \<Rightarrow> (e, q_ok 0 0)
                | _ \<Rightarrow> drop_databases if_exists ns e)
      | StUpdate n asgns sel \<Rightarrow> update_stmt (env_crates v) (or_test cur) n asgns sel e
      | StDelete ns sel \<Rightarrow> delete_stmt (env_crates v) (or_test cur) (first_name ns) sel e
      | StUse _ \<Rightarrow> Some (e, q_ok 0 0)
      | StTruncate ns \<Rightarrow> truncate_stmt cur (first_name ns) e
      | StExplainTable n \<Rightarrow> Some (e, describe_table cur n e)
      | StShowColumns full tbl \<Rightarrow> Some (e, show_columns cur full tbl e)
      | StShowCreate is_table n \<Rightarrow>
          Some (e, if is_table then show_create_table cur n e
                   else QErr 1295 ''SHOW CREATE only supported for TABLE'')
      | StAlterTable n opers \<Rightarrow> alter_stmt cur n opers e
      | StOther _ \<Rightarrow> Some (e, QErr 1295 ''Statement not yet supported''))"

definition needs_write :: "stmt \<Rightarrow> bool" where
  "needs_write s \<longleftrightarrow>
     (case s of
        StInsert _ _ _ _ \<Rightarrow> True | StUpdate _ _ _ \<Rightarrow> True | StDelete _ _ \<Rightarrow> True
      | StCreateTable _ \<Rightarrow> True | StCreateDatabase _ \<Rightarrow> True | StDrop _ _ _ \<Rightarrow> True | _ \<Rightarrow> False)"

text \<open>The statements of a batch; USE changes the database for the rest, an OK bumps the generation.\<close>

definition batch_db :: "string option \<Rightarrow> stmt \<Rightarrow> string option" where
  "batch_db cur s = (case s of StUse (Some n) \<Rightarrow> Some (trim_char backtick n) | _ \<Rightarrow> cur)"

definition bump_if_ok :: "engine \<times> query_result \<Rightarrow> engine \<times> query_result" where
  "bump_if_ok er = (case snd er of QOk _ _ \<Rightarrow> (bump_write_gen (fst er), snd er) | _ \<Rightarrow> er)"

fun run_stmts :: "env \<Rightarrow> string option \<Rightarrow> stmt list \<Rightarrow> engine \<times> query_result \<Rightarrow> step" where
  "run_stmts v cur [] (e, res) = Some (e, res)"
| "run_stmts v cur (s # ss) (e, res) =
     do { er \<leftarrow> exec_stmt v (batch_db cur s) s e;
          run_stmts v (batch_db cur s) ss (bump_if_ok er) }"

section \<open>Statements recognised by their text\<close>

definition select_database :: "string \<Rightarrow> string option \<Rightarrow> query_result" where
  "select_database u cur =
     QRows [if contains ''SCHEMA'' u then ''SCHEMA()'' else ''DATABASE()'']
       [[case cur of Some db \<Rightarrow> if db = [] then None else Some db | None \<Rightarrow> None]]"

definition is_select_database :: "string \<Rightarrow> bool" where
  "is_select_database u \<longleftrightarrow>
     trim_end_by (\<lambda>c. c = CHR '';'') u \<in>
       {''SELECT DATABASE()'', ''SELECT SCHEMA()'', ''SELECT DATABASE() AS DATABASE()''}"

definition ignored :: "string \<Rightarrow> bool" where
  "ignored u \<longleftrightarrow>
     starts_with ''SET '' u \<or> u \<in> {''BEGIN'', ''COMMIT'', ''ROLLBACK'', ''ROLLBACK;'', ''COMMIT;''}"

definition info_view :: "env \<Rightarrow> string \<Rightarrow> engine \<Rightarrow> query_result option option" where
  "info_view v u e =
     (if contains ''INFORMATION_SCHEMA.TABLES'' u \<or> contains (''INFORMATION_SCHEMA.'' @ [backtick] @ ''TABLES'' @ [backtick]) u
      then Some (Some (info_tables (env_walk v) u e))
      else if contains ''INFORMATION_SCHEMA.COLUMNS'' u \<or> contains (''INFORMATION_SCHEMA.'' @ [backtick] @ ''COLUMNS'' @ [backtick]) u
      then Some (Some (info_columns (env_walk v) u e))
      else if contains ''INFORMATION_SCHEMA.KEY_COLUMN_USAGE'' u then Some (info_key_usage (env_walk v) u e)
      else if contains ''INFORMATION_SCHEMA.STATISTICS'' u then Some (info_statistics (env_walk v) u e)
      else if contains ''INFORMATION_SCHEMA.SCHEMATA'' u then Some (Some (info_schemata (env_walk v) e))
      else None)"

definition show_command :: "string option \<Rightarrow> string \<Rightarrow> string \<Rightarrow> engine \<Rightarrow> query_result option option" where
  "show_command cur sql u e =
     (if starts_with ''SHOW CREATE DATABASE'' u \<or> starts_with ''SHOW CREATE SCHEMA'' u
      then Some (show_create_database u sql)
      else if starts_with ''SHOW VARIABLES'' u \<or> starts_with ''SHOW SESSION VARIABLES'' u then Some (Some show_variables)
      else if starts_with ''SHOW PROCESSLIST'' u \<or> starts_with ''SHOW FULL PROCESSLIST'' u
      then Some (Some (QRows [''Id'', ''User'', ''Host'', ''db'', ''Command'', ''Time'', ''State'', ''Info''] []))
      else if starts_with ''SHOW WARNINGS'' u \<or> starts_with ''SHOW ERRORS'' u
      then Some (Some (QRows [''Level'', ''Code'', ''Message''] []))
      else if starts_with ''SHOW INDEX'' u \<or> starts_with ''SHOW INDEXES'' u \<or> starts_with ''SHOW KEYS'' u
      then Some (show_index (or_test cur) sql e)
      else if starts_with ''SHOW STATUS'' u \<or> starts_with ''SHOW GLOBAL STATUS'' u then Some (Some show_status)
      else None)"

text \<open>The reads, in the order they are tried after the statements on accounts.\<close>

definition builtin_read :: "env \<Rightarrow> string option \<Rightarrow> string \<Rightarrow> string \<Rightarrow> engine \<Rightarrow> query_result option option" where
  "builtin_read v cur sql u e =
     (if starts_with ''SHOW GRANTS'' u then Some (Some (exec_show_grants (env_walk v) (trim sql) e))
      else if starts_with ''SHOW USERS'' u \<or> u = ''SELECT USER FROM MYSQL.USER'' then Some (Some (show_users (env_walk v) e))
      else if starts_with ''SHOW DATABASES'' u then Some (Some (show_databases (env_walk v) e))
      else if starts_with ''SHOW TABLES'' u then Some (Some (show_tables (env_walk v) (or_test cur) e))
      else if starts_with ''SELECT @@'' u then Some (Some (exec_select_sysvar (trim sql)))
      else if starts_with ''SELECT LAST_INSERT_ID()'' u
      then Some (Some (QRows [''LAST_INSERT_ID()''] [[Some (show_u64 (last_insert_id e))]]))
      else if ignored u then Some (Some (q_ok 0 0))
      else (case info_view v u e of Some r \<Rightarrow> Some r | None \<Rightarrow> show_command cur sql u e))"

definition builtin_select :: "string option \<Rightarrow> string \<Rightarrow> query_result option" where
  "builtin_select cur u =
     (if u = ''SELECT 1'' \<or> u = ''SELECT 1;'' then Some (QRows [''1''] [[Some ''1'']])
      else if starts_with ''SELECT VERSION'' u then Some (QRows [''VERSION()''] [[Some ''8.0.32-RunAlexDB'']])
      else if is_select_database u then Some (select_database u cur)
      else None)"

text \<open>The statements on accounts.\<close>

definition user_stmt :: "env \<Rightarrow> string \<Rightarrow> string \<Rightarrow> engine \<Rightarrow> step option" where
  "user_stmt v sql u e =
     (if starts_with ''CREATE USER'' u then Some (exec_create_user (env_sha1 v) (trim sql) e)
      else if starts_with ''DROP USER'' u then Some (exec_drop_user (trim sql) e)
      else if starts_with ''GRANT '' u then Some (exec_grant (env_sha1 v) (trim sql) e)
      else if starts_with ''REVOKE '' u then Some (exec_revoke (trim sql) e)
      else None)"

text \<open>\<open>builtin\<close> is \<open>None\<close> for a statement that goes to the parser.\<close>

definition builtin :: "env \<Rightarrow> string option \<Rightarrow> string \<Rightarrow> engine \<Rightarrow> step option" where
  "builtin v cur sql e =
     (let u = to_upper (trim sql) in
      case builtin_select cur u of
        Some r \<Rightarrow> Some (Some (e, r))
      | None \<Rightarrow>
          (case user_stmt v sql u e of
             Some st \<Rightarrow> Some st
           | None \<Rightarrow> map_option (map_option (Pair e)) (builtin_read v cur sql u e)))"

section \<open>execute and execute_prepared\<close>

type_synonym server = "stmt_cache \<times> engine"

definition checked :: "string \<Rightarrow> string option \<Rightarrow> stmt list \<Rightarrow> (engine \<Rightarrow> step) \<Rightarrow> engine \<Rightarrow> step" where
  "checked user cur ss run e =
     (case privilege_error user cur (list_ex needs_write ss) e of Some err \<Rightarrow> Some (e, err) | None \<Rightarrow> run e)"

definition execute :: "env \<Rightarrow> string \<Rightarrow> string option \<Rightarrow> string \<Rightarrow> server \<Rightarrow> (server \<times> query_result) option" where
  "execute v sql cur user ce =
     (case builtin v cur sql (snd ce) of
        Some st \<Rightarrow> map_option (\<lambda>(e, r). ((fst ce, e), r)) st
      | None \<Rightarrow>
          (case parse_cached v sql (fst ce) of
             (c, Inl err) \<Rightarrow> Some ((c, snd ce), QErr 1064 err)
           | (c, Inr ss) \<Rightarrow>
               map_option (\<lambda>(e, r). ((c, e), r))
                 (checked user cur ss (\<lambda>e. run_stmts v cur ss (e, q_ok 0 0)) (snd ce))))"

definition bound_value :: "string option \<Rightarrow> Value" where
  "bound_value p =
     (case p of
        None \<Rightarrow> Null
      | Some s \<Rightarrow>
          (case parse_i64 s of
             Some n \<Rightarrow> VInt n
           | None \<Rightarrow> (case f64_parse s of Some f \<Rightarrow> VFloat f | None \<Rightarrow> VText s)))"

definition exec_stmt_prepared :: "env \<Rightarrow> Value list \<Rightarrow> string option \<Rightarrow> stmt \<Rightarrow> engine \<Rightarrow> step" where
  "exec_stmt_prepared v bound cur s e =
     (case s of
        StQuery q \<Rightarrow> map_option (Pair e) (select_prepared (env_crates v) e (or_test cur) q bound)
      | StInsert n cols replace_into source \<Rightarrow>
          (case map_option q_body source of
             None \<Rightarrow> Some (e, QErr 1064 ''INSERT without VALUES'')
           | Some (SetValues exprs) \<Rightarrow> insert_prepared (env_crates v) (or_test cur) n exprs bound e
           | Some _ \<Rightarrow> Some (e, QErr 1064 ''Only VALUES inserts supported''))
      | StUpdate n asgns sel \<Rightarrow> update_prepared (env_crates v) (or_test cur) n asgns sel bound e
      | StDelete ns sel \<Rightarrow> delete_prepared (env_crates v) (or_test cur) (first_name ns) sel bound e
      | _ \<Rightarrow> exec_stmt v cur s e)"

fun run_prepared :: "env \<Rightarrow> Value list \<Rightarrow> string option \<Rightarrow> stmt list \<Rightarrow> engine \<times> query_result \<Rightarrow> step" where
  "run_prepared v bound cur [] (e, res) = Some (e, res)"
| "run_prepared v bound cur (s # ss) (e, res) =
     do { er \<leftarrow> exec_stmt_prepared v bound cur s e; run_prepared v bound cur ss er }"

definition execute_prepared :: "env \<Rightarrow> string \<Rightarrow> string option list \<Rightarrow> string option \<Rightarrow> string \<Rightarrow> server \<Rightarrow>
    (server \<times> query_result) option" where
  "execute_prepared v sql params cur user ce =
     (case parse_cached v sql (fst ce) of
        (c, Inl err) \<Rightarrow> Some ((c, snd ce), QErr 1064 err)
      | (c, Inr ss) \<Rightarrow>
          map_option (\<lambda>(e, r). ((c, e), r))
            (checked user cur ss (\<lambda>e. run_prepared v (map bound_value params) cur ss (e, q_ok 0 0)) (snd ce)))"

end
