(* ===== verification/Exec_Laws.thy ===== *)
theory Exec_Laws
  imports Exec
begin

text \<open>
  What Exec guarantees: the statement cache is bounded and answers as the parser does unless two
  texts share a hash; an account without the write privilege cannot change a database except by
  TRUNCATE and ALTER TABLE, which are not checked; statements on accounts are not checked at all;
  a statement that answers OK moves the write generation, a prepared one does not.
\<close>

section \<open>The statement cache\<close>

definition sql_key :: "env \<Rightarrow> string \<Rightarrow> u64" where
  "sql_key v sql = hash_query (env_sse42 v) (as_bytes sql)"

definition cache_sound :: "env \<Rightarrow> stmt_cache \<Rightarrow> bool" where
  "cache_sound v c \<longleftrightarrow>
     (\<forall>k ss. map_of c k = Some ss \<longrightarrow> (\<exists>sql. sql_key v sql = k \<and> env_parse v sql = Inr ss))"

definition parsed :: "env \<Rightarrow> string \<Rightarrow> string + stmt list" where
  "parsed v sql = (case env_parse v sql of Inr ss \<Rightarrow> Inr ss | Inl err \<Rightarrow> Inl (''Parse error: '' @ err))"

lemma parse_cached_eq:
  "parse_cached v sql c =
     (case map_of c (sql_key v sql) of
        Some ss \<Rightarrow> (c, Inr ss)
      | None \<Rightarrow>
          (case env_parse v sql of
             Inr ss \<Rightarrow> ((sql_key v sql, ss) # (if length c > 8192 then [] else c), Inr ss)
           | Inl err \<Rightarrow> (c, Inl (''Parse error: '' @ err))))"
  unfolding parse_cached_def sql_key_def Let_def ..

lemma parse_cached_sound:
  assumes "cache_sound v c"
  shows "cache_sound v (fst (parse_cached v sql c))"
  using assms by (auto simp: parse_cached_eq cache_sound_def split: option.splits sum.splits if_splits)

lemma parse_cached_bounded:
  assumes "length c \<le> 8193"
  shows "length (fst (parse_cached v sql c)) \<le> 8193"
proof (cases "map_of c (sql_key v sql)")
  case None
  show ?thesis
  proof (cases "env_parse v sql")
    case (Inr ss)
    then show ?thesis using None by (cases "8192 < length c") (simp_all add: parse_cached_eq)
  qed (use None assms in \<open>simp add: parse_cached_eq\<close>)
qed (use assms in \<open>simp add: parse_cached_eq\<close>)

lemma parse_cached_parser:
  assumes "cache_sound v c" "\<And>sql'. sql_key v sql' = sql_key v sql \<Longrightarrow> env_parse v sql' = env_parse v sql"
  shows "snd (parse_cached v sql c) = parsed v sql"
proof (cases "map_of c (sql_key v sql)")
  case (Some ss)
  then obtain sql' where "sql_key v sql' = sql_key v sql" "env_parse v sql' = Inr ss"
    using assms(1) unfolding cache_sound_def by blast
  then have "env_parse v sql = Inr ss" using assms(2) [of sql'] by simp
  then show ?thesis using Some by (simp add: parse_cached_eq parsed_def)
qed (simp add: parse_cached_eq parsed_def split: sum.split)

lemma parse_cached_collision:
  assumes "sql_key v sql' = sql_key v sql" "map_of c (sql_key v sql) = None" "env_parse v sql = Inr ss"
  shows "snd (parse_cached v sql' (fst (parse_cached v sql c))) = Inr ss"
  using assms by (simp add: parse_cached_eq)

section \<open>Reading statements\<close>

definition reads_only :: "stmt \<Rightarrow> bool" where
  "reads_only s \<longleftrightarrow>
     \<not> needs_write s \<and> (case s of StTruncate _ \<Rightarrow> False | StAlterTable _ _ \<Rightarrow> False | _ \<Rightarrow> True)"

lemma exec_reads: "reads_only s \<Longrightarrow> exec_stmt v cur s e = Some (e', r) \<Longrightarrow> e' = e"
  by (cases s) (auto simp: reads_only_def needs_write_def exec_stmt_def)

lemma bump_if_ok_fields [simp]:
  "databases (fst (bump_if_ok er)) = databases (fst er)" "users (fst (bump_if_ok er)) = users (fst er)"
  by (simp_all add: bump_if_ok_def bump_write_gen_def split: query_result.split)

lemma run_reads:
  "list_all reads_only ss \<Longrightarrow> run_stmts v cur ss er = Some (e', r) \<Longrightarrow>
   databases e' = databases (fst er) \<and> users e' = users (fst er)"
proof (induction ss arbitrary: cur er)
  case (Cons s ss)
  obtain e res where er: "er = (e, res)" by (cases er)
  obtain er1 where s: "exec_stmt v (batch_db cur s) s e = Some er1"
    "run_stmts v (batch_db cur s) ss (bump_if_ok er1) = Some (e', r)"
    using Cons.prems(2) by (auto simp: er bind_eq_Some_conv)
  then have "fst er1 = e" using Cons.prems(1) exec_reads by (cases er1) auto
  then show ?case using Cons.IH [OF _ s(2)] Cons.prems(1) by (simp add: er)
qed (cases er, auto)

lemma user_stmts_databases:
  "exec_create_user h sql e = Some (e', r) \<Longrightarrow> databases e' = databases e"
  "exec_drop_user sql e = Some (e', r) \<Longrightarrow> databases e' = databases e"
  "exec_grant h sql e = Some (e', r) \<Longrightarrow> databases e' = databases e"
  "exec_revoke sql e = Some (e', r) \<Longrightarrow> databases e' = databases e"
  by (auto simp: exec_create_user_def exec_drop_user_def exec_grant_def exec_revoke_def ok_or_unwrap_err_def
      put_user_def bump_write_gen_def bind_eq_Some_conv Let_def split: if_splits option.splits)

lemma builtin_databases:
  "builtin v cur sql e = Some (Some (e', r)) \<Longrightarrow> databases e' = databases e"
  by (auto simp: builtin_def user_stmt_def Let_def split: option.splits if_splits
      dest: user_stmts_databases)

text \<open>Without the write privilege, only TRUNCATE and ALTER TABLE change a database.\<close>

definition unchecked_writes :: "stmt list \<Rightarrow> bool" where
  "unchecked_writes ss \<longleftrightarrow> list_ex (\<lambda>s. case s of StTruncate _ \<Rightarrow> True | StAlterTable _ _ \<Rightarrow> True | _ \<Rightarrow> False) ss"

lemma not_writing:
  "\<not> list_ex needs_write ss \<Longrightarrow> \<not> unchecked_writes ss \<Longrightarrow> list_all reads_only ss"
  by (induction ss) (auto simp: unchecked_writes_def reads_only_def split: stmt.splits)

lemma execute_read_only:
  assumes "users (snd ce) user = Some d" "\<not> can_write d"
    and "\<And>ss. snd (parse_cached v sql (fst ce)) = Inr ss \<Longrightarrow> \<not> unchecked_writes ss"
    and "execute v sql cur user ce = Some (ce', r)"
  shows "databases (snd ce') = databases (snd ce)"
proof (cases "builtin v cur sql (snd ce)")
  case (Some st)
  then show ?thesis using assms(4) by (auto simp: execute_def dest: builtin_databases)
next
  case None
  obtain c res where p: "parse_cached v sql (fst ce) = (c, res)" by fastforce
  show ?thesis
  proof (cases res)
    case (Inr ss)
    show ?thesis
    proof (cases "list_ex needs_write ss")
      case True
      then have "privilege_error user cur True (snd ce) \<noteq> None"
        using assms(1,2) by (intro privilege_error_denies)
      then show ?thesis using assms(4) None p Inr True by (auto simp: execute_def checked_def)
    next
      case False
      then have "list_all reads_only ss" using assms(3) p Inr by (intro not_writing) simp_all
      then show ?thesis
        using assms(4) None p Inr by (auto simp: execute_def checked_def split: option.splits dest: run_reads)
    qed
  qed (use assms(4) None p in \<open>auto simp: execute_def\<close>)
qed

text \<open>Statements on accounts run for anyone.\<close>

lemma user_stmt_unchecked:
  assumes "builtin_select cur (to_upper (trim sql)) = None" "user_stmt v sql (to_upper (trim sql)) (snd ce) = Some st"
  shows "execute v sql cur user ce = map_option (\<lambda>(e, r). ((fst ce, e), r)) st"
  using assms by (simp add: execute_def builtin_def Let_def)

section \<open>Refused statements\<close>

text \<open>A statement that is parsed is answered with the error of the privilege check, as text and as prepared
  statement, and the engine stays as it is.\<close>

definition refuses :: "env \<Rightarrow> string \<Rightarrow> string option \<Rightarrow> string \<Rightarrow> stmt_cache \<Rightarrow> engine \<Rightarrow> query_result \<Rightarrow> bool" where
  "refuses v user cur sql c e err \<longleftrightarrow>
     (let c' = fst (parse_cached v sql c)
      in (builtin v cur sql e = None \<longrightarrow> execute v sql cur user (c, e) = Some ((c', e), err)) \<and>
         (\<forall>params. execute_prepared v sql params cur user (c, e) = Some ((c', e), err)))"

lemma refused:
  assumes "snd (parse_cached v sql c) = Inr ss" "privilege_error user cur (list_ex needs_write ss) e = Some err"
  shows "refuses v user cur sql c e err"
proof -
  obtain c' where "parse_cached v sql c = (c', Inr ss)" using assms(1) by (metis prod.collapse)
  then show ?thesis using assms(2) by (simp add: refuses_def execute_def execute_prepared_def checked_def)
qed

text \<open>What a REVOKE takes from an account: everything, or one database of those it is restricted to; an
  account without such a restriction keeps what it has when one database is revoked.\<close>

lemma revoke_refuses:
  assumes "find_sub '' FROM '' (to_upper sql) = Some p" "revoke_target sql p = Some (u, db)" "users e u = Some d"
  shows "\<exists>e'. exec_revoke sql e = Some (e', q_ok 0 0) \<and> databases e' = databases e \<and>
    (\<forall>u'. u' \<noteq> u \<longrightarrow> users e' u' = users e u') \<and>
    (\<forall>v text cur c ss. snd (parse_cached v text c) = Inr ss \<longrightarrow>
      (\<forall>n. cur = Some n \<longrightarrow> db = None \<or> db = Some n \<and> allowed_dbs d \<noteq> None \<longrightarrow>
         refuses v u cur text c e' (access_denied u n)) \<and>
      (cur = None \<longrightarrow> db = None \<longrightarrow> list_ex needs_write ss \<longrightarrow> refuses v u cur text c e' no_write)) \<and>
    (db \<noteq> None \<longrightarrow> allowed_dbs d = None \<longrightarrow> users e' = users e)"
proof (intro exI conjI)
  let ?e = "bump_write_gen (put_user u (revoke_user db d) e)"
  have u: "users ?e = (users e)(u \<mapsto> revoke_user db d)" by (simp add: bump_write_gen_def put_user_def)
  show "exec_revoke sql e = Some (?e, q_ok 0 0)" by (rule revoke_effect [OF assms])
  show "databases ?e = databases e" by (simp add: bump_write_gen_def put_user_def)
  show "\<forall>u'. u' \<noteq> u \<longrightarrow> users ?e u' = users e u'" by (simp add: u)
  show "\<forall>v text cur c ss. snd (parse_cached v text c) = Inr ss \<longrightarrow>
      (\<forall>n. cur = Some n \<longrightarrow> db = None \<or> db = Some n \<and> allowed_dbs d \<noteq> None \<longrightarrow>
         refuses v u cur text c ?e (access_denied u n)) \<and>
      (cur = None \<longrightarrow> db = None \<longrightarrow> list_ex needs_write ss \<longrightarrow> refuses v u cur text c ?e no_write)"
  proof (intro allI impI conjI)
    fix v sql1 cur c n and ss :: "stmt list"
    assume ss: "snd (parse_cached v sql1 c) = Inr ss"
    have d: "users ?e u = Some (revoke_user db d)" by (simp add: u)
    show "refuses v u cur sql1 c ?e (access_denied u n)"
      if "cur = Some n" "db = None \<or> db = Some n \<and> allowed_dbs d \<noteq> None"
      unfolding that(1) by (rule refused [OF ss revoked_privilege(1) [OF d that(2)]])
    show "refuses v u cur sql1 c ?e no_write" if "cur = None" "db = None" "list_ex needs_write ss"
      using that(3) revoked_privilege(2) [OF d that(2)] unfolding that(1) by (intro refused [OF ss]) simp
  qed
  show "db \<noteq> None \<longrightarrow> allowed_dbs d = None \<longrightarrow> users ?e = users e"
  proof (intro impI)
    assume "db \<noteq> None" "allowed_dbs d = None"
    then have "revoke_user db d = d" by (auto simp: revoke_user_def)
    then show "users ?e = users e" unfolding u using assms(3) by (simp add: fun_upd_idem)
  qed
qed

section \<open>Prepared INSERT\<close>

text \<open>The column list and REPLACE of a prepared INSERT are not looked at.\<close>

lemma prepared_insert_ignores: "exec_stmt_prepared v bound cur (StInsert n cols rep src) e = exec_stmt_prepared v bound cur (StInsert n [] False src) e"
  by (simp add: exec_stmt_prepared_def)

lemma prepared_insert_stmt:
  assumes "list_all2 (list_all2 (fits (env_crates v))) ess vss" "bound = concat (map2 (bound_cells (env_crates v)) ess vss)"
    and "q_body q = SetValues ess" "qualified_name (trim_char backtick) (or_test cur) n = (db, t)" "get_table e db t = Some tab"
  shows "\<exists>tab'. insert_source_rows (env_crates v) db t vss False [] e =
      Some ((put_table db t tab' e)\<lparr> last_insert_id := last_pk tab' \<rparr>, q_ok (length vss) (last_pk tab')) \<and>
    exec_stmt_prepared v bound cur (StInsert n cols rep (Some q)) e =
      Some (put_table db t (tab'\<lparr> next_auto := next_auto tab \<rparr>) e, q_ok (length vss) 0)"
proof -
  obtain tab' where tab': "insert_all (env_crates v) False [] vss tab = Some tab'"
    "insert_prepared_rows (env_crates v) bound ess 0 tab = tab'\<lparr> next_auto := next_auto tab \<rparr>"
    using insert_prepared_is_insert [of "env_crates v" ess vss bound "[]" tab] assms(1,2) by auto
  obtain d where d: "databases e db = Some d" "tables d t = Some tab"
    using assms(5) by (auto simp: get_table_def bind_eq_Some_conv)
  have "length ess = length vss" using assms(1) by (rule list_all2_lengthD)
  moreover have "make_col_map (columns tab) [] = []" by (simp add: make_col_map_def)
  ultimately show ?thesis
    using tab' d assms(3,4)
    by (intro exI [of _ tab']) (simp add: insert_source_rows_def with_table_def exec_stmt_prepared_def insert_prepared_def q_ok_def)
qed

section \<open>The write generation\<close>

definition gen_step :: "engine \<Rightarrow> engine \<Rightarrow> bool" where
  "gen_step e e' \<longleftrightarrow> (write_gen e' = write_gen e \<or> write_gen e' = write_gen e + 1) \<and> users e' = users e"

definition gen_same :: "engine \<Rightarrow> engine \<Rightarrow> bool" where
  "gen_same e e' \<longleftrightarrow> write_gen e' = write_gen e \<and> users e' = users e"

lemma gen_step_refl [simp]: "gen_step e e"
  by (simp add: gen_step_def)

lemma gen_same_refl [simp]: "gen_same e e"
  by (simp add: gen_same_def)

lemma gen_same_step: "gen_same e e' \<Longrightarrow> gen_step e e'"
  by (simp add: gen_same_def gen_step_def)

lemma with_table_gen: "with_table db t m1 m2 f e = Some (e', r) \<Longrightarrow> gen_same e e'"
  by (erule with_table_cases) (simp_all add: gen_same_def)

lemma insert_source_gen: "insert_source_rows x db t srcs rep cols e = Some (e', r) \<Longrightarrow> gen_same e e'"
  by (erule insert_source_cases) (auto simp: gen_same_def dest: with_table_gen [unfolded gen_same_def])

lemma row_stmts_gen:
  "insert_values x cur n src rep cols e = Some (e', r) \<Longrightarrow> gen_same e e'"
  "update_stmt x cur n asgns sel e = Some (e', r) \<Longrightarrow> gen_same e e'"
  "delete_stmt x cur n sel e = Some (e', r) \<Longrightarrow> gen_same e e'"
  "insert_prepared x cur n exprs bound e = Some (e', r) \<Longrightarrow> gen_same e e'"
  "update_prepared x cur n asgns sel bound e = Some (e', r) \<Longrightarrow> gen_same e e'"
  "delete_prepared x cur n sel bound e = Some (e', r) \<Longrightarrow> gen_same e e'"
  by (auto simp: insert_values_def update_stmt_def delete_stmt_def insert_prepared_def update_prepared_def
      delete_prepared_def split: option.splits prod.splits dest: insert_source_gen with_table_gen)

lemma insert_select_gen:
  assumes "insert_select v cur n q rep cols e = Some (e', r)"
  shows "gen_same e e'"
proof -
  obtain db t where q: "qualified_name id cur n = (db, t)" by fastforce
  obtain res where res: "run_query v db q e = Some res"
    using assms q by (auto simp: insert_select_def bind_eq_Some_conv Let_def)
  show ?thesis
  proof (cases "text_result (env_crates v) res")
    case (Inr nr)
    then show ?thesis using assms q res
      by (cases nr) (auto simp: insert_select_def Let_def dest: insert_source_gen)
  qed (use assms q res in \<open>simp add: insert_select_def Let_def\<close>)
qed

lemma insert_stmt_gen: "insert_stmt v cur n src rep cols e = Some (e', r) \<Longrightarrow> gen_same e e'"
  by (auto simp: insert_stmt_def split: option.splits set_expr.splits dest: row_stmts_gen insert_select_gen)

lemma drop_tables_gen: "gen_step e (fst (drop_tables cur ife ns e))"
proof (induction ns arbitrary: e)
  case (Cons n ns)
  obtain db t where q: "qualified_name (trim_char backtick) cur n = (db, t)" by fastforce
  have up: "gen_step (e\<lparr> databases := m \<rparr>) e' \<Longrightarrow> gen_step e e'" "gen_step e (e\<lparr> databases := m \<rparr>)" for m e'
    by (simp_all add: gen_step_def)
  have "gen_step e (fst (drop_tables cur ife ns (e\<lparr> databases := m \<rparr>)))" for m
    by (rule up(1)) (rule Cons.IH)
  then show ?case using Cons.IH q up(2) by (auto simp: Let_def split: option.split)
qed (simp add: gen_step_def bump_write_gen_def)

lemma drop_databases_gen: "gen_step e (fst (drop_databases ife ns e))"
proof (induction ife ns e rule: drop_databases.induct)
  case (2 ife n ns e)
  then show ?case by (auto simp: gen_step_def Let_def)
qed (simp add: gen_step_def bump_write_gen_def)

lemma bump_gen: "gen_step e (bump_write_gen e)" "gen_same e e' \<Longrightarrow> gen_step e (bump_write_gen e')"
  by (simp_all add: gen_step_def gen_same_def bump_write_gen_def)

lemma create_table_as_gen:
  assumes "create_table_as v cur c q e = Some (e', r)"
  shows "gen_step e e'"
proof -
  obtain res where res: "run_query v cur q e = Some res" using assms by (auto simp: create_table_as_def)
  obtain db t where nm: "name_parts cur (ct_parts c) = (db, t)" by fastforce
  show ?thesis
  proof (cases "text_result (env_crates v) res")
    case (Inr nr)
    then show ?thesis using assms res nm
      by (cases nr) (auto simp: create_table_as_def bump_gen(2) gen_same_def split: option.splits if_splits)
  qed (use assms res in \<open>simp add: create_table_as_def\<close>)
qed

lemma ddl_gen:
  "gen_step e (fst (create_database n e))" "gen_step e (fst (create_table cur parts defs ine e))"
  "truncate_stmt cur' n e = Some (e', r) \<Longrightarrow> gen_step e e'" "alter_stmt cur' n opers e = Some (e', r) \<Longrightarrow> gen_step e e'"
proof -
  show "gen_step e (fst (create_database n e))" by (simp add: create_database_def gen_step_def split: option.split)
  show "gen_step e (fst (create_table cur parts defs ine e))"
    by (auto simp: create_table_def gen_step_def split: prod.split option.split)
  show "gen_step e e'" if "truncate_stmt cur' n e = Some (e', r)"
    using that
    by (cases r) (auto simp: truncate_stmt_def gen_step_def gen_same_def bump_write_gen_def split: prod.splits dest!: with_table_gen)
  show "gen_step e e'" if "alter_stmt cur' n opers e = Some (e', r)"
    using that
    by (cases r) (auto simp: alter_stmt_def gen_step_def gen_same_def bump_write_gen_def split: prod.splits dest!: with_table_gen)
qed

lemma exec_stmt_gen:
  assumes "exec_stmt v cur s e = Some (e', r)"
  shows "gen_step e e'"
proof (cases s)
  case (StCreateDatabase n)
  then show ?thesis using assms ddl_gen(1) [of e n] by (simp add: exec_stmt_def)
next
  case (StCreateTable c)
  then show ?thesis
    using assms ddl_gen(2) [of e "or_test cur" "ct_parts c" "ct_columns c" "ct_if_not_exists c"]
    by (auto simp: exec_stmt_def split: option.splits dest: create_table_as_gen)
next
  case (StDrop ty ns ife)
  then show ?thesis
    using assms drop_tables_gen [of e "or_test cur" ife ns] drop_databases_gen [of e ife ns]
    by (cases ty) (auto simp: exec_stmt_def)
qed (use assms in \<open>auto simp: exec_stmt_def dest: row_stmts_gen insert_stmt_gen ddl_gen(3,4) intro: gen_same_step\<close>)

text \<open>Each statement of a batch moves the generation by two at most, and one that answers OK moves it, so a
  batch that ends with OK moves it unless it has more than \<open>2 ^ 62\<close> statements.\<close>

lemma run_stmts_gen:
  assumes "run_stmts v cur ss (e, res) = Some (e', r)"
  shows "\<exists>k. write_gen e' = write_gen e + of_nat k \<and> k \<le> 2 * length ss \<and> (ss \<noteq> [] \<longrightarrow> (\<exists>n i. r = QOk n i) \<longrightarrow> 0 < k)"
  using assms
proof (induction ss arbitrary: cur e res)
  case (Cons s ss)
  obtain e1 r1 where s: "exec_stmt v (batch_db cur s) s e = Some (e1, r1)"
    and ss: "run_stmts v (batch_db cur s) ss (bump_if_ok (e1, r1)) = Some (e', r)"
    using Cons.prems by (auto simp: bind_eq_Some_conv)
  obtain j where j: "write_gen e1 = write_gen e + of_nat j" "j \<le> 1"
    using exec_stmt_gen [OF s] that [of 0] that [of 1] by (auto simp: gen_step_def)
  define b where "b = (if \<exists>n i. r1 = QOk n i then 1 else 0 :: nat)"
  have e2: "write_gen (fst (bump_if_ok (e1, r1))) = write_gen e1 + of_nat b" "snd (bump_if_ok (e1, r1)) = r1" "b \<le> 1"
    by (auto simp: bump_if_ok_def bump_write_gen_def b_def split: query_result.splits)
  obtain k where k: "write_gen e' = write_gen (fst (bump_if_ok (e1, r1))) + of_nat k" "k \<le> 2 * length ss"
    "ss \<noteq> [] \<longrightarrow> (\<exists>n i. r = QOk n i) \<longrightarrow> 0 < k"
    using Cons.IH [of "batch_db cur s" "fst (bump_if_ok (e1, r1))" "snd (bump_if_ok (e1, r1))"] ss by auto
  have "ss = [] \<Longrightarrow> r = r1" using ss e2(2) by (cases "bump_if_ok (e1, r1)") simp
  then have "(\<exists>n i. r = QOk n i) \<longrightarrow> 0 < j + b + k" using k(3) by (cases "ss = []") (auto simp: b_def)
  moreover have "write_gen e' = write_gen e + of_nat (j + b + k)" using j(1) e2(1) k(1) by simp
  moreover have "j + b + k \<le> 2 * length (s # ss)" using j(2) e2(3) k(2) by simp
  ultimately show ?case by blast
qed simp

lemma ok_moves_gen:
  assumes "execute v sql cur user ce = Some (ce', QOk n i)" "builtin v cur sql (snd ce) = None"
    and "snd (parse_cached v sql (fst ce)) = Inr ss" "ss \<noteq> []" "length ss < 2 ^ 62"
  shows "write_gen (snd ce') \<noteq> write_gen (snd ce)"
proof -
  obtain c where c: "parse_cached v sql (fst ce) = (c, Inr ss)" using assms(3) by (metis prod.collapse)
  have "privilege_error user cur needs e \<noteq> Some (QOk n i)" for needs e
    by (auto simp: privilege_error_def access_denied_def no_write_def split: option.splits if_splits)
  then have "run_stmts v cur ss (snd ce, q_ok 0 0) = Some (snd ce', QOk n i)"
    using assms(1,2) c by (auto simp: execute_def checked_def split: option.splits)
  then obtain k where k: "write_gen (snd ce') = write_gen (snd ce) + of_nat k" "k \<le> 2 * length ss" "0 < k"
    using run_stmts_gen assms(4) by blast
  have "unat (of_nat k :: u64) = k" using k(2) assms(5) by (simp add: unat_of_nat)
  then have "(of_nat k :: u64) \<noteq> 0" using k(3) by (metis unat_0 less_irrefl)
  then show ?thesis using k(1) by simp
qed

text \<open>The prepared statements on rows leave the generation as it is.\<close>

definition row_stmt :: "stmt \<Rightarrow> bool" where
  "row_stmt s \<longleftrightarrow> (case s of StInsert _ _ _ _ \<Rightarrow> True | StUpdate _ _ _ \<Rightarrow> True | StDelete _ _ \<Rightarrow> True | _ \<Rightarrow> False)"

lemma prepared_stmt_gen:
  "row_stmt s \<Longrightarrow> exec_stmt_prepared v bound cur s e = Some (e', r) \<Longrightarrow> gen_same e e'"
  by (cases s) (auto simp: row_stmt_def exec_stmt_prepared_def split: option.splits set_expr.splits dest: row_stmts_gen)

lemma run_prepared_gen:
  "list_all row_stmt ss \<Longrightarrow> run_prepared v bound cur ss er = Some (e', r) \<Longrightarrow> write_gen e' = write_gen (fst er)"
proof (induction ss arbitrary: er)
  case (Cons s ss)
  then show ?case by (cases er) (fastforce simp: bind_eq_Some_conv gen_same_def dest: prepared_stmt_gen)
qed (cases er, auto)

lemma execute_prepared_gen:
  assumes "execute_prepared v sql params cur user ce = Some (ce', r)"
    and "\<And>ss. snd (parse_cached v sql (fst ce)) = Inr ss \<Longrightarrow> list_all row_stmt ss"
  shows "write_gen (snd ce') = write_gen (snd ce)"
proof -
  obtain c res where p: "parse_cached v sql (fst ce) = (c, res)" by fastforce
  show ?thesis
  proof (cases res)
    case (Inr ss)
    then have "list_all row_stmt ss" using assms(2) p by simp
    then show ?thesis
      using assms(1) p Inr by (auto simp: execute_prepared_def checked_def split: option.splits dest: run_prepared_gen)
  qed (use assms(1) p in \<open>auto simp: execute_prepared_def\<close>)
qed

section \<open>The accounts\<close>

text \<open>No parsed statement touches the accounts, and no statement takes root away.\<close>

lemma exec_stmt_users: "exec_stmt v cur s e = Some (e', r) \<Longrightarrow> users e' = users e"
  using exec_stmt_gen by (simp add: gen_step_def)

lemma run_stmts_users: "run_stmts v cur ss er = Some (e', r) \<Longrightarrow> users e' = users (fst er)"
proof (induction ss arbitrary: cur er)
  case (Cons s ss)
  obtain e res where er: "er = (e, res)" by (cases er)
  obtain er1 where s: "exec_stmt v (batch_db cur s) s e = Some er1"
    "run_stmts v (batch_db cur s) ss (bump_if_ok er1) = Some (e', r)"
    using Cons.prems by (auto simp: er bind_eq_Some_conv)
  show ?case using Cons.IH [OF s(2)] exec_stmt_users [of v _ s e] s(1) by (cases er1) (simp add: er)
qed (cases er, auto)

lemma exec_stmt_prepared_users: "exec_stmt_prepared v bound cur s e = Some (e', r) \<Longrightarrow> users e' = users e"
  by (cases s) (auto simp: exec_stmt_prepared_def gen_same_def
      split: option.splits set_expr.splits dest!: row_stmts_gen exec_stmt_users)

lemma run_prepared_users: "run_prepared v bound cur ss er = Some (e', r) \<Longrightarrow> users e' = users (fst er)"
proof (induction ss arbitrary: er)
  case (Cons s ss)
  then show ?case by (cases er) (auto simp: bind_eq_Some_conv dest!: exec_stmt_prepared_users)
qed (cases er, auto)

lemma checked_users:
  assumes "checked user cur ss run e = Some (e', r)" "\<And>e e' r. run e = Some (e', r) \<Longrightarrow> users e' = users e"
  shows "users e' = users e"
  using assms by (auto simp: checked_def split: option.splits)

text \<open>A property of the accounts that the statements on accounts keep is kept by every statement.\<close>

locale account_invariant =
  fixes P :: "engine \<Rightarrow> bool"
  assumes users_only: "users e' = users e \<Longrightarrow> P e' = P e"
    and user_stmt: "P e \<Longrightarrow> user_stmt v sql u e = Some (Some (e', r)) \<Longrightarrow> P e'"
begin

lemma builtin_kept: "P e \<Longrightarrow> builtin v cur sql e = Some (Some (e', r)) \<Longrightarrow> P e'"
  using user_stmt [of e v sql "to_upper (trim sql)" e' r]
  by (auto simp: builtin_def Let_def split: option.splits)

lemma executed:
  assumes "P (snd ce)" "execute v sql cur user ce = Some (ce', r)"
  shows "P (snd ce')"
proof (cases "builtin v cur sql (snd ce)")
  case (Some st)
  then obtain e' where "st = Some (e', r)" "ce' = (fst ce, e')" using assms(2) by (auto simp: execute_def)
  then show ?thesis using builtin_kept [OF assms(1)] Some by simp
next
  case None
  then have "users (snd ce') = users (snd ce)"
    using assms(2) by (auto simp: execute_def split: prod.splits sum.splits dest!: checked_users run_stmts_users)
  then show ?thesis using users_only assms(1) by blast
qed

lemma executed_prepared:
  assumes "P (snd ce)" "execute_prepared v sql params cur user ce = Some (ce', r)"
  shows "P (snd ce')"
proof -
  have "users (snd ce') = users (snd ce)"
    using assms(2)
    by (auto simp: execute_prepared_def split: prod.splits sum.splits dest!: checked_users run_prepared_users)
  then show ?thesis using users_only assms(1) by blast
qed

end

text \<open>The account root stays, and no other account ever has a privilege: CREATE USER gives none, GRANT
  panics, and REVOKE takes some away.\<close>

lemma root_kept_users: "users e' = users e \<Longrightarrow> root_kept e' = root_kept e"
  by (simp add: root_kept_def)

interpretation root: account_invariant root_kept
  by unfold_locales
    (erule root_kept_users, auto simp: user_stmt_def split: if_splits dest: user_stmts_keep_root)

definition no_privileges :: "db_user \<Rightarrow> bool" where
  "no_privileges d \<longleftrightarrow> allowed_dbs d = Some {} \<and> \<not> can_write d \<and> \<not> is_root d"

definition others_powerless :: "engine \<Rightarrow> bool" where
  "others_powerless e \<longleftrightarrow> (\<forall>u. u \<noteq> ''root'' \<longrightarrow> pred_option no_privileges (users e u))"

lemma powerless_put:
  "others_powerless e \<Longrightarrow> u = ''root'' \<or> no_privileges d \<Longrightarrow> others_powerless (put_user u d e)"
  by (auto simp: others_powerless_def put_user_def)

lemma no_privileges_users:
  "no_privileges (fresh_user sha1 pw)" "no_privileges d \<Longrightarrow> no_privileges (revoke_user db d)"
  by (simp_all add: no_privileges_def fresh_user_def revoke_user_def split: option.split)

lemma powerless_bump [simp]: "others_powerless (bump_write_gen e) = others_powerless e"
  by (simp add: others_powerless_def bump_write_gen_def)

lemma user_stmts_powerless:
  "others_powerless e \<Longrightarrow> exec_create_user sha1 sql e = Some (e', r) \<Longrightarrow> others_powerless e'"
  "others_powerless e \<Longrightarrow> exec_drop_user sql e = Some (e', r) \<Longrightarrow> others_powerless e'"
  "others_powerless e \<Longrightarrow> exec_grant sha1 sql e = Some (e', r) \<Longrightarrow> others_powerless e'"
  "others_powerless e \<Longrightarrow> exec_revoke sql e = Some (e', r) \<Longrightarrow> others_powerless e'"
proof -
  assume pre: "others_powerless e"
  show "exec_create_user sha1 sql e = Some (e', r) \<Longrightarrow> others_powerless e'"
    using pre by (auto simp: exec_create_user_def bind_eq_Some_conv powerless_put no_privileges_users split: if_splits)
  show "exec_drop_user sql e = Some (e', r) \<Longrightarrow> others_powerless e'"
    using pre by (auto simp: exec_drop_user_def bind_eq_Some_conv others_powerless_def Let_def split: if_splits)
  show "exec_grant sha1 sql e = Some (e', r) \<Longrightarrow> others_powerless e'"
    using pre by (auto simp: exec_grant_def ok_or_unwrap_err_def bind_eq_Some_conv split: option.splits)
  show "others_powerless e'" if r: "exec_revoke sql e = Some (e', r)"
  proof -
    obtain u db where "e' = e \<or> (\<exists>d. users e u = Some d \<and> e' = bump_write_gen (put_user u (revoke_user db d) e))"
      using r by (auto simp: exec_revoke_def bind_eq_Some_conv split: option.splits)
    then show ?thesis
    proof (elim disjE exE conjE)
      fix d assume d: "users e u = Some d" "e' = bump_write_gen (put_user u (revoke_user db d) e)"
      have "u = ''root'' \<or> no_privileges d" using pre d(1) by (auto simp: others_powerless_def dest: spec [of _ u])
      then show ?thesis using d(2) pre by (auto intro: powerless_put no_privileges_users)
    qed (use pre in simp)
  qed
qed

interpretation powerless: account_invariant others_powerless
  by unfold_locales
    (simp add: others_powerless_def, auto simp: user_stmt_def split: if_splits dest: user_stmts_powerless)

end
