(* ===== verification/Store_Runs.thy ===== *)
theory Store_Runs
  imports Exec_Laws
begin

text \<open>
  Which runs of statements keep the column stores in step with the rows, so that the scans of the SIMD
  path read what the rows say: every statement of \<open>exec_stmt\<close> but an UPDATE that is not by key or gives
  a cell another kind of value than its column has, an ALTER TABLE of a table whose rows are not as wide
  as its columns, and CREATE TABLE AS SELECT, which fills the rows and leaves the stores empty; the
  prepared statements but UPDATE; ROLLBACK.
\<close>

section \<open>Statements\<close>

text \<open>The shape of a table ALTER TABLE relies on, but for the stores.\<close>

definition alterable :: "'q crates \<Rightarrow> table \<Rightarrow> bool" where
  "alterable x t \<longleftrightarrow>
     index_ok x t \<and> pk_col_idx t = position primary_key (columns t) \<and>
     length (col_int_data t) = length (columns t) \<and> length (col_str_data t) = length (columns t) \<and>
     (\<forall>r\<in>set (rows t). length r = length (columns t))"

lemma table_ok_alterable: "table_ok x t \<longleftrightarrow> store_ok t \<and> alterable x t"
  by (auto simp: table_ok_def alterable_def)

definition keyed_update :: "'q crates \<Rightarrow> 'q assignments \<Rightarrow> 'q expr option \<Rightarrow> table \<Rightarrow> bool" where
  "keyed_update x asgns sel t \<longleftrightarrow> (\<exists>k. pk_eq_key t sel = Some (Some k)) \<and> kinds_ok x t asgns"

definition on_table :: "string option \<Rightarrow> string \<Rightarrow> engine \<Rightarrow> (table \<Rightarrow> bool) \<Rightarrow> bool" where
  "on_table cur n e P \<longleftrightarrow>
     (case qualified_name (trim_char backtick) (or_test cur) n of
        (db, t) \<Rightarrow> \<forall>tab. get_table e db t = Some tab \<longrightarrow> P tab)"

definition stores_follow :: "env \<Rightarrow> string option \<Rightarrow> stmt \<Rightarrow> engine \<Rightarrow> bool" where
  "stores_follow v cur s e \<longleftrightarrow>
     (case s of
        StUpdate n asgns sel \<Rightarrow> on_table cur n e (keyed_update (env_crates v) asgns sel)
      | StAlterTable n opers \<Rightarrow> on_table cur n e (alterable (env_crates v))
      | StCreateTable c \<Rightarrow> ct_query c = None
      | _ \<Rightarrow> True)"

lemma update_stmt_stores:
  assumes "stores_ok e" "update_stmt x (or_test cur) n asgns sel e = Some (e', r)" "on_table cur n e (keyed_update x asgns sel)"
  shows "stores_ok e'"
proof -
  obtain db t where q: "qualified_name (trim_char backtick) (or_test cur) n = (db, t)" by fastforce
  have "store_ok tab'"
    if "get_table e db t = Some tab" "store_ok tab" "update_table x asgns sel tab = Some (tab', k)" for tab tab' k
  proof -
    have "keyed_update x asgns sel tab" using assms(3) that(1) q by (simp add: on_table_def)
    then obtain key where "pk_eq_key tab sel = Some (Some key)" "kinds_ok x tab asgns"
      unfolding keyed_update_def by blast
    then show ?thesis using update_fast_store that(2,3) by blast
  qed
  then show ?thesis
    using assms(2) q by (auto simp: update_stmt_def dest!: with_table_stores_at [OF assms(1)])
qed

lemma alter_stmt_stores:
  assumes "stores_ok e" "alter_stmt cur n opers e = Some (e', r)" "on_table cur n e (alterable x)"
  shows "stores_ok e'"
proof -
  obtain db t where q: "qualified_name (trim_char backtick) (or_test cur) n = (db, t)" by fastforce
  let ?f = "\<lambda>tab. case alter_table opers tab of
      (tab', None) \<Rightarrow> Some (tab', q_ok 0 0) | (tab', Some (code, msg)) \<Rightarrow> Some (tab', QErr code msg)"
  have "store_ok tab'"
    if "get_table e db t = Some tab" "store_ok tab" "?f tab = Some (tab', r)" for tab tab' r
  proof -
    have "table_ok x tab" using assms(3) that(1,2) q by (auto simp: on_table_def table_ok_alterable)
    then have "store_ok (fst (alter_table opers tab))" using alter_table_ok by (auto simp: table_ok_alterable)
    moreover have "tab' = fst (alter_table opers tab)" using that(3) by (auto split: prod.splits option.splits)
    ultimately show ?thesis by simp
  qed
  moreover obtain e1 r1 where e1: "with_table db t ''Unknown database'' ''Table not found'' ?f e = Some (e1, r1)"
    "e' = (case r1 of QOk k pk \<Rightarrow> bump_write_gen e1 | _ \<Rightarrow> e1)"
    using assms(2) q by (auto simp: alter_stmt_def or_test_def)
  ultimately have "stores_ok e1" by (blast intro: with_table_stores_at [OF assms(1) e1(1)])
  then show ?thesis using e1(2) by (cases r1) simp_all
qed

lemma insert_stmt_stores:
  assumes "stores_ok e" "insert_stmt v cur n src rep cols e = Some (e', r)"
  shows "stores_ok e'"
proof -
  have "stores_ok e'" if "insert_values x cur n srcs rep cols e = Some (e', r)" for x :: "query crates" and srcs
    using that assms(1) insert_source_stores [OF assms(1)] by (auto simp: insert_values_def split: option.splits prod.splits)
  moreover have "stores_ok e'" if select: "insert_select v cur n q rep cols e = Some (e', r)" for q
  proof -
    obtain db t where q: "qualified_name id cur n = (db, t)" by fastforce
    obtain res where res: "run_query v db q e = Some res"
      using select q by (auto simp: insert_select_def bind_eq_Some_conv Let_def)
    show ?thesis
    proof (cases "text_result (env_crates v) res")
      case (Inr nr)
      then show ?thesis using select q res
        by (cases nr) (auto simp: insert_select_def Let_def dest: insert_source_stores [OF assms(1)])
    qed (use select q res assms(1) in \<open>simp add: insert_select_def Let_def\<close>)
  qed
  ultimately show ?thesis using assms(2) by (auto simp: insert_stmt_def split: option.splits set_expr.splits)
qed

lemma exec_stmt_stores:
  assumes "stores_ok e" "exec_stmt v cur s e = Some (e', r)" "stores_follow v cur s e"
  shows "stores_ok e'"
proof (cases s)
  case (StCreateDatabase n)
  then have "e' = fst (create_database n e)" using assms(2) by (simp add: exec_stmt_def)
  then show ?thesis using create_database_stores [OF assms(1)] by simp
next
  case (StCreateTable c)
  then have "e' = fst (create_table (or_test cur) (ct_parts c) (ct_columns c) (ct_if_not_exists c) e)"
    using assms(2,3) by (simp add: exec_stmt_def stores_follow_def)
  then show ?thesis using create_table_stores [OF assms(1)] by simp
next
  case (StDrop ty ns ife)
  then show ?thesis
    using assms(1,2) drop_tables_stores [OF assms(1), of "or_test cur" ife ns] drop_databases_stores [OF assms(1), of ife ns]
    by (cases ty) (auto simp: exec_stmt_def)
next
  case (StUpdate n asgns sel)
  then show ?thesis using assms update_stmt_stores by (auto simp: exec_stmt_def stores_follow_def)
next
  case (StAlterTable n opers)
  then show ?thesis using assms alter_stmt_stores by (auto simp: exec_stmt_def stores_follow_def)
qed (use assms(1,2) in \<open>auto simp: exec_stmt_def dest: insert_stmt_stores delete_stmt_stores truncate_stores\<close>)

lemma exec_prepared_stores:
  assumes "stores_ok e" "exec_stmt_prepared v bound cur s e = Some (e', r)" "stores_follow v cur s e"
    and "\<And>n asgns sel. s \<noteq> StUpdate n asgns sel"
  shows "stores_ok e'"
  using assms exec_stmt_stores [OF assms(1) _ assms(3)]
  by (cases s) (auto simp: exec_stmt_prepared_def split: option.splits set_expr.splits
      dest: insert_prepared_stores delete_prepared_stores)

section \<open>Runs\<close>

text \<open>The engines that can be reached: by a statement, as text or prepared, by ROLLBACK to a snapshot BEGIN took
  of an engine that was there before, and by what leaves the databases as they are, as the statements on
  accounts and the counting of writes.\<close>

inductive reached :: "engine \<Rightarrow> engine \<Rightarrow> bool" for e0 where
  start: "reached e0 e0"
| stmt: "reached e0 e \<Longrightarrow> exec_stmt v cur s e = Some (e', r) \<Longrightarrow> stores_follow v cur s e \<Longrightarrow> reached e0 e'"
| prepared:
    "reached e0 e \<Longrightarrow> exec_stmt_prepared v bound cur s e = Some (e', r) \<Longrightarrow> stores_follow v cur s e \<Longrightarrow>
     (\<And>n asgns sel. s \<noteq> StUpdate n asgns sel) \<Longrightarrow> reached e0 e'"
| rollback: "reached e0 e1 \<Longrightarrow> reached e0 e \<Longrightarrow> reached e0 (restore_snapshot (take_snapshot e1) e)"
| elsewhere: "reached e0 e \<Longrightarrow> databases e' = databases e \<Longrightarrow> reached e0 e'"

lemma restore_stores: "stores_ok e1 \<Longrightarrow> stores_ok e \<Longrightarrow> stores_ok (restore_snapshot (take_snapshot e1) e)"
  by (auto simp: stores_ok_def get_table_restore split: if_splits)

lemma reached_stores: "reached e0 e \<Longrightarrow> stores_ok e0 \<Longrightarrow> stores_ok e"
proof (induction rule: reached.induct)
  case (elsewhere e e')
  then show ?case by (simp add: stores_ok_def get_table_def)
qed (auto intro: exec_stmt_stores exec_prepared_stores restore_stores)

section \<open>CREATE TABLE AS SELECT\<close>

text \<open>The stores of such a table are empty, so a WHERE through SIMD finds none of its rows.\<close>

lemma empty_stores_scan:
  assumes "try_simd_scan avx2 t e = Some is"
    and int: "\<And>ci st. vec_get (col_int_data t) ci = Some (Some st) \<Longrightarrow> st = []"
    and str: "\<And>ci st. vec_get (col_str_data t) ci = Some (Some st) \<Longrightarrow> st = []"
  shows "is = []"
  using assms(1)
  by (auto simp: try_simd_scan_def bind_eq_Some_conv indices_where_def split: expr.splits option.splits if_splits dest!: int str)

lemma ctas_rows_unseen:
  assumes "try_simd_scan avx2 (ctas_table t db cols rs) e = Some is"
  shows "is = []"
  by (rule empty_stores_scan [OF assms]) (auto simp: ctas_table_def empty_table_def vec_get_def split: if_splits)

end
