(* ===== verification/Dump.thy ===== *)
theory Dump
  imports Exec
begin

text \<open>
  \<open>dump_sql\<close> and \<open>restore_sql\<close> of src/engine.rs: the databases as SQL text, and the text split
  into lines, the lines joined into statements at a line that ends with a semicolon, each run as
  root. The time of the dump is the clock of \<open>env\<close>.
\<close>

section \<open>Writing\<close>

definition in_backticks :: "string \<Rightarrow> string" where
  "in_backticks n = [backtick] @ n @ [backtick]"

definition dump_type :: "column_type \<Rightarrow> string" where
  "dump_type ct =
     (case ct of
        CInt \<Rightarrow> ''INT'' | CBigInt \<Rightarrow> ''BIGINT'' | CFloat \<Rightarrow> ''DOUBLE''
      | CVarChar n \<Rightarrow> ''VARCHAR('' @ show_nat (unat n) @ '')''
      | CText \<Rightarrow> ''TEXT'' | CBlob \<Rightarrow> ''BLOB'' | CTimestamp \<Rightarrow> ''TIMESTAMP'')"

definition dump_column :: "column \<Rightarrow> string" where
  "dump_column c =
     ''  '' @ in_backticks (col_name c) @ '' '' @ dump_type (col_type c) @ (if primary_key c then '' PRIMARY KEY'' else [])"

definition backslash :: char where
  "backslash = CHR 0x5C"

definition escape_text :: "string \<Rightarrow> string" where
  "escape_text s = replace_str [quote] [backslash, quote] (replace_str [backslash] [backslash, backslash] s)"

definition dump_value :: "'q crates \<Rightarrow> Value \<Rightarrow> string" where
  "dump_value x v =
     (case v of
        Null \<Rightarrow> ''NULL''
      | VInt n \<Rightarrow> show_i64 n
      | VFloat f \<Rightarrow> f64_show f
      | VText s \<Rightarrow> quoted (escape_text s)
      | VBytes b \<Rightarrow> ''X'' @ quoted (hex_encode x b))"

definition dump_row :: "'q crates \<Rightarrow> row \<Rightarrow> string" where
  "dump_row x r = ''  ('' @ join '', '' (map (dump_value x) r) @ '')''"

definition dump_rows :: "'q crates \<Rightarrow> string \<Rightarrow> table \<Rightarrow> string" where
  "dump_rows x t tab =
     (if rows tab = [] then []
      else ''INSERT INTO '' @ in_backticks t @ '' ('' @ join '', '' (map (\<lambda>c. in_backticks (col_name c)) (columns tab)) @
           '') VALUES'' @ newline @ join ('','' @ newline) (map (dump_row x) (rows tab)) @ '';'' @ newline @ newline)"

definition dump_table :: "'q crates \<Rightarrow> string \<Rightarrow> table \<Rightarrow> string" where
  "dump_table x t tab =
     ''CREATE TABLE IF NOT EXISTS '' @ in_backticks t @ '' ('' @ newline @
     join ('','' @ newline) (map dump_column (columns tab)) @ newline @ '');'' @ newline @ newline @ dump_rows x t tab"

definition dump_database :: "'q crates \<Rightarrow> walk \<Rightarrow> string \<Rightarrow> database \<Rightarrow> string" where
  "dump_database x iter n d =
     ''CREATE DATABASE IF NOT EXISTS '' @ in_backticks n @ '';'' @ newline @
     ''USE '' @ in_backticks n @ '';'' @ newline @ newline @
     concat (map (\<lambda>t. case tables d t of Some tab \<Rightarrow> dump_table x t tab | None \<Rightarrow> []) (iter (dom (tables d))))"

definition dump_sql :: "env \<Rightarrow> engine \<Rightarrow> string" where
  "dump_sql v e =
     ''-- RunAlexDB SQL dump'' @ newline @
     ''-- Generated: unix_ts='' @ show_nat (unix_now (env_crates v)) @ newline @ newline @
     concat (map (\<lambda>n. if n \<in> set builtin_schemas then []
                      else case databases e n of Some d \<Rightarrow> dump_database (env_crates v) (env_walk v) n d | None \<Rightarrow> [])
       (env_walk v (dom (databases e))))"

section \<open>Reading\<close>

text \<open>The current database, the statement read so far, and the state.\<close>

definition restore_line :: "env \<Rightarrow> string \<Rightarrow> string option \<times> string \<times> server \<Rightarrow>
    (string option \<times> string \<times> server) option" where
  "restore_line v raw st =
     (case st of (cur, batch, ce) \<Rightarrow>
        let line = trim raw
        in if starts_with ''--'' line \<or> line = [] then Some (cur, batch, ce)
           else
             let batch = batch @ line @ '' ''
             in if ends_with '';'' line
                then
                  let sql = trim batch
                  in if starts_with ''USE '' (to_upper sql)
                     then Some (Some (trim_char backtick (trim_end_by (\<lambda>c. c = CHR '';'') (trim (drop 4 sql)))), [], ce)
                     else map_option (\<lambda>(ce, _). (cur, [], ce)) (execute v sql cur ''root'' ce)
                else Some (cur, batch, ce))"

fun restore_lines :: "env \<Rightarrow> string list \<Rightarrow> string option \<times> string \<times> server \<Rightarrow>
    (string option \<times> string \<times> server) option" where
  "restore_lines v [] st = Some st"
| "restore_lines v (l # ls) st = Option.bind (restore_line v l st) (restore_lines v ls)"

definition restore_sql :: "env \<Rightarrow> string \<Rightarrow> server \<Rightarrow> server option" where
  "restore_sql v dump ce = map_option (\<lambda>(_, _, ce). ce) (restore_lines v (lines dump) (None, [], ce))"

section \<open>Laws\<close>

text \<open>A literal of the dump read back: a quote or a backslash stands behind a backslash, nothing else does.\<close>

fun read_quoted :: "string \<Rightarrow> (string \<times> string) option" where
  "read_quoted [] = None"
| "read_quoted (c # cs) =
     (if c = quote then Some ([], cs)
      else if c = backslash
      then (case cs of
              d # ds \<Rightarrow> if d = quote \<or> d = backslash then map_option (apfst ((#) d)) (read_quoted ds) else None
            | [] \<Rightarrow> None)
      else map_option (apfst ((#) c)) (read_quoted cs))"

lemma replace_char: "replace_str [c] new s = concat (map (\<lambda>d. if d = c then new else [d]) s)"
proof -
  have "replace_from [c] new s = concat (map (\<lambda>d. if d = c then new else [d]) s)"
    by (induction s) (simp_all add: starts_with_def)
  then show ?thesis by (simp add: replace_str_def)
qed

lemma escape_text_Cons:
  "escape_text (c # s) = (if c = quote \<or> c = backslash then [backslash, c] else [c]) @ escape_text s"
  "escape_text [] = []"
  by (auto simp: escape_text_def replace_char backslash_def quote_def)

lemma read_escaped: "read_quoted (escape_text s @ quote # rest) = Some (s, rest)"
  by (induction s) (auto simp: escape_text_Cons backslash_def quote_def)

text \<open>The name of a restored database keeps the backticks of the dump, so USE does not find it.\<close>

lemma in_backticks_other: "in_backticks n \<noteq> n"
proof -
  have "length (in_backticks n) \<noteq> length n" by (simp add: in_backticks_def)
  then show ?thesis by metis
qed

lemma restored_name:
  assumes "exec_stmt v cur (StCreateDatabase (in_backticks n)) e = Some (e', r)"
  shows "databases e' n = databases e n" "databases e' (in_backticks n) \<noteq> None"
  using assms in_backticks_other [of n]
  by (auto simp: exec_stmt_def create_database_def split: option.splits)

end
