(* ===== verification/Config.thy ===== *)
theory Config
  imports Rust_Text
begin

text \<open>
  src/config.rs: the configuration, its defaults, and how a file of it is read. The parser of the
  file (crate toml) is a parameter: it gives the fields that are in the file. A missing field is
  filled in as the \<open>serde(default)\<close> attributes say. The file system is a map from paths; a path
  whose content cannot be read is mapped to \<open>None\<close>.
\<close>

section \<open>The fields\<close>

record tls_config =
  tls_enabled :: bool
  tls_cert :: "string option"
  tls_key :: "string option"

record auth_config =
  root_password :: string
  webui_api_key :: string
  webui_admin_user :: string
  webui_admin_password :: string

record xdp_config =
  xdp_enabled :: bool
  xdp_interface :: "string option"
  xdp_max_conn_per_sec :: "u32 option"

record config =
  mysql_port :: u16
  webui_port :: u16
  bind_address :: string
  data_dir :: string
  tls :: tls_config
  auth :: auth_config
  xdp :: xdp_config
  firewall_manage :: bool
  firewall_backend :: "string option"
  firewall_tag :: string
  icmp_protection :: bool
  connection_timeout_secs :: u64
  handshake_timeout_secs :: u64
  checkpoint_interval_secs :: u64
  use_numa_pin :: bool
  worker_threads :: nat

section \<open>Defaults\<close>

definition default_mysql_port :: u16 where "default_mysql_port = 3306"
definition default_webui_port :: u16 where "default_webui_port = 8306"
definition default_bind :: string where "default_bind = ''0.0.0.0''"
definition default_data_dir :: string where "default_data_dir = ''/var/lib/runalexdb''"
definition default_root_password :: string where "default_root_password = ''changeme''"
definition default_webui_admin_user :: string where "default_webui_admin_user = ''admin''"
definition default_webui_admin_password :: string where "default_webui_admin_password = ''admin''"
definition default_webui_key :: string where "default_webui_key = ''changeme''"
definition default_fw_manage :: bool where "default_fw_manage = True"
definition default_fw_tag :: string where "default_fw_tag = ''runalexdb''"
definition default_icmp_protection :: bool where "default_icmp_protection = True"
definition default_checkpoint_interval_secs :: u64 where "default_checkpoint_interval_secs = 300"
definition default_connection_timeout_secs :: u64 where "default_connection_timeout_secs = 300"
definition default_handshake_timeout_secs :: u64 where "default_handshake_timeout_secs = 10"

definition default_tls :: tls_config where
  "default_tls = \<lparr> tls_enabled = False, tls_cert = None, tls_key = None \<rparr>"

definition default_auth :: auth_config where
  "default_auth =
     \<lparr> root_password = default_root_password, webui_api_key = default_webui_key,
       webui_admin_user = default_webui_admin_user, webui_admin_password = default_webui_admin_password \<rparr>"

definition default_xdp :: xdp_config where
  "default_xdp = \<lparr> xdp_enabled = False, xdp_interface = None, xdp_max_conn_per_sec = None \<rparr>"

definition default_config :: config where
  "default_config =
     \<lparr> mysql_port = default_mysql_port, webui_port = default_webui_port, bind_address = default_bind,
       data_dir = default_data_dir, tls = default_tls, auth = default_auth, xdp = default_xdp,
       firewall_manage = default_fw_manage, firewall_backend = None, firewall_tag = default_fw_tag,
       icmp_protection = default_icmp_protection, connection_timeout_secs = default_connection_timeout_secs,
       handshake_timeout_secs = default_handshake_timeout_secs,
       checkpoint_interval_secs = default_checkpoint_interval_secs, use_numa_pin = False, worker_threads = 0 \<rparr>"

section \<open>A file\<close>

text \<open>The fields a file has. The flag \<open>enabled\<close> of a table \<open>tls\<close> or \<open>xdp\<close> has no default.\<close>

record config_file =
  f_mysql_port :: "u16 option"
  f_webui_port :: "u16 option"
  f_bind :: "string option"
  f_data_dir :: "string option"
  f_tls :: "(bool option \<times> string option \<times> string option) option"
  f_auth :: "(string option \<times> string option \<times> string option \<times> string option) option"
  f_xdp :: "(bool option \<times> string option \<times> u32 option) option"
  f_firewall_manage :: "bool option"
  f_firewall_backend :: "string option"
  f_firewall_tag :: "string option"
  f_icmp_protection :: "bool option"
  f_connection_timeout_secs :: "u64 option"
  f_handshake_timeout_secs :: "u64 option"
  f_checkpoint_interval_secs :: "u64 option"
  f_numa_pin :: "bool option"
  f_worker_threads :: "nat option"

definition or_default :: "'a option \<Rightarrow> 'a \<Rightarrow> 'a" where
  "or_default x d = (case x of Some a \<Rightarrow> a | None \<Rightarrow> d)"

definition read_tls :: "(bool option \<times> string option \<times> string option) option \<Rightarrow> tls_config option" where
  "read_tls t =
     (case t of
        None \<Rightarrow> Some default_tls
      | Some (en, cert, key) \<Rightarrow>
          map_option (\<lambda>b. \<lparr> tls_enabled = b, tls_cert = cert, tls_key = key \<rparr>) en)"

definition read_auth :: "(string option \<times> string option \<times> string option \<times> string option) option \<Rightarrow> auth_config" where
  "read_auth t =
     (case t of
        None \<Rightarrow> default_auth
      | Some (pw, key, user, admin_pw) \<Rightarrow>
          \<lparr> root_password = or_default pw default_root_password, webui_api_key = or_default key default_webui_key,
            webui_admin_user = or_default user default_webui_admin_user,
            webui_admin_password = or_default admin_pw default_webui_admin_password \<rparr>)"

definition read_xdp :: "(bool option \<times> string option \<times> u32 option) option \<Rightarrow> xdp_config option" where
  "read_xdp t =
     (case t of
        None \<Rightarrow> Some default_xdp
      | Some (en, iface, rate) \<Rightarrow>
          map_option (\<lambda>b. \<lparr> xdp_enabled = b, xdp_interface = iface, xdp_max_conn_per_sec = rate \<rparr>) en)"

definition read_config :: "config_file \<Rightarrow> config option" where
  "read_config f =
     (case (read_tls (f_tls f), read_xdp (f_xdp f)) of
        (Some t, Some x) \<Rightarrow>
          Some \<lparr> mysql_port = or_default (f_mysql_port f) default_mysql_port,
                 webui_port = or_default (f_webui_port f) default_webui_port,
                 bind_address = or_default (f_bind f) default_bind,
                 data_dir = or_default (f_data_dir f) default_data_dir,
                 tls = t, auth = read_auth (f_auth f), xdp = x,
                 firewall_manage = or_default (f_firewall_manage f) default_fw_manage,
                 firewall_backend = f_firewall_backend f,
                 firewall_tag = or_default (f_firewall_tag f) default_fw_tag,
                 icmp_protection = or_default (f_icmp_protection f) default_icmp_protection,
                 connection_timeout_secs = or_default (f_connection_timeout_secs f) default_connection_timeout_secs,
                 handshake_timeout_secs = or_default (f_handshake_timeout_secs f) default_handshake_timeout_secs,
                 checkpoint_interval_secs = or_default (f_checkpoint_interval_secs f) default_checkpoint_interval_secs,
                 use_numa_pin = or_default (f_numa_pin f) False,
                 worker_threads = or_default (f_worker_threads f) 0 \<rparr>
      | _ \<Rightarrow> None)"

type_synonym files = "string \<rightharpoonup> string option"

definition config_path :: "string list \<Rightarrow> string" where
  "config_path args =
     (case find (ends_with ''.toml'') (drop 1 args) of
        Some a \<Rightarrow> a | None \<Rightarrow> ''/etc/runalexdb/runalexdb.toml'')"

definition load_config :: "(string \<Rightarrow> config_file option) \<Rightarrow> string list \<Rightarrow> files \<Rightarrow> config option" where
  "load_config toml args fs =
     (case fs (config_path args) of
        None \<Rightarrow> Some default_config
      | Some None \<Rightarrow> None
      | Some (Some s) \<Rightarrow> Option.bind (toml s) read_config)"

section \<open>Laws\<close>

definition empty_file :: config_file where
  "empty_file =
     \<lparr> f_mysql_port = None, f_webui_port = None, f_bind = None, f_data_dir = None, f_tls = None, f_auth = None,
       f_xdp = None, f_firewall_manage = None, f_firewall_backend = None, f_firewall_tag = None,
       f_icmp_protection = None, f_connection_timeout_secs = None, f_handshake_timeout_secs = None,
       f_checkpoint_interval_secs = None, f_numa_pin = None, f_worker_threads = None \<rparr>"

text \<open>A file that sets nothing is read as no file.\<close>

lemma empty_file_default: "read_config empty_file = Some default_config"
  by (simp add: read_config_def empty_file_def default_config_def read_tls_def read_auth_def read_xdp_def or_default_def)

lemma load_missing: "fs (config_path args) = None \<Longrightarrow> load_config toml args fs = Some default_config"
  by (simp add: load_config_def)

text \<open>Where reading fails \<open>main\<close> goes on with the defaults for the number of threads; a file without
  the flag of its table \<open>tls\<close> is such a file.\<close>

lemma tls_flag_required: "read_config (f\<lparr> f_tls := Some (None, c, k) \<rparr>) = None"
  by (simp add: read_config_def read_tls_def)

end
