(* ===== verification/Webui.thy ===== *)
theory Webui
  imports Dump Config
begin

text \<open>
  src/webui.rs: the requests of the admin interface, its sessions, and the answers. The pages and
  the JSON library (crate serde_json) are the parameters of \<open>web\<close>; \<open>json\<close> is the library's type of
  values. The clock is read once per request. The random bytes of a token are an argument. Texts
  are bytes. A result \<open>None\<close> is a panic of the statement a request runs: the task of the connection
  ends and the server goes on without an answer.
\<close>

section \<open>JSON\<close>

datatype json = JNull | JBool bool | JNumber int | JString string | JArray "json list" | JObject "(string \<times> json) list"

record web =
  web_json_from :: "string \<Rightarrow> json option"
  web_json_to :: "json \<Rightarrow> string"
  web_login_html :: string
  web_ui_html :: string
  web_version :: string

definition json_field :: "json \<Rightarrow> string \<Rightarrow> json" where \<comment> \<open>\<open>v["key"]\<close>\<close>
  "json_field v k = (case v of JObject fs \<Rightarrow> (case map_of fs k of Some f \<Rightarrow> f | None \<Rightarrow> JNull) | _ \<Rightarrow> JNull)"

definition json_str :: "json \<Rightarrow> string option" where
  "json_str v = (case v of JString s \<Rightarrow> Some s | _ \<Rightarrow> None)"

definition json_opt :: "string option \<Rightarrow> json" where
  "json_opt s = (case s of Some t \<Rightarrow> JString t | None \<Rightarrow> JNull)"

section \<open>Responses\<close>

definition crlf :: string where
  "crlf = [char_of (13 :: nat), char_of (10 :: nat)]"

definition status_text :: "nat \<Rightarrow> string" where
  "status_text status =
     (if status = 200 then ''OK'' else if status = 204 then ''No Content''
      else if status = 301 then ''Moved Permanently'' else if status = 400 then ''Bad Request''
      else if status = 401 then ''Unauthorized'' else if status = 404 then ''Not Found'' else ''OK'')"

definition http_response :: "nat \<Rightarrow> string \<Rightarrow> string \<Rightarrow> string" where
  "http_response status ct body =
     ''HTTP/1.1 '' @ show_nat status @ '' '' @ status_text status @ crlf @
     ''Content-Type: '' @ ct @ crlf @ ''Content-Length: '' @ show_nat (length body) @ crlf @
     ''Cache-Control: no-store'' @ crlf @ ''Connection: close'' @ crlf @ crlf @ body"

definition redirect :: "string \<Rightarrow> string" where
  "redirect location =
     ''HTTP/1.1 302 Found'' @ crlf @ ''Location: '' @ location @ crlf @ ''Content-Length: 0'' @ crlf @
     ''Connection: close'' @ crlf @ crlf"

definition dquoted :: "string \<Rightarrow> string" where
  "dquoted s = [CHR 0x22] @ s @ [CHR 0x22]"

definition error_json :: "string \<Rightarrow> string" where
  "error_json msg = ''{'' @ dquoted ''error'' @ '':'' @ dquoted msg @ ''}''"

definition ok_json :: string where
  "ok_json = ''{'' @ dquoted ''ok'' @ '':true}''"

definition json_response :: "string \<Rightarrow> string" where
  "json_response body = http_response 200 ''application/json'' body"

definition unauthorized :: string where
  "unauthorized = http_response 401 ''application/json'' (error_json ''Unauthorized'')"

section \<open>Sessions\<close>

text \<open>Times are nanoseconds of the monotonic clock.\<close>

record web_session =
  ws_username :: string
  ws_expires :: nat

type_synonym web_sessions = "string \<rightharpoonup> web_session"

definition SESSION_TTL :: nat where
  "SESSION_TTL = 8 * 3600 * 10 ^ 9"

definition gen_token :: "'q crates \<Rightarrow> u8 list \<Rightarrow> string" where
  "gen_token x random = hex_encode x random"

fun find_map :: "('a \<Rightarrow> 'b option) \<Rightarrow> 'a list \<Rightarrow> 'b option" where
  "find_map f [] = None"
| "find_map f (a # as) = (case f a of Some b \<Rightarrow> Some b | None \<Rightarrow> find_map f as)"

definition strip_prefix :: "string \<Rightarrow> string \<Rightarrow> string option" where
  "strip_prefix p s = (if starts_with p s then Some (drop (length p) s) else None)"

definition cookie_part :: "string \<Rightarrow> string \<Rightarrow> string option" where
  "cookie_part name part = map_option trim (strip_prefix (name @ ''='') (trim part))"

definition extract_cookie :: "string \<Rightarrow> string \<Rightarrow> string option" where
  "extract_cookie raw name =
     find_map (\<lambda>l. if starts_with ''cookie:'' (to_lower l)
                   then find_map (cookie_part name) (split_char (CHR '';'') (drop 7 l)) else None)
       (lines raw)"

definition session_user :: "nat \<Rightarrow> string \<Rightarrow> web_sessions \<Rightarrow> web_sessions \<times> string option" where
  "session_user now token ss =
     (case ss token of
        Some s \<Rightarrow> if now < ws_expires s then (ss, Some (ws_username s)) else (ss(token := None), None)
      | None \<Rightarrow> (ss, None))"

definition cleanup :: "nat \<Rightarrow> web_sessions \<Rightarrow> web_sessions" where
  "cleanup now ss =
     (\<lambda>t. case ss t of Some s \<Rightarrow> if now < ws_expires s then Some s else None | None \<Rightarrow> None)"

definition verify_login :: "env \<Rightarrow> config \<Rightarrow> string \<Rightarrow> string \<Rightarrow> engine \<Rightarrow> bool" where
  "verify_login v cfg user password e \<longleftrightarrow>
     user = webui_admin_user (auth cfg) \<and> password = webui_admin_password (auth cfg) \<or>
     verify_webui_password (env_sha1 v) user password e"

definition login_response :: "string \<Rightarrow> string" where
  "login_response token =
     ''HTTP/1.1 200 OK'' @ crlf @ ''Content-Type: application/json'' @ crlf @
     ''Content-Length: '' @ show_nat (length ok_json) @ crlf @
     ''Set-Cookie: session='' @ token @ ''; Path=/; HttpOnly; SameSite=Strict; Max-Age='' @
     show_nat (SESSION_TTL div 10 ^ 9) @ crlf @
     ''Cache-Control: no-store'' @ crlf @ ''Connection: close'' @ crlf @ crlf @ ok_json"

definition handle_login :: "env \<Rightarrow> web \<Rightarrow> config \<Rightarrow> nat \<Rightarrow> u8 list \<Rightarrow> string \<Rightarrow> web_sessions \<Rightarrow> engine \<Rightarrow>
    web_sessions \<times> string" where
  "handle_login v w cfg now random body ss e =
     (case web_json_from w body of
        None \<Rightarrow> (ss, http_response 400 ''application/json'' (error_json ''Bad request''))
      | Some j \<Rightarrow>
          let user = trim (default_str (json_str (json_field j ''username'')));
              password = default_str (json_str (json_field j ''password''))
          in if user = [] \<or> \<not> verify_login v cfg user password e
             then (ss, http_response 401 ''application/json'' (error_json ''Invalid username or password''))
             else let token = gen_token (env_crates v) random
                  in (ss(token \<mapsto> \<lparr> ws_username = user, ws_expires = now + SESSION_TTL \<rparr>), login_response token))"

section \<open>Results as JSON\<close>

text \<open>\<open>{:?}\<close> of a float: scientific from 1e16 on and below 1e-4, else with at least one decimal.\<close>

definition f64_exponential :: "f64 \<Rightarrow> string" where
  "f64_exponential f =
     (case view f of
        FNaN \<Rightarrow> ''NaN''
      | FInf s \<Rightarrow> (if s then ''-inf'' else ''inf'')
      | FFin s m ex \<Rightarrow>
          let num = m * 2 ^ nat ex; den = 2 ^ nat (- ex); k = dec_exp num den;
              (d, p) = shortest_from (f64_abs f) num den k 17 1;
              ds = show_nat d;
              ds' = (case rev (dropWhile (\<lambda>c. c = CHR ''0'') (rev ds)) of [] \<Rightarrow> ''0'' | cs \<Rightarrow> cs)
          in (if s then ''-'' else '''') @ take 1 ds' @ (if length ds' = 1 then [] else ''.'' @ drop 1 ds') @
             ''e'' @ show_int (p + int (length ds) - 1))"

definition f64_debug :: "f64 \<Rightarrow> string" where
  "f64_debug f =
     (let a = f64_abs f
      in if f64_partial_cmp a (f64_of_int (10 ^ 16)) \<in> {Some Greater, Some Equal} \<or>
            \<not> f64_is_zero f \<and> f64_partial_cmp a (round_decimal False 1 (- 4)) = Some Less
         then f64_exponential f
         else let s = f64_show f
              in if CHR ''.'' \<in> set s \<or> s = ''NaN'' then s else s @ ''.0'')"

text \<open>The cell of a row: a text as it is, another value by its derived \<open>Debug\<close> format.\<close>

fun value_json :: "Value \<Rightarrow> json" where
  "value_json Null = JNull"
| "value_json (VText s) = JString s"
| "value_json (VInt n) = JString (''Int('' @ show_i64 n @ '')'')"
| "value_json (VFloat f) = JString (''Float('' @ f64_debug f @ '')'')"
| "value_json (VBytes b) = JString (''Bytes(['' @ join '', '' (map (\<lambda>c. show_nat (unat c)) b) @ ''])'')"

definition result_json :: "query_result \<Rightarrow> json" where
  "result_json r =
     (case r of
        QOk n i \<Rightarrow> JObject [(''ok'', JBool True), (''affected'', JNumber (uint n)), (''insert_id'', JNumber (uint i))]
      | QErr code msg \<Rightarrow> JObject [(''error'', JBool True), (''code'', JNumber (uint code)), (''message'', JString msg)]
      | QRows cols rs \<Rightarrow>
          JObject [(''rows'', JArray (map (\<lambda>r. JArray (map json_opt r)) rs)), (''columns'', JArray (map JString cols))]
      | QValueRows cols rs \<Rightarrow>
          JObject [(''rows'', JArray (map (\<lambda>r. JArray (map value_json r)) rs)), (''columns'', JArray (map JString cols))])"

definition result_to_json :: "web \<Rightarrow> query_result \<Rightarrow> string" where
  "result_to_json w r = web_json_to w (result_json r)"

section \<open>The API\<close>

definition api_system :: "env \<Rightarrow> web \<Rightarrow> config \<Rightarrow> string \<Rightarrow> engine \<Rightarrow> string" where
  "api_system v w cfg user e =
     (let names = env_walk v (dom (databases e));
          tables_of = (\<lambda>n. case databases e n of Some d \<Rightarrow> length (env_walk v (dom (tables d))) | None \<Rightarrow> 0)
      in web_json_to w (JObject
           [(''version'', JString (web_version w)), (''databases'', JNumber (int (length names))),
            (''tables'', JNumber (int (sum_list (map tables_of names)))),
            (''mysql_port'', JNumber (uint (mysql_port cfg))), (''webui_port'', JNumber (uint (webui_port cfg))),
            (''logged_user'', JString user)]))"

definition api_databases :: "env \<Rightarrow> web \<Rightarrow> engine \<Rightarrow> string" where
  "api_databases v w e =
     web_json_to w (JArray (map JString
       (filter (\<lambda>n. \<not> starts_with ''information_schema'' n \<and> \<not> starts_with ''performance_schema'' n \<and>
                   n \<noteq> ''mysql'' \<and> n \<noteq> ''sys'') (env_walk v (dom (databases e))))))"

definition user_json :: "env \<Rightarrow> string \<Rightarrow> db_user \<Rightarrow> json" where
  "user_json v n d =
     JObject [(''username'', JString n),
              (''dbs'', JString (case allowed_dbs d of
                                   None \<Rightarrow> ''ALL''
                                 | Some s \<Rightarrow> if s = {} then ''none'' else join '', '' (env_walk v s))),
              (''can_write'', JBool (can_write d))]"

definition api_users :: "env \<Rightarrow> web \<Rightarrow> engine \<Rightarrow> string" where
  "api_users v w e =
     web_json_to w (JArray (List.map_filter (\<lambda>n. map_option (user_json v n) (users e n)) (env_walk v (dom (users e)))))"

definition api_query :: "env \<Rightarrow> web \<Rightarrow> string \<Rightarrow> string \<Rightarrow> server \<Rightarrow> (server \<times> string) option" where
  "api_query v w body user ce =
     (case web_json_from w body of
        None \<Rightarrow> Some (ce, ''{'' @ dquoted ''error'' @ '':true,'' @ dquoted ''code'' @ '':1064,'' @ dquoted ''message'' @ '':'' @
                   dquoted ''Bad JSON'' @ ''}'')
      | Some j \<Rightarrow>
          let sql = trim (default_str (json_str (json_field j ''sql''))); db = json_str (json_field j ''db'')
          in if sql = [] then Some (ce, ''{'' @ dquoted ''ok'' @ '':true,'' @ dquoted ''affected'' @ '':0}'')
             else map_option (\<lambda>(ce, r). (ce, result_to_json w r)) (execute v sql db user ce))"

definition dispatch_api :: "env \<Rightarrow> web \<Rightarrow> config \<Rightarrow> string \<Rightarrow> string \<Rightarrow> string \<Rightarrow> string \<Rightarrow> server \<Rightarrow>
    (server \<times> string) option" where
  "dispatch_api v w cfg meth path body user ce =
     (if meth = ''GET'' \<and> path = ''/api/system'' then Some (ce, json_response (api_system v w cfg user (snd ce)))
      else if meth = ''GET'' \<and> path = ''/api/databases'' then Some (ce, json_response (api_databases v w (snd ce)))
      else if meth = ''GET'' \<and> path = ''/api/users'' then Some (ce, json_response (api_users v w (snd ce)))
      else if meth = ''POST'' \<and> path = ''/api/query''
        then map_option (\<lambda>(ce, s). (ce, json_response s)) (api_query v w body user ce)
      else Some (ce, http_response 404 ''application/json'' (error_json ''Not found'')))"

section \<open>Requests\<close>

definition nth_or :: "string \<Rightarrow> string list \<Rightarrow> nat \<Rightarrow> string" where
  "nth_or d ws i = (case vec_get ws i of Some s \<Rightarrow> s | None \<Rightarrow> d)"

definition request_words :: "string \<Rightarrow> string \<times> string" where \<comment> \<open>method and path\<close>
  "request_words raw =
     (let ws = split_whitespace (nth_or [] (lines raw) 0)
      in (nth_or ''GET'' ws 0, hd (split_char (CHR ''?'') (nth_or ''/'' ws 1))))"

definition request_body :: "string \<Rightarrow> string" where
  "request_body raw = (case find_sub (crlf @ crlf) raw of Some p \<Rightarrow> drop (p + 4) raw | None \<Rightarrow> [])"

definition html :: "string \<Rightarrow> string" where
  "html page = http_response 200 ''text/html; charset=utf-8'' page"

definition route :: "env \<Rightarrow> web \<Rightarrow> config \<Rightarrow> nat \<Rightarrow> u8 list \<Rightarrow> string \<times> string \<Rightarrow> string \<Rightarrow> string option \<Rightarrow>
    string option \<Rightarrow> web_sessions \<times> server \<Rightarrow> ((web_sessions \<times> server) \<times> string) option" where
  "route v w cfg now random mp body token user st =
     (case (mp, st) of ((meth, path), (ss, ce)) \<Rightarrow>
        if meth = ''GET'' \<and> path = ''/login'' then Some (st, html (web_login_html w))
        else if meth = ''POST'' \<and> path = ''/login''
          then (case handle_login v w cfg now random body ss (snd ce) of (ss', out) \<Rightarrow> Some ((ss', ce), out))
        else if meth = ''POST'' \<and> path = ''/logout''
          then Some ((case token of Some t \<Rightarrow> ss(t := None) | None \<Rightarrow> ss, ce), redirect ''/login'')
        else if meth = ''GET'' \<and> (path = ''/'' \<or> path = ''/index.html'') then Some (st, redirect ''/ui'')
        else if meth = ''GET'' \<and> path = ''/ui''
          then Some (st, if user \<noteq> None then html (web_ui_html w) else redirect ''/login'')
        else if meth = ''OPTIONS'' then Some (st, http_response 204 ''text/plain'' [])
        else if starts_with ''/api/'' path
          then (case user of
                  None \<Rightarrow> Some (st, unauthorized)
                | Some u \<Rightarrow> map_option (\<lambda>(ce, out). ((ss, ce), out)) (dispatch_api v w cfg meth path body u ce))
        else Some (st, http_response 404 ''text/plain'' ''Not found''))"

definition handle_request :: "env \<Rightarrow> web \<Rightarrow> config \<Rightarrow> nat \<Rightarrow> u8 list \<Rightarrow> string \<Rightarrow> web_sessions \<times> server \<Rightarrow>
    ((web_sessions \<times> server) \<times> string) option" where
  "handle_request v w cfg now random raw st =
     (let token = extract_cookie raw ''session'';
          (ss, user) = (case token of Some t \<Rightarrow> session_user now t (fst st) | None \<Rightarrow> (fst st, None))
      in route v w cfg now random (request_words raw) (request_body raw) token user (ss, snd st))"

end
