(* ===== verification/Host.thy ===== *)
theory Host
  imports Config Prelude
begin

text \<open>
  What the program does to its host: src/firewall/backend.rs (the ports opened at the start and
  closed at the end), src/icmp_guard/mod.rs (rate limiting of ICMP, with a lock file), src/xdp.rs,
  src/numa_pin.rs and the parts of src/main.rs that call them. A program of the host is run by the
  parameter \<open>sys\<close>, from its name, its arguments and the state \<open>'h\<close> of the host, which it changes.
  The file system is a map as in Config. Log lines are left out.
\<close>

section \<open>Programs of the host\<close>

datatype outcome = NotStarted string | Exited bool string string \<comment> \<open>success, stdout, stderr\<close>

type_synonym 'h sys = "string \<Rightarrow> string list \<Rightarrow> 'h \<Rightarrow> outcome \<times> 'h"

definition succeeded :: "outcome \<Rightarrow> bool" where
  "succeeded r = (case r of Exited ok _ _ \<Rightarrow> ok | NotStarted _ \<Rightarrow> False)"

definition cmd_exists :: "'h sys \<Rightarrow> string \<Rightarrow> 'h \<Rightarrow> bool \<times> 'h" where
  "cmd_exists sys n h = apfst succeeded (sys ''which'' [n] h)"

definition run :: "'h sys \<Rightarrow> string \<Rightarrow> string list \<Rightarrow> 'h \<Rightarrow> (string + string) \<times> 'h" where
  "run sys cmd args h =
     apfst (\<lambda>r. case r of
         NotStarted e \<Rightarrow> Inl (cmd @ '': '' @ e)
       | Exited ok out err \<Rightarrow> if ok then Inr out else Inl (trim err)) (sys cmd args h)"

section \<open>The firewall\<close>

datatype backend = Ufw | Nftables | Iptables | NoBackend

definition backend_name :: "backend \<Rightarrow> string" where
  "backend_name b = (case b of Ufw \<Rightarrow> ''ufw'' | Nftables \<Rightarrow> ''nftables'' | Iptables \<Rightarrow> ''iptables'' | NoBackend \<Rightarrow> ''none'')"

definition ufw_active :: "'h sys \<Rightarrow> 'h \<Rightarrow> bool \<times> 'h" where
  "ufw_active sys h =
     apfst (\<lambda>r. case r of NotStarted _ \<Rightarrow> False | Exited _ out _ \<Rightarrow> contains ''Status: active'' out)
       (sys ''ufw'' [''status''] h)"

definition detect :: "'h sys \<Rightarrow> 'h \<Rightarrow> backend \<times> 'h" where
  "detect sys h =
     (let (has_ufw, h) = cmd_exists sys ''ufw'' h;
          (active, h) = (if has_ufw then ufw_active sys h else (False, h))
      in if active then (Ufw, h)
         else let (has_nft, h) = cmd_exists sys ''nft'' h
              in if has_nft then (Nftables, h)
                 else let (has_ipt, h) = cmd_exists sys ''iptables'' h
                      in (if has_ipt then Iptables else NoBackend, h))"

record fw_rule =
  rule_port :: u16
  rule_proto :: string
  nft_handle :: "nat option"

record firewall =
  fw_backend :: backend
  fw_tag :: string
  fw_dry_run :: bool
  fw_opened :: "fw_rule list"

definition new_firewall :: "'h sys \<Rightarrow> bool \<Rightarrow> bool \<Rightarrow> string option \<Rightarrow> string \<Rightarrow> 'h \<Rightarrow> firewall \<times> 'h" where
  "new_firewall sys dry_run manage override tag h =
     (let (b, h) =
        (if \<not> manage then (NoBackend, h)
         else if override = Some ''ufw'' then (Ufw, h)
         else if override = Some ''nftables'' then (Nftables, h)
         else if override = Some ''iptables'' then (Iptables, h)
         else if override = Some ''none'' \<or> override = Some ''no'' then (NoBackend, h)
         else detect sys h)
      in (\<lparr> fw_backend = b, fw_tag = tag, fw_dry_run = dry_run, fw_opened = [] \<rparr>, h))"

definition port_text :: "u16 \<Rightarrow> string" where
  "port_text p = show_nat (unat p)"

text \<open>The rule of iptables for a port, behind \<open>-A INPUT\<close> and \<open>-D INPUT\<close>.\<close>

definition accept_spec :: "string \<Rightarrow> u16 \<Rightarrow> string \<Rightarrow> string list" where
  "accept_spec proto port tag =
     [''-p'', proto, ''--dport'', port_text port, ''-m'', ''comment'', ''--comment'', tag, ''-j'', ''ACCEPT'']"

text \<open>The handle nft prints, when it prints one.\<close>

definition parse_handle :: "string \<Rightarrow> nat option" where
  "parse_handle out =
     (case List.map_filter
        (\<lambda>l. if starts_with ''# handle '' l then parse_unsigned 64 (trim (drop 9 l)) else None) (lines out) of
        [] \<Rightarrow> None | n # _ \<Rightarrow> Some n)"

definition open_rule :: "'h sys \<Rightarrow> firewall \<Rightarrow> u16 \<Rightarrow> string \<Rightarrow> 'h \<Rightarrow> (string + nat option) \<times> 'h" where
  "open_rule sys fw port proto h =
     (case fw_backend fw of
        Ufw \<Rightarrow>
          if fw_dry_run fw then (Inr None, h)
          else apfst (map_sum id (\<lambda>_. None))
            (run sys ''ufw'' [''allow'', port_text port @ ''/'' @ proto, ''comment'', fw_tag fw] h)
      | Nftables \<Rightarrow>
          if fw_dry_run fw then (Inr None, h)
          else apfst (map_sum id parse_handle)
            (run sys ''nft'' [''add'', ''rule'', ''inet'', ''filter'', ''input'', proto @ '' dport '' @ port_text port,
               ''accept'', ''comment'', fw_tag fw] h)
      | Iptables \<Rightarrow>
          if fw_dry_run fw then (Inr None, h)
          else apfst (map_sum id (\<lambda>_. None))
            (run sys ''iptables'' ([''-A'', ''INPUT''] @ accept_spec proto port (fw_tag fw)) h)
      | NoBackend \<Rightarrow> (Inr None, h))"

fun open_ports :: "'h sys \<Rightarrow> (u16 \<times> string) list \<Rightarrow> firewall \<Rightarrow> 'h \<Rightarrow> firewall \<times> 'h" where
  "open_ports sys [] fw h = (fw, h)"
| "open_ports sys ((port, proto) # ps) fw h =
     (case open_rule sys fw port proto h of
        (Inr n, h) \<Rightarrow>
          open_ports sys ps
            (fw\<lparr> fw_opened := fw_opened fw @ [\<lparr> rule_port = port, rule_proto = proto, nft_handle = n \<rparr>] \<rparr>) h
      | (Inl _, h) \<Rightarrow> open_ports sys ps fw h)"

definition open_firewall :: "'h sys \<Rightarrow> (u16 \<times> string) list \<Rightarrow> firewall \<Rightarrow> 'h \<Rightarrow> firewall \<times> 'h" where
  "open_firewall sys ps fw h = (if fw_backend fw = NoBackend then (fw, h) else open_ports sys ps fw h)"

definition close_rule :: "'h sys \<Rightarrow> firewall \<Rightarrow> fw_rule \<Rightarrow> 'h \<Rightarrow> (string + unit) \<times> 'h" where
  "close_rule sys fw r h =
     (case fw_backend fw of
        Ufw \<Rightarrow>
          if fw_dry_run fw then (Inr (), h)
          else apfst (map_sum id (\<lambda>_. ()))
            (run sys ''ufw'' [''delete'', ''allow'', port_text (rule_port r) @ ''/'' @ rule_proto r] h)
      | Nftables \<Rightarrow>
          (case nft_handle r of
             Some n \<Rightarrow>
               if fw_dry_run fw then (Inr (), h)
               else apfst (map_sum id (\<lambda>_. ()))
                 (run sys ''nft'' [''delete'', ''rule'', ''inet'', ''filter'', ''input'', ''handle'', show_nat n] h)
           | None \<Rightarrow> (Inr (), h))
      | Iptables \<Rightarrow>
          if fw_dry_run fw then (Inr (), h)
          else apfst (map_sum id (\<lambda>_. ()))
            (run sys ''iptables'' ([''-D'', ''INPUT''] @ accept_spec (rule_proto r) (rule_port r) (fw_tag fw)) h)
      | NoBackend \<Rightarrow> (Inr (), h))"

definition close_firewall :: "'h sys \<Rightarrow> firewall \<Rightarrow> 'h \<Rightarrow> firewall \<times> 'h" where
  "close_firewall sys fw h =
     (if fw_backend fw = NoBackend then (fw, h)
      else (fw\<lparr> fw_opened := [] \<rparr>, fold (\<lambda>r h. snd (close_rule sys fw r h)) (fw_opened fw) h))"

definition fw_status :: "firewall \<Rightarrow> string \<times> (u16 \<times> string) list" where
  "fw_status fw = (backend_name (fw_backend fw), map (\<lambda>r. (rule_port r, rule_proto r)) (fw_opened fw))"

section \<open>ICMP\<close>

definition LOCK_FILE :: string where "LOCK_FILE = ''/var/run/icmp_guard.pid''"
definition ICMP_RATE :: string where "ICMP_RATE = ''5/second''"
definition ICMP_BURST :: nat where "ICMP_BURST = 10"
definition ICMP_COMMENT :: string where "ICMP_COMMENT = ''icmp_guard''"

datatype icmp_backend = IcmpIptables | IcmpNftables | IcmpNone

record icmp_guard =
  is_owner :: bool
  icmp_backend :: icmp_backend
  icmp_enabled :: bool

definition cmd_ok :: "'h sys \<Rightarrow> string \<Rightarrow> string list \<Rightarrow> 'h \<Rightarrow> bool \<times> 'h" where
  "cmd_ok sys cmd args h = apfst succeeded (sys cmd args h)"

definition lock_is_held :: "files \<Rightarrow> bool" where
  "lock_is_held fs =
     (case fs LOCK_FILE of
        Some (Some content) \<Rightarrow>
          (case parse_unsigned 32 (trim (case vec_get (split_char (CHR '':'') content) 1 of Some s \<Rightarrow> s | None \<Rightarrow> [])) of
             Some pid \<Rightarrow> fs (''/proc/'' @ show_nat pid) \<noteq> None
           | None \<Rightarrow> False)
      | _ \<Rightarrow> False)"

definition lock_text :: "u32 \<Rightarrow> string" where
  "lock_text pid = ''runnginx:'' @ show_nat (unat pid) @ [CHR 0x0A]"

text \<open>\<open>writable\<close>: the lock file can be opened for writing.\<close>

definition write_lock :: "bool \<Rightarrow> u32 \<Rightarrow> files \<Rightarrow> files" where
  "write_lock writable pid fs = (if writable then fs(LOCK_FILE \<mapsto> Some (lock_text pid)) else fs)"

definition detect_icmp :: "'h sys \<Rightarrow> 'h \<Rightarrow> icmp_backend \<times> 'h" where
  "detect_icmp sys h =
     (let (nft, h) = cmd_ok sys ''which'' [''nft''] h
      in if nft then (IcmpNftables, h)
         else let (ipt, h) = cmd_ok sys ''which'' [''iptables''] h
              in (if ipt then IcmpIptables else IcmpNone, h))"

definition limit_spec :: "string \<Rightarrow> string \<Rightarrow> string list" where
  "limit_spec proto ty =
     [''-p'', proto, ty, ''echo-request'', ''-m'', ''limit'', ''--limit'', ICMP_RATE,
      ''--limit-burst'', show_nat ICMP_BURST, ''-m'', ''comment'', ''--comment'', ICMP_COMMENT, ''-j'', ''ACCEPT'']"

definition drop_spec :: "string \<Rightarrow> string \<Rightarrow> string list" where
  "drop_spec proto ty =
     [''-p'', proto, ty, ''echo-request'', ''-m'', ''comment'', ''--comment'', ICMP_COMMENT, ''-j'', ''DROP'']"

definition nft_accept :: string where
  "nft_accept =
     ''add rule inet filter input ip protocol icmp icmp type echo-request limit rate '' @ ICMP_RATE @
     '' burst '' @ show_nat ICMP_BURST @ '' packets accept comment '' @ [CHR 0x22] @ ICMP_COMMENT @ [CHR 0x22]"

definition nft_drop :: string where
  "nft_drop =
     ''add rule inet filter input ip protocol icmp icmp type echo-request drop comment '' @
     [CHR 0x22] @ ICMP_COMMENT @ [CHR 0x22]"

text \<open>The commands in order; the first one of \<open>must\<close> that fails ends it, those of \<open>may\<close> are run anyway.\<close>

fun run_all :: "'h sys \<Rightarrow> (string \<times> string list) list \<Rightarrow> 'h \<Rightarrow> bool \<times> 'h" where
  "run_all sys [] h = (True, h)"
| "run_all sys ((cmd, args) # cs) h =
     (let (ok, h) = cmd_ok sys cmd args h in if ok then run_all sys cs h else (False, h))"

definition run_each :: "'h sys \<Rightarrow> (string \<times> string list) list \<Rightarrow> 'h \<Rightarrow> 'h" where
  "run_each sys cs h = fold (\<lambda>(cmd, args) h. snd (cmd_ok sys cmd args h)) cs h"

definition input_rules :: "string \<Rightarrow> (string \<times> string list) list" where
  "input_rules flag =
     [(''iptables'', [flag, ''INPUT''] @ limit_spec ''icmp'' ''--icmp-type''),
      (''iptables'', [flag, ''INPUT''] @ drop_spec ''icmp'' ''--icmp-type'')]"

definition input6_rules :: "string \<Rightarrow> (string \<times> string list) list" where
  "input6_rules flag =
     [(''ip6tables'', [flag, ''INPUT''] @ limit_spec ''icmpv6'' ''--icmpv6-type''),
      (''ip6tables'', [flag, ''INPUT''] @ drop_spec ''icmpv6'' ''--icmpv6-type'')]"

definition apply_rules :: "'h sys \<Rightarrow> icmp_backend \<Rightarrow> 'h \<Rightarrow> bool \<times> 'h" where
  "apply_rules sys b h =
     (case b of
        IcmpIptables \<Rightarrow>
          (let (ok, h) = run_all sys (input_rules ''-I'') h
           in if ok then (True, run_each sys (input6_rules ''-I'') h) else (False, h))
      | IcmpNftables \<Rightarrow> run_all sys [(''nft'', [nft_accept]), (''nft'', [nft_drop])] h
      | IcmpNone \<Rightarrow> (True, h))"

text \<open>The handles of the rules with the comment, from the listing of the chain: the text between the
  first \<open># handle\<close> and the next one.\<close>

definition handle_text :: "string \<Rightarrow> string option" where
  "handle_text l =
     (case find_sub ''# handle '' l of
        None \<Rightarrow> None
      | Some p \<Rightarrow>
          let rest = drop (p + 9) l
          in Some (trim (case find_sub ''# handle '' rest of Some q \<Rightarrow> take q rest | None \<Rightarrow> rest)))"

definition listed_handles :: "string \<Rightarrow> string list" where
  "listed_handles out = List.map_filter handle_text (filter (contains ICMP_COMMENT) (lines out))"

definition remove_rules :: "'h sys \<Rightarrow> icmp_backend \<Rightarrow> 'h \<Rightarrow> bool \<times> 'h" where
  "remove_rules sys b h =
     (case b of
        IcmpIptables \<Rightarrow> (True, run_each sys (input_rules ''-D'' @ input6_rules ''-D'') h)
      | IcmpNftables \<Rightarrow>
          (case sys ''nft'' [''-a'', ''list'', ''chain'', ''inet'', ''filter'', ''input''] h of
             (NotStarted _, h) \<Rightarrow> (False, h)
           | (Exited _ out _, h) \<Rightarrow>
               (True, run_each sys (map (\<lambda>n. (''nft'', [''delete'', ''rule'', ''inet'', ''filter'', ''input'', ''handle'', n]))
                  (listed_handles out)) h))
      | IcmpNone \<Rightarrow> (True, h))"

definition no_guard :: "bool \<Rightarrow> icmp_guard" where
  "no_guard en = \<lparr> is_owner = False, icmp_backend = IcmpNone, icmp_enabled = en \<rparr>"

definition setup_icmp :: "'h sys \<Rightarrow> bool \<Rightarrow> u32 \<Rightarrow> bool \<Rightarrow> files \<times> 'h \<Rightarrow> icmp_guard \<times> files \<times> 'h" where
  "setup_icmp sys writable pid en st =
     (case st of (fs, h) \<Rightarrow>
        if \<not> en then (no_guard False, fs, h)
        else if lock_is_held fs then (no_guard True, fs, h)
        else let (b, h) = detect_icmp sys h
             in if b = IcmpNone then (no_guard True, fs, h)
                else let (ok, h) = apply_rules sys b h
                     in if ok then (\<lparr> is_owner = True, icmp_backend = b, icmp_enabled = True \<rparr>, write_lock writable pid fs, h)
                        else (no_guard True, fs, h))"

definition teardown_icmp :: "'h sys \<Rightarrow> icmp_guard \<Rightarrow> files \<times> 'h \<Rightarrow> files \<times> 'h" where
  "teardown_icmp sys g st =
     (case st of (fs, h) \<Rightarrow>
        if \<not> is_owner g then (fs, h)
        else (fs(LOCK_FILE := None), snd (remove_rules sys (icmp_backend g) h)))"

section \<open>XDP and cores\<close>

definition xdp_version :: "string \<Rightarrow> nat list" where
  "xdp_version s = List.map_filter (\<lambda>w. parse_unsigned 32 (takeWhile is_digit w)) (take 2 (split_char (CHR ''.'') (trim s)))"

definition check_available :: "files \<Rightarrow> bool" where
  "check_available fs =
     ((case fs ''/proc/sys/kernel/osrelease'' of
         Some (Some s) \<Rightarrow>
           (case xdp_version s of
              [major, minor] \<Rightarrow> \<not> (major < 4 \<or> major = 4 \<and> minor < 8)
            | _ \<Rightarrow> True)
       | _ \<Rightarrow> True) \<and> fs ''/sys/fs/bpf'' \<noteq> None)"

definition cpu_file :: "nat \<Rightarrow> string \<Rightarrow> string" where
  "cpu_file cpu name = ''/sys/devices/system/cpu/cpu'' @ show_nat cpu @ ''/topology/'' @ name"

definition read_text :: "files \<Rightarrow> string \<Rightarrow> string option" where
  "read_text fs p = Option.bind (fs p) id"

fun core_ids :: "files \<Rightarrow> nat list \<Rightarrow> (nat \<times> nat) set \<Rightarrow> nat list" where
  "core_ids fs [] seen = []"
| "core_ids fs (cpu # cpus) seen =
     (case read_text fs (cpu_file cpu ''core_id'') of
        None \<Rightarrow> []
      | Some cid \<Rightarrow>
          let core = (case parse_unsigned 64 (trim cid) of Some n \<Rightarrow> n | None \<Rightarrow> cpu);
              pkg = (case Option.bind (read_text fs (cpu_file cpu ''physical_package_id'')) (\<lambda>s. parse_unsigned 64 (trim s)) of
                       Some n \<Rightarrow> n | None \<Rightarrow> 0)
          in if (pkg, core) \<in> seen then core_ids fs cpus seen
             else cpu # core_ids fs cpus (insert (pkg, core) seen))"

definition physical_core_ids :: "files \<Rightarrow> nat list" where
  "physical_core_ids fs = core_ids fs [0..<512] {}"

text \<open>The core a new thread is pinned to, and the counter after it; \<open>None\<close>: no pinning.\<close>

definition pin_next :: "nat list \<Rightarrow> u64 \<Rightarrow> nat option \<times> u64" where
  "pin_next cores n =
     (if cores = [] then (None, n) else (Some (cores ! (unat n mod length cores)), n + 1))"

definition pin_current_thread :: "nat \<Rightarrow> nat option" where \<comment> \<open>the core the thread is bound to\<close>
  "pin_current_thread cpu = (if 1024 \<le> cpu then None else Some cpu)"

section \<open>main\<close>

definition worker_count :: "config \<Rightarrow> files \<Rightarrow> nat" where
  "worker_count cfg fs =
     (if 0 < worker_threads cfg then worker_threads cfg else max 1 (length (physical_core_ids fs)))"

definition pin_cores :: "config \<Rightarrow> files \<Rightarrow> nat list" where
  "pin_cores cfg fs = (if use_numa_pin cfg then physical_core_ids fs else [])"

definition fw_ports :: "config \<Rightarrow> (u16 \<times> string) list" where
  "fw_ports cfg = [(mysql_port cfg, ''tcp''), (webui_port cfg, ''tcp'')]"

text \<open>The start: the ports are opened, then the ICMP rules are set up.\<close>

definition start_host :: "'h sys \<Rightarrow> bool \<Rightarrow> bool \<Rightarrow> u32 \<Rightarrow> config \<Rightarrow> files \<times> 'h \<Rightarrow> (firewall \<times> icmp_guard) \<times> files \<times> 'h" where
  "start_host sys dry_run writable pid cfg st =
     (case st of (fs, h) \<Rightarrow>
        let (fw, h) = new_firewall sys dry_run (firewall_manage cfg) (firewall_backend cfg) (firewall_tag cfg) h;
            (fw, h) = open_firewall sys (fw_ports cfg) fw h;
            (g, fs, h) = setup_icmp sys writable pid (icmp_protection cfg) (fs, h)
        in ((fw, g), fs, h))"

text \<open>The outcome of writing a file: all of it, or an error that leaves what \<open>Torn\<close> says in its place.\<close>

datatype write_outcome = Written | Torn "string option option"

definition write_file :: "write_outcome \<Rightarrow> string \<Rightarrow> string \<Rightarrow> files \<Rightarrow> files" where
  "write_file w path s fs = (case w of Written \<Rightarrow> fs(path \<mapsto> Some s) | Torn left \<Rightarrow> fs(path := left))"

text \<open>The end, on a signal: the ports are closed, the data is written, and \<open>process::exit\<close> ends the
  process. It runs no destructor, so \<open>teardown_icmp\<close>, the destructor of the guard, is not run.\<close>

definition dump_path :: "config \<Rightarrow> string" where
  "dump_path cfg = data_dir cfg @ ''/runalexdb.sql''"

definition stop_host :: "'h sys \<Rightarrow> write_outcome \<Rightarrow> string \<Rightarrow> config \<Rightarrow> firewall \<Rightarrow> files \<times> 'h \<Rightarrow> files \<times> 'h" where
  "stop_host sys w dump cfg fw st =
     (case st of (fs, h) \<Rightarrow>
        let (_, h) = close_firewall sys fw h
        in (write_file w (dump_path cfg) dump fs, h))"

text \<open>A checkpoint: the dump goes to a second file, which is then renamed, or not when that fails.\<close>

definition checkpoint :: "write_outcome \<Rightarrow> bool \<Rightarrow> string \<Rightarrow> config \<Rightarrow> files \<Rightarrow> files" where
  "checkpoint w renamed dump cfg fs =
     (let tmp = dump_path cfg @ ''.tmp'';
          fs1 = write_file w tmp dump fs
      in if w = Written \<and> renamed then fs1(tmp := None, dump_path cfg := fs1 tmp) else fs1)"

end
