(* ===== verification/Protocol.thy ===== *)
theory Protocol
  imports Engine
begin

text \<open>
  The MySQL wire protocol of src/protocol.rs: packet framing, the greetings, command parsing,
  response packets, result sets in text and binary form, and the parameters of
  COM_STMT_EXECUTE. A buffer is a list of bytes; the functions that write into a caller's buffer
  return the longer buffer, with the header back-filled as the code does.
\<close>

section \<open>Little-endian fields\<close>

definition le16 :: "u16 \<Rightarrow> u8 list" where
  "le16 w = [ucast w, ucast (drop_bit 8 w)]"

definition le32 :: "u32 \<Rightarrow> u8 list" where
  "le32 w = [ucast w, ucast (drop_bit 8 w), ucast (drop_bit 16 w), ucast (drop_bit 24 w)]"

definition get16 :: "u8 \<Rightarrow> u8 \<Rightarrow> u16" where
  "get16 a b = ucast a OR push_bit 8 (ucast b)"

definition get32 :: "u8 \<Rightarrow> u8 \<Rightarrow> u8 \<Rightarrow> u8 \<Rightarrow> u32" where
  "get32 a b c d = ucast a OR push_bit 8 (ucast b) OR push_bit 16 (ucast c) OR push_bit 24 (ucast d)"

definition byte_at :: "u8 list \<Rightarrow> nat \<Rightarrow> u8" where \<comment> \<open>an index the code has checked\<close>
  "byte_at bs i = (if i < length bs then bs ! i else 0)"

definition text_of :: "u8 list \<Rightarrow> string" where \<comment> \<open>\<open>from_utf8_lossy\<close> on valid text\<close>
  "text_of bs = map (\<lambda>b. char_of (unat b)) bs"

section \<open>Packet framing\<close>

definition u24_le :: "u8 list \<Rightarrow> u32" where
  "u24_le b = ucast (b ! 0) OR push_bit 8 (ucast (b ! 1)) OR push_bit 16 (ucast (b ! 2))"

text \<open>The packet, its sequence number, and what is left in the buffer.\<close>

definition decode_packet :: "u8 list \<Rightarrow> (u8 list \<times> u8 \<times> u8 list) option" where
  "decode_packet buf =
     (if length buf < 4 then None
      else let len = unat (u24_le (take 3 buf)) in
           if length buf < 4 + len then None
           else Some (take len (drop 4 buf), buf ! 3, drop (4 + len) buf))"

definition len24 :: "u32 \<Rightarrow> u8 list" where
  "len24 len = [ucast (len AND 0xff), ucast (drop_bit 8 len AND 0xff), ucast (drop_bit 16 len AND 0xff)]"

definition encode_packet :: "u8 list \<Rightarrow> u8 \<Rightarrow> u8 list" where
  "encode_packet payload seq = len24 (of_nat (length payload)) @ [seq] @ payload"

definition write_packet_into :: "u8 list \<Rightarrow> u8 list \<Rightarrow> u8 \<Rightarrow> u8 list" where
  "write_packet_into out payload seq =
     (let len = of_nat (length payload) :: u32 in
      out @ len24 len @ [seq] @ payload)"

text \<open>The header placeholder of the row writers, filled in once the payload is written.\<close>

definition backfill :: "nat \<Rightarrow> u8 \<Rightarrow> u8 list \<Rightarrow> u8 list" where
  "backfill hdr_pos seq out =
     (let pl = of_nat (length out - hdr_pos - 4) :: u64 in
      out[hdr_pos := ucast (pl AND 0xff), hdr_pos + 1 := ucast (drop_bit 8 pl AND 0xff),
          hdr_pos + 2 := ucast (drop_bit 16 pl AND 0xff), hdr_pos + 3 := seq])"

section \<open>Handshake\<close>

definition CAPABILITY_LONG_PASSWORD :: u32 where "CAPABILITY_LONG_PASSWORD = 1"
definition CAPABILITY_PROTOCOL_41 :: u32 where "CAPABILITY_PROTOCOL_41 = 512"
definition CAPABILITY_SECURE_CONNECTION :: u32 where "CAPABILITY_SECURE_CONNECTION = 32768"
definition CAPABILITY_PLUGIN_AUTH :: u32 where "CAPABILITY_PLUGIN_AUTH = push_bit 19 1"
definition CAPABILITY_CONNECT_WITH_DB :: u32 where "CAPABILITY_CONNECT_WITH_DB = 8"
definition CAPABILITY_SSL :: u32 where "CAPABILITY_SSL = push_bit 11 1"

definition greeting_caps :: u32 where
  "greeting_caps = CAPABILITY_LONG_PASSWORD OR CAPABILITY_PROTOCOL_41 OR
     CAPABILITY_SECURE_CONNECTION OR CAPABILITY_PLUGIN_AUTH"

definition greeting :: "u32 \<Rightarrow> u32 \<Rightarrow> u8 list \<Rightarrow> u8 list" where
  "greeting caps server_id auth_data =
     [10] @ as_bytes (''8.0.32-RunAlexDB'') @ [0] @ le32 server_id @ take 8 auth_data @ [0] @
     le16 (ucast (caps AND 0xffff)) @ [0x21] @ le16 2 @ le16 (ucast (drop_bit 16 caps)) @ [21] @
     replicate 10 0 @ drop 8 auth_data @ [0] @ as_bytes (''mysql_native_password'') @ [0]"

definition server_greeting :: "u32 \<Rightarrow> u8 list \<Rightarrow> u8 list" where
  "server_greeting server_id auth_data = greeting greeting_caps server_id auth_data"

definition server_greeting_tls :: "u32 \<Rightarrow> u8 list \<Rightarrow> u8 list" where
  "server_greeting_tls server_id auth_data =
     greeting (greeting_caps OR CAPABILITY_SSL) server_id auth_data"

section \<open>Commands\<close>

datatype command =
    Query string
  | Ping
  | Quit
  | InitDb string
  | FieldList string
  | StmtPrepare string
  | StmtExecute u32
  | StmtClose u32
  | StmtReset u32
  | Unknown u8

definition stmt_id_or :: "(u32 \<Rightarrow> command) \<Rightarrow> u8 list \<Rightarrow> command" where
  "stmt_id_or mk p =
     (if length p \<ge> 5 then mk (get32 (p ! 1) (p ! 2) (p ! 3) (p ! 4)) else Unknown (p ! 0))"

definition parse_command :: "u8 list \<Rightarrow> command" where
  "parse_command p =
     (case p of
        [] \<Rightarrow> Unknown 0
      | c # body \<Rightarrow>
          if c = 0x01 then Quit
          else if c = 0x02 then InitDb (text_of body)
          else if c = 0x03 then Query (text_of body)
          else if c = 0x04 then FieldList (text_of body)
          else if c = 0x0e then Ping
          else if c = 0x16 then StmtPrepare (text_of body)
          else if c = 0x17 then stmt_id_or StmtExecute p
          else if c = 0x19 then stmt_id_or StmtClose p
          else if c = 0x1a then stmt_id_or StmtReset p
          else Unknown c)"

section \<open>Response packets\<close>

definition put_lenenc :: "u64 \<Rightarrow> u8 list" where
  "put_lenenc v =
     (if v < 251 then [ucast v]
      else if v < 65536 then 0xfc # le16 (ucast v)
      else if v < 16777216 then 0xfd # len24 (ucast v)
      else 0xfe # lane_bytes v)"

definition put_lenenc_str :: "string \<Rightarrow> u8 list" where
  "put_lenenc_str s = put_lenenc (of_nat (length s)) @ as_bytes s"

definition ok_packet :: "u64 \<Rightarrow> u64 \<Rightarrow> u8 list" where
  "ok_packet affected last_id = [0] @ put_lenenc affected @ put_lenenc last_id @ le16 2 @ le16 0"

definition err_packet :: "u16 \<Rightarrow> string \<Rightarrow> u8 list" where
  "err_packet code msg = [0xff] @ le16 code @ as_bytes ''#HY000'' @ as_bytes msg"

definition eof_packet :: "u8 list" where
  "eof_packet = [0xfe] @ le16 0 @ le16 2"

definition column_def_packet :: "string \<Rightarrow> string \<Rightarrow> string \<Rightarrow> u8 \<Rightarrow> u16 \<Rightarrow> u8 list" where
  "column_def_packet schema tab n ty flags =
     put_lenenc_str ''def'' @ put_lenenc_str schema @ put_lenenc_str tab @ put_lenenc_str tab @
     put_lenenc_str n @ put_lenenc_str n @
     [0x0c] @ le16 0x21 @ le32 255 @ [ty] @ le16 flags @ [0] @ le16 0"

definition text_cell :: "string option \<Rightarrow> u8 list" where
  "text_cell v = (case v of None \<Rightarrow> [0xfb] | Some s \<Rightarrow> put_lenenc_str s)"

definition text_row :: "string option list \<Rightarrow> u8 list" where
  "text_row vs = concat (map text_cell vs)"

definition stmt_prepare_ok :: "u32 \<Rightarrow> u16 \<Rightarrow> u16 \<Rightarrow> u8 list" where
  "stmt_prepare_ok stmt_id num_params num_columns =
     [0] @ le32 stmt_id @ le16 num_columns @ le16 num_params @ [0] @ le16 0"

text \<open>The NULL bitmap of a binary row: bit \<open>i + 2\<close> for column \<open>i\<close>.\<close>

definition null_bitmap :: "string option list \<Rightarrow> u8 list" where
  "null_bitmap vs =
     fold (\<lambda>(i, v) bm.
             if v = None
             then bm[(i + 2) div 8 := bm ! ((i + 2) div 8) OR push_bit ((i + 2) mod 8) 1]
             else bm)
       (List.enumerate 0 vs) (replicate ((length vs + 7 + 2) div 8) 0)"

definition binary_cell :: "string option \<Rightarrow> u8 list" where
  "binary_cell v = (case v of None \<Rightarrow> [] | Some s \<Rightarrow> put_lenenc_str s)"

definition binary_row :: "string option list \<Rightarrow> u8 list" where
  "binary_row vs = [0] @ null_bitmap vs @ concat (map binary_cell vs)"

section \<open>Writers into the caller's buffer\<close>

definition write_eof_into :: "u8 list \<Rightarrow> u8 \<Rightarrow> u8 list" where
  "write_eof_into out seq = out @ [0x05, 0x00, 0x00, seq, 0xfe, 0x00, 0x00, 0x02, 0x00]"

definition write_col_def_into :: "u8 list \<Rightarrow> string \<Rightarrow> u8 \<Rightarrow> u8 \<Rightarrow> u8 list" where
  "write_col_def_into out n ty seq =
     backfill (length out) seq
       (out @ [0, 0, 0, 0] @
        put_lenenc_str ''def'' @ put_lenenc_str [] @ put_lenenc_str [] @ put_lenenc_str [] @
        put_lenenc_str n @ put_lenenc_str n @
        [0x0c] @ le16 0x21 @ le32 255 @ [ty] @ le16 0 @ [0] @ le16 0)"

definition write_text_row_into :: "u8 list \<Rightarrow> string option list \<Rightarrow> u8 \<Rightarrow> u8 list" where
  "write_text_row_into out row seq =
     backfill (length out) seq
       (fold (\<lambda>v out. out @ (case v of None \<Rightarrow> [0xfb] | Some s \<Rightarrow> put_lenenc (of_nat (length s)) @ as_bytes s))
          row (out @ [0, 0, 0, 0]))"

definition write_binary_row_into :: "u8 list \<Rightarrow> string option list \<Rightarrow> u8 \<Rightarrow> u8 list" where
  "write_binary_row_into out row seq =
     backfill (length out) seq
       (fold (\<lambda>v out. out @ (case v of None \<Rightarrow> [] | Some s \<Rightarrow> put_lenenc (of_nat (length s)) @ as_bytes s))
          row (out @ [0, 0, 0, 0] @ [0] @ null_bitmap row))"

text \<open>\<open>write_i64_digits\<close>: one byte for the length, filled in after the digits.\<close>

definition write_i64_digits :: "u8 list \<Rightarrow> i64 \<Rightarrow> u8 list" where
  "write_i64_digits out n =
     (let digits = as_bytes (show_i64 n)
      in (out @ [0] @ digits)[length out := of_nat (length digits)])"

definition write_value_text :: "'q crates \<Rightarrow> u8 list \<Rightarrow> Value \<Rightarrow> u8 list" where
  "write_value_text x out v =
     (case v of
        Null \<Rightarrow> out @ [0xfb]
      | VInt n \<Rightarrow> write_i64_digits out n
      | VFloat f \<Rightarrow> out @ put_lenenc_str (f64_show f)
      | VText s \<Rightarrow> out @ put_lenenc_str s
      | VBytes b \<Rightarrow> out @ put_lenenc_str (hex_encode x b))"

definition write_value_row_into :: "'q crates \<Rightarrow> u8 list \<Rightarrow> row \<Rightarrow> u8 \<Rightarrow> u8 list" where
  "write_value_row_into x out row seq =
     backfill (length out) seq (fold (\<lambda>v out. write_value_text x out v) row (out @ [0, 0, 0, 0]))"

fun write_all_with :: "(u8 list \<Rightarrow> 'a \<Rightarrow> u8 \<Rightarrow> u8 list) \<Rightarrow> 'a list \<Rightarrow> u8 list \<times> u8 \<Rightarrow> u8 list \<times> u8" where
  "write_all_with wr [] (buf, s) = (buf, s)"
| "write_all_with wr (y # ys) (buf, s) = write_all_with wr ys (wr buf y s, s + 1)"

text \<open>The shape the three result-set builders share: count, definitions, EOF, rows, EOF.\<close>

definition result_set_into :: "(u8 list \<Rightarrow> 'r \<Rightarrow> u8 \<Rightarrow> u8 list) \<Rightarrow> u8 list \<Rightarrow> string list \<Rightarrow> 'r list \<Rightarrow>
    u8 \<Rightarrow> u8 list" where
  "result_set_into wr buf cols rs seq =
     (let s = seq;
          buf = write_packet_into buf [of_nat (length cols)] s; s = s + 1;
          (buf, s) = write_all_with (\<lambda>b c s. write_col_def_into b c 0xfd s) cols (buf, s);
          buf = write_eof_into buf s; s = s + 1;
          (buf, s) = write_all_with wr rs (buf, s)
      in write_eof_into buf s)"

definition build_value_result_into :: "'q crates \<Rightarrow> u8 list \<Rightarrow> string list \<Rightarrow> row list \<Rightarrow> u8 \<Rightarrow> u8 list" where
  "build_value_result_into x buf cols rs seq = result_set_into (write_value_row_into x) buf cols rs seq"

definition build_result_into :: "'q crates \<Rightarrow> u8 list \<Rightarrow> query_result \<Rightarrow> u8 \<Rightarrow> u8 list" where
  "build_result_into x buf result seq =
     (case result of
        QOk affected last_id \<Rightarrow> write_packet_into buf (ok_packet affected last_id) seq
      | QErr code msg \<Rightarrow> write_packet_into buf (err_packet code msg) seq
      | QRows cols rs \<Rightarrow> result_set_into write_text_row_into buf cols rs seq
      | QValueRows cols rs \<Rightarrow> build_value_result_into x buf cols rs seq)"

definition build_binary_result_into :: "'q crates \<Rightarrow> u8 list \<Rightarrow> query_result \<Rightarrow> u8 \<Rightarrow> u8 list" where
  "build_binary_result_into x buf result seq =
     (case result of
        QOk affected last_id \<Rightarrow> write_packet_into buf (ok_packet affected last_id) seq
      | QErr code msg \<Rightarrow> write_packet_into buf (err_packet code msg) seq
      | QRows cols rs \<Rightarrow> result_set_into write_binary_row_into buf cols rs seq
      | QValueRows cols rs \<Rightarrow> build_value_result_into x buf cols rs seq)"

section \<open>Parameters of COM_STMT_EXECUTE\<close>

text \<open>The text of an \<open>f32\<close>: the shortest decimal that reads back as the same single.\<close>

definition f32_round_ratio :: "nat \<Rightarrow> nat \<Rightarrow> nat" where
  "f32_round_ratio num den =
     (if num = 0 then 0
      else
        let lb = int (bitlen num) - int (bitlen den);
            e1 = (if den * 2 ^ nat lb \<le> num * 2 ^ nat (- lb) then lb - 23 else lb - 24);
            e = max e1 (- 149);
            n = num * 2 ^ nat (- e);
            d = den * 2 ^ nat e;
            q = n div d;
            r = n mod d
        in (if d < 2 * r \<or> d = 2 * r \<and> odd q then Suc q else q) + nat (e + 149) * 2 ^ 23)"

definition f32_shortest_at :: "nat \<Rightarrow> nat \<Rightarrow> nat \<Rightarrow> int \<Rightarrow> nat \<Rightarrow> (nat \<times> int) option" where
  "f32_shortest_at bits num den k n =
     (let p = k - int n;
          a = num * 10 ^ nat (- p);
          b = den * 10 ^ nat p;
          c = a div b;
          lo = (f32_round_ratio (c * 10 ^ nat p) (10 ^ nat (- p)) = bits);
          hi = (f32_round_ratio (Suc c * 10 ^ nat p) (10 ^ nat (- p)) = bits)
      in if lo \<and> hi then Some (if b \<le> 2 * (a mod b) then Suc c else c, p)
         else if lo then Some (c, p)
         else if hi then Some (Suc c, p)
         else None)"

fun f32_shortest :: "nat \<Rightarrow> nat \<Rightarrow> nat \<Rightarrow> int \<Rightarrow> nat \<Rightarrow> nat \<Rightarrow> nat \<times> int" where
  "f32_shortest bits num den k 0 n =
     ((num * 10 ^ nat (int n - k)) div (den * 10 ^ nat (k - int n)), k - int n)"
| "f32_shortest bits num den k (Suc fuel) n =
     (case f32_shortest_at bits num den k n of
        Some r \<Rightarrow> r
      | None \<Rightarrow> f32_shortest bits num den k fuel (Suc n))"

definition f32_show :: "u32 \<Rightarrow> string" where
  "f32_show w =
     (let b = unat w; s = (2 ^ 31 \<le> b); m = b mod 2 ^ 31; e = m div 2 ^ 23; f = m mod 2 ^ 23
      in if e = 255 then (if f \<noteq> 0 then ''NaN'' else if s then ''-inf'' else ''inf'')
         else (if s then ''-'' else '''') @
              (let mant = (if e = 0 then f else 2 ^ 23 + f); ex = (if e = 0 then - 149 else int e - 150)
               in if mant = 0 then ''0''
                  else let num = mant * 2 ^ nat ex; den = 2 ^ nat (- ex);
                           (d, p) = f32_shortest m num den (dec_exp num den) 9 1
                       in place_point d p))"

definition slice16 :: "u8 list \<Rightarrow> nat \<Rightarrow> u16" where
  "slice16 p i = get16 (byte_at p i) (byte_at p (i + 1))"

definition slice32 :: "u8 list \<Rightarrow> nat \<Rightarrow> u32" where
  "slice32 p i = get32 (byte_at p i) (byte_at p (i + 1)) (byte_at p (i + 2)) (byte_at p (i + 3))"

definition slice64 :: "u8 list \<Rightarrow> nat \<Rightarrow> u64" where
  "slice64 p i = le_u64 (take 8 (drop i p))"

text \<open>The readers return the text and the new position.\<close>

definition read_lenenc_bytes_as_str :: "u8 list \<Rightarrow> nat \<Rightarrow> string \<times> nat" where
  "read_lenenc_bytes_as_str p pos =
     (let take_text = (\<lambda>len inc.
            let pos = pos + inc in
            if pos + len > length p then ([], pos)
            else (text_of (take len (drop pos p)), pos + len))
      in if pos \<ge> length p then ([], pos)
         else if p ! pos = 0xfb then ([], pos + 1)
         else if p ! pos = 0xfc then
           (if pos + 2 \<ge> length p then ([], pos)
            else take_text (unat (get16 (p ! (pos + 1)) (p ! (pos + 2)))) 3)
         else if p ! pos = 0xfd then
           (if pos + 3 \<ge> length p then ([], pos)
            else take_text (unat (u24_le (drop (pos + 1) p))) 4)
         else take_text (unat (p ! pos)) 1)"

definition show_date_parts :: "u8 list \<Rightarrow> nat \<Rightarrow> string" where
  "show_date_parts p pos =
     show_pad 4 (int (unat (slice16 p pos))) @ ''-'' @ show_pad 2 (int (unat (byte_at p (pos + 2)))) @ ''-'' @
     show_pad 2 (int (unat (byte_at p (pos + 3))))"

definition read_binary_date :: "u8 list \<Rightarrow> nat \<Rightarrow> string \<times> nat" where
  "read_binary_date p pos =
     (if pos \<ge> length p then (''0000-00-00'', pos)
      else let len = unat (p ! pos); pos = pos + 1 in
           if len < 4 \<or> pos + 4 > length p then (''0000-00-00'', pos + len)
           else (show_date_parts p pos, pos + len))"

definition read_binary_datetime :: "u8 list \<Rightarrow> nat \<Rightarrow> string \<times> nat" where
  "read_binary_datetime p pos =
     (if pos \<ge> length p then (''0000-00-00 00:00:00'', pos)
      else let len = unat (p ! pos); pos = pos + 1 in
           if len < 4 \<or> pos + len > length p then (''0000-00-00 00:00:00'', pos + len)
           else let part = (\<lambda>k. show_pad 2 (if len \<ge> 7 then int (unat (byte_at p (pos + k))) else 0))
                in (show_date_parts p pos @ '' '' @ part 4 @ '':'' @ part 5 @ '':'' @ part 6, pos + len))"

definition read_binary_param :: "u8 list \<Rightarrow> nat \<Rightarrow> u8 \<Rightarrow> string \<times> nat" where
  "read_binary_param p pos ty =
     (let fixed = (\<lambda>n s. if pos + n > length p then ([], pos) else (s, pos + n))
      in if pos \<ge> length p then ([], pos)
         else if ty = 0x01 then (show_int (sint (byte_at p pos)), pos + 1)
         else if ty = 0x02 \<or> ty = 0x82 then fixed 2 (show_int (sint (slice16 p pos)))
         else if ty = 0x03 \<or> ty = 0x09 then fixed 4 (show_int (sint (slice32 p pos)))
         else if ty = 0x04 then fixed 4 (f32_show (slice32 p pos))
         else if ty = 0x05 then fixed 8 (f64_show (F64 (slice64 p pos)))
         else if ty = 0x08 then fixed 8 (show_i64 (slice64 p pos))
         else if ty = 0x0a \<or> ty = 0x0e then read_binary_date p pos
         else if ty = 0x07 \<or> ty = 0x0b \<or> ty = 0x0c then read_binary_datetime p pos
         else read_lenenc_bytes_as_str p pos)"

fun read_params :: "u8 list \<Rightarrow> (bool \<times> u8) list \<Rightarrow> nat \<Rightarrow> string option list" where
  "read_params p [] pos = []"
| "read_params p ((is_null, ty) # ps) pos =
     (if is_null then None # read_params p ps pos
      else case read_binary_param p pos ty of (s, pos') \<Rightarrow> Some s # read_params p ps pos')"

definition parse_execute_params :: "u8 list \<Rightarrow> u16 \<Rightarrow> string option list" where
  "parse_execute_params p num_params =
     (let n = unat num_params; bitmap_len = (n + 7) div 8 in
      if n = 0 \<or> length p < 10 then []
      else if length p < 10 + bitmap_len then replicate n None
      else
        let bitmap = take bitmap_len (drop 10 p);
            pos = 10 + bitmap_len;
            new_bound = (if pos < length p then p ! pos else 0);
            pos = pos + 1;
            (types, pos) =
              (if new_bound = 1 \<and> pos + n * 2 \<le> length p
               then (map (\<lambda>i. p ! (pos + 2 * i)) [0..<n], pos + n * 2)
               else (replicate n 0xfd, pos));
            nulls = map (\<lambda>i. bit (bitmap ! (i div 8)) (i mod 8)) [0..<n]
        in read_params p (zip nulls types) pos)"

section \<open>Framing round trip\<close>

lemma text_of_as_bytes [simp]: "text_of (as_bytes s) = s"
proof -
  have "char_of (unat (word_of_nat (of_char c) :: u8)) = c" for c :: char
    by (simp add: unat_of_nat)
  then show ?thesis by (simp add: text_of_def as_bytes_def comp_def)
qed

lemma mask8: "(0xff :: 'a :: len word) = mask 8"
  by (simp add: mask_eq_exp_minus_1)

lemma len24_nat:
  "len24 (of_nat n) = [of_nat n, of_nat (n div 2 ^ 8), of_nat (n div 2 ^ 16)]"
proof -
  have "ucast (drop_bit k (of_nat n :: u32) AND 0xff) = (of_nat (n div 2 ^ k) :: u8)" if "k \<le> 16" for k
    unfolding mask8 using that
    by (intro bit_word_eqI) (auto simp: bit_simps simp flip: drop_bit_eq_div)
  from this [of 0] this [of 8] this [of 16] show ?thesis by (simp add: len24_def)
qed

lemma bit_bound: "n < 2 ^ k \<Longrightarrow> k \<le> i \<Longrightarrow> \<not> bit (n :: nat) i"
  by (metis bit_take_bit_iff linorder_not_le take_bit_nat_eq_self)

lemma u24_len24:
  assumes "n < 2 ^ 24"
  shows "unat (u24_le (len24 (of_nat n))) = n"
proof -
  have lt: "bit n i \<Longrightarrow> i < 24" for i using bit_bound [OF assms, of i] by force
  have "u24_le (len24 (of_nat n)) = (of_nat n :: u32)"
    unfolding len24_def u24_le_def mask8
  proof (rule bit_word_eqI, goal_cases)
    case (1 i)
    consider "i < 8" | "8 \<le> i" "i < 16" | "16 \<le> i" by linarith
    then show ?case by cases (auto simp: bit_simps dest: lt)
  qed
  then show ?thesis using assms by (simp add: unat_of_nat)
qed

lemma length_len24 [simp]: "length (len24 w) = 3"
  by (simp add: len24_def)

lemma length_encode_packet [simp]: "length (encode_packet p seq) = 4 + length p"
  by (simp add: encode_packet_def)

lemma decode_encode_packet:
  assumes "length p < 2 ^ 24"
  shows "decode_packet (encode_packet p seq @ rest) = Some (p, seq, rest)"
proof -
  let ?h = "len24 (of_nat (length p))"
  have "take 3 (encode_packet p seq @ rest) = ?h" "(encode_packet p seq @ rest) ! 3 = seq"
    "drop 4 (encode_packet p seq @ rest) = p @ rest"
    by (simp_all add: encode_packet_def len24_def)
  then show ?thesis
    using u24_len24 [OF assms] by (simp add: decode_packet_def Let_def flip: drop_drop)
qed

text \<open>A truncated packet is not decoded, whatever has arrived of it.\<close>

lemma decode_partial_packet:
  assumes "length p < 2 ^ 24" "k < length (encode_packet p seq)"
  shows "decode_packet (take k (encode_packet p seq)) = None"
proof (cases "k < 4")
  case False
  then have "take 3 (take k (encode_packet p seq)) = len24 (of_nat (length p))"
    by (simp add: encode_packet_def len24_def min_def)
  then show ?thesis
    using u24_len24 [OF assms(1)] assms(2) False by (simp add: decode_packet_def Let_def)
qed (simp add: decode_packet_def)

section \<open>The writers frame the packets\<close>

lemma backfill_frame:
  "backfill (length out) seq (out @ [0, 0, 0, 0] @ pl) = out @ encode_packet pl seq"
proof -
  have b: "ucast (drop_bit k (of_nat n :: u64) AND 0xff) = (of_nat (n div 2 ^ k) :: u8)" if "k \<le> 16" for k n
    unfolding mask8 using that
    by (intro bit_word_eqI) (auto simp: bit_simps simp flip: drop_bit_eq_div)
  have "length (out @ [0, 0, 0, 0] @ pl) - length out - 4 = length pl" by simp
  then show ?thesis
    using b [of 0] b [of 8] b [of 16]
    by (simp add: backfill_def encode_packet_def len24_nat list_update_append Let_def)
qed

lemma write_packet_frame: "write_packet_into out p seq = out @ encode_packet p seq"
  by (simp add: write_packet_into_def encode_packet_def Let_def)

lemma write_eof_frame: "write_eof_into out seq = out @ encode_packet eof_packet seq"
  by (simp add: write_eof_into_def encode_packet_def eof_packet_def len24_def le16_def)

lemma write_col_def_frame:
  "write_col_def_into out n ty seq = out @ encode_packet (column_def_packet [] [] n ty 0) seq"
  unfolding write_col_def_into_def column_def_packet_def by (rule backfill_frame)

lemma fold_append: "fold (\<lambda>v out. out @ f v) vs out = out @ concat (map f vs)"
  by (induction vs arbitrary: out) simp_all

lemma write_text_row_frame:
  "write_text_row_into out row seq = out @ encode_packet (text_row row) seq"
  unfolding write_text_row_into_def fold_append text_cell_def [unfolded put_lenenc_str_def, symmetric]
  using backfill_frame [of out seq "text_row row"] by (simp add: text_row_def)

lemma write_binary_row_frame:
  "write_binary_row_into out row seq = out @ encode_packet (binary_row row) seq"
  unfolding write_binary_row_into_def fold_append binary_cell_def [unfolded put_lenenc_str_def, symmetric]
  using backfill_frame [of out seq "binary_row row"] by (simp add: binary_row_def)

lemma write_i64_frame: "write_i64_digits out n = out @ put_lenenc_str (show_i64 n)"
proof -
  have "length (show_i64 n) \<le> 20" by (rule length_show_i64)
  then have "(of_nat (length (show_i64 n)) :: u64) < 251"
    by (simp add: word_less_nat_alt unat_of_nat)
  moreover have "ucast (of_nat (length (show_i64 n)) :: u64) = (of_nat (length (show_i64 n)) :: u8)"
    by (rule bit_word_eqI) (auto simp: bit_simps)
  ultimately show ?thesis
    by (simp add: write_i64_digits_def put_lenenc_str_def put_lenenc_def list_update_append)
qed

lemma write_value_frame: "write_value_text x out v = out @ text_cell (to_display x v)"
  by (cases v) (simp_all add: write_value_text_def text_cell_def write_i64_frame)

lemma write_value_row_frame:
  "write_value_row_into x out row seq = out @ encode_packet (text_row (map (to_display x) row)) seq"
  unfolding write_value_row_into_def write_value_frame fold_append
  using backfill_frame [of out seq "text_row (map (to_display x) row)"]
  by (simp add: text_row_def comp_def)

text \<open>Consecutive packets, numbered from \<open>seq\<close> modulo 256.\<close>

fun frames :: "u8 \<Rightarrow> u8 list list \<Rightarrow> u8 list" where
  "frames seq [] = []"
| "frames seq (p # ps) = encode_packet p seq @ frames (seq + 1) ps"

lemma frames_append: "frames seq (ps @ qs) = frames seq ps @ frames (seq + of_nat (length ps)) qs"
  by (induction ps arbitrary: seq) (simp_all add: algebra_simps)

lemma write_all_frames:
  assumes "\<And>buf y s. wr buf y s = buf @ encode_packet (enc y) s"
  shows "write_all_with wr ys (buf, s) = (buf @ frames s (map enc ys), s + of_nat (length ys))"
  by (induction ys arbitrary: buf s) (simp_all add: assms algebra_simps)

definition result_packets :: "('r \<Rightarrow> u8 list) \<Rightarrow> string list \<Rightarrow> 'r list \<Rightarrow> u8 list list" where
  "result_packets enc cols rs =
     [of_nat (length cols)] # map (\<lambda>c. column_def_packet [] [] c 0xfd 0) cols @ [eof_packet] @
     map enc rs @ [eof_packet]"

lemma result_set_frames:
  assumes "\<And>buf y s. wr buf y s = buf @ encode_packet (enc y) s"
  shows "result_set_into wr buf cols rs seq = buf @ frames seq (result_packets enc cols rs)"
proof -
  have cols: "write_all_with (\<lambda>b c s. write_col_def_into b c 0xfd s) cols (b, s) =
      (b @ frames s (map (\<lambda>c. column_def_packet [] [] c 0xfd 0) cols), s + of_nat (length cols))" for b s
    by (rule write_all_frames) (rule write_col_def_frame)
  show ?thesis
    by (simp add: result_set_into_def cols write_all_frames [of wr enc, OF assms] write_packet_frame
        write_eof_frame result_packets_def frames_append algebra_simps)
qed

lemmas row_frames = result_set_frames [of write_text_row_into text_row, OF write_text_row_frame]
  result_set_frames [of write_binary_row_into binary_row, OF write_binary_row_frame]
  result_set_frames [of "write_value_row_into x" "\<lambda>r. text_row (map (to_display x) r)" for x,
    OF write_value_row_frame]

text \<open>The zero-copy path sends what the string path would send.\<close>

lemma value_rows_as_text:
  "build_result_into x buf (QValueRows cols rs) seq =
   build_result_into x buf (QRows cols (map (map (to_display x)) rs)) seq"
  by (simp add: build_result_into_def build_value_result_into_def row_frames result_packets_def comp_def)

section \<open>Reading the stream\<close>

text \<open>\<open>while let Some(..) = decode_packet(&mut buf)\<close>: the packets, and what stays in the buffer.\<close>

lemma decode_packet_shorter: "decode_packet buf = Some (p, s, rest) \<Longrightarrow> length rest < length buf"
  by (auto simp: decode_packet_def Let_def split: if_splits)

function decode_all :: "u8 list \<Rightarrow> (u8 list \<times> u8) list \<times> u8 list" where
  "decode_all buf =
     (case decode_packet buf of
        None \<Rightarrow> ([], buf)
      | Some (p, s, rest) \<Rightarrow> (let (ps, r) = decode_all rest in ((p, s) # ps, r)))"
  by pat_completeness auto
termination by (relation "measure length") (auto dest: decode_packet_shorter)

declare decode_all.simps [simp del]

fun numbered :: "u8 \<Rightarrow> u8 list list \<Rightarrow> (u8 list \<times> u8) list" where
  "numbered seq [] = []"
| "numbered seq (p # ps) = (p, seq) # numbered (seq + 1) ps"

lemma decode_all_frames:
  assumes "\<forall>p\<in>set ps. length p < 2 ^ 24" "decode_packet rest = None"
  shows "decode_all (frames seq ps @ rest) = (numbered seq ps, rest)"
  using assms(1)
proof (induction ps arbitrary: seq)
  case Nil
  then show ?case using assms(2) by (simp add: decode_all.simps [of rest])
next
  case (Cons p ps)
  have "decode_packet (encode_packet p seq @ frames (seq + 1) ps @ rest) =
      Some (p, seq, frames (seq + 1) ps @ rest)"
    using Cons.prems by (intro decode_encode_packet) simp
  then show ?case
    using Cons by (simp add: decode_all.simps [of "encode_packet p seq @ _"])
qed

section \<open>Length-encoded text\<close>

lemma read_put_lenenc_str:
  assumes "length s < 2 ^ 24"
  shows "read_lenenc_bytes_as_str (pre @ put_lenenc_str s @ rest) (length pre) =
         (s, length pre + length (put_lenenc_str s))"
proof -
  let ?n = "length s"
  have n: "unat (of_nat ?n :: u64) = ?n" using assms by (simp add: unat_of_nat)
  have c: "ucast (of_nat ?n :: u64) = (of_nat ?n :: u8)" "ucast (of_nat ?n :: u64) = (of_nat ?n :: u16)"
    "ucast (of_nat ?n :: u64) = (of_nat ?n :: u32)"
    by (rule bit_word_eqI, auto simp: bit_simps)+
  consider "?n < 251" | "251 \<le> ?n" "?n < 65536" | "65536 \<le> ?n" by linarith
  then show ?thesis
  proof cases
    case 1
    then have p: "put_lenenc (of_nat ?n) = [of_nat ?n]"
      using n c by (simp add: put_lenenc_def word_less_nat_alt)
    have u: "unat (of_nat ?n :: u8) = ?n" using 1 by (simp add: unat_of_nat)
    then have "(of_nat ?n :: u8) \<noteq> 0xfb" "(of_nat ?n :: u8) \<noteq> 0xfc" "(of_nat ?n :: u8) \<noteq> 0xfd"
      using 1 by (auto simp: word_eq_iff_unsigned)
    then show ?thesis
      using p u by (simp add: read_lenenc_bytes_as_str_def put_lenenc_str_def Let_def nth_append)
  next
    case 2
    then have p: "put_lenenc (of_nat ?n) = 0xfc # le16 (of_nat ?n)"
      using n c by (simp add: put_lenenc_def word_less_nat_alt)
    have "get16 (ucast w) (ucast (drop_bit 8 w)) = w" for w :: u16
      unfolding get16_def by (rule bit_word_eqI) (auto simp: bit_simps)
    moreover have "unat (of_nat ?n :: u16) = ?n" using 2 by (simp add: unat_of_nat)
    ultimately show ?thesis
      using p by (simp add: read_lenenc_bytes_as_str_def put_lenenc_str_def Let_def nth_append le16_def)
  next
    case 3
    then have p: "put_lenenc (of_nat ?n) = 0xfd # len24 (of_nat ?n)"
      using n c assms by (simp add: put_lenenc_def word_less_nat_alt)
    have "u24_le (len24 (of_nat ?n) @ xs) = u24_le (len24 (of_nat ?n))" for xs
      by (simp add: u24_le_def len24_def)
    then show ?thesis
      using p u24_len24 [OF assms]
      by (simp add: read_lenenc_bytes_as_str_def put_lenenc_str_def Let_def nth_append)
  qed
qed

end
