(* ===== verification/Session.thy ===== *)
theory Session
  imports Exec Protocol
begin

text \<open>
  The session of src/server.rs: the handshake, the loop over the packets of a connection, and the
  commands with the per-connection state (current database, transaction snapshot, prepared
  statements, the cache of the last result). A session acts on the state \<open>execute\<close> acts on, the
  statement cache and the engine, which all sessions share. The reads from the socket are a list
  of byte strings; an empty one is the end of the stream. Timeouts close a connection and are not
  modelled.
\<close>

section \<open>State\<close>

record prepared_stmt =
  ps_sql :: string
  ps_params :: u16

record session =
  current_db :: "string option"
  txn_snapshot :: "snapshot option"
  prepared :: "u32 \<rightharpoonup> prepared_stmt"
  next_stmt_id :: u32
  effective_user :: string
  l0_hash :: u64
  l0_gen :: u64
  l0_bytes :: "u8 list option"

definition new_session :: "string \<Rightarrow> string option \<Rightarrow> session" where
  "new_session user db =
     \<lparr> current_db = db, txn_snapshot = None, prepared = Map.empty, next_stmt_id = 1,
       effective_user = user, l0_hash = 0, l0_gen = - 1, l0_bytes = None \<rparr>"

type_synonym conn = "session \<times> server"

section \<open>Handshake\<close>

definition auth_plugins :: "string list" where
  "auth_plugins =
     [''mysql_native_password'', ''sha256_password'', ''caching_sha2_password'', ''mysql_clear_password'',
      ''authentication_windows_client'']"

definition database_name :: "string \<Rightarrow> string option" where
  "database_name n = (if n \<noteq> [] \<and> \<not> list_ex (eq_ignore_case n) auth_plugins then Some n else None)"

definition handshake_db :: "u32 \<Rightarrow> u8 list \<Rightarrow> string option" where
  "handshake_db caps rest =
     (if caps AND push_bit 3 1 = 0 then None
      else
        let auth_len = (case rest of b # _ \<Rightarrow> unat b | [] \<Rightarrow> 0);
            rest2 = (if 1 + auth_len \<le> length rest then drop (1 + auth_len) rest else [])
        in case position (\<lambda>b. b = 0) rest2 of
             Some p \<Rightarrow> database_name (trim (text_of (take p rest2)))
           | None \<Rightarrow>
               if rest2 \<noteq> [] then database_name (trim_char (CHR 0x00) (trim (text_of rest2))) else None)"

definition auth_response :: "u8 list \<Rightarrow> u8 list" where
  "auth_response rest = (case rest of [] \<Rightarrow> [] | b # r \<Rightarrow> take (min (unat b) (length r)) r)"

text \<open>Short packets leave the handshake without a check.\<close>

datatype handshake = HsPanic | HsSkip | HsDenied | HsAccept string "string option"

definition auth_ok :: "(u8 list \<Rightarrow> u8 list) \<Rightarrow> string \<Rightarrow> u8 list \<Rightarrow> string \<Rightarrow> u8 list \<Rightarrow> engine \<Rightarrow> bool" where
  "auth_ok sha1 root_password scramble user response e =
     (case lookup_user user e of
        Some (hash2, _) \<Rightarrow> verify_native_password_hash sha1 hash2 scramble response
      | None \<Rightarrow> user = ''root'' \<and> verify_native_password sha1 root_password scramble response)"

definition handshake_payload :: "(u8 list \<Rightarrow> u8 list) \<Rightarrow> string \<Rightarrow> u8 list \<Rightarrow> u8 list \<Rightarrow> engine \<Rightarrow> handshake" where
  "handshake_payload sha1 root_password scramble p e =
     (if length p < 33 then HsSkip
      else
        let caps = get32 (p ! 0) (p ! 1) (p ! 2) (p ! 3);
            rest = drop 32 p;
            user_end = (case position (\<lambda>b. b = 0) rest of Some i \<Rightarrow> i | None \<Rightarrow> length rest)
        in if length rest < user_end + 1 then HsPanic
           else
             let name = trim_char backtick (text_of (take user_end rest));
                 user = (if name = [] then ''root'' else name);
                 rest = drop (user_end + 1) rest
             in if auth_ok sha1 root_password scramble user (auth_response rest) e
                then HsAccept user (handshake_db caps rest) else HsDenied)"

text \<open>The outcome of a handshake: the session it opens, the bytes sent, and what is left to read.\<close>

datatype opened = Closed "u8 list" | Crashed | Opened conn "u8 list" "u8 list" "u8 list list"

definition open_session :: "(u8 list \<Rightarrow> u8 list) \<Rightarrow> string \<Rightarrow> u8 list \<Rightarrow> u8 list \<Rightarrow> u8 list \<Rightarrow> u8 list list \<Rightarrow>
    server \<Rightarrow> opened" where
  "open_session sha1 root_password scramble p rest reads ce =
     (case handshake_payload sha1 root_password scramble p (snd ce) of
        HsPanic \<Rightarrow> Crashed
      | HsSkip \<Rightarrow> Opened (new_session ''root'' None, ce) [] rest reads
      | HsDenied \<Rightarrow> Closed (encode_packet (err_packet 1045 ''Access denied'') 2)
      | HsAccept user db \<Rightarrow>
          Opened (new_session user db, fst ce, case db of Some n \<Rightarrow> ensure_database n (snd ce) | None \<Rightarrow> snd ce)
            (encode_packet (ok_packet 0 0) 2) rest reads)"

text \<open>Nothing is read while the buffer holds a part of a packet: the loop does not end then.\<close>

partial_function (option) handshake_loop ::
  "(u8 list \<Rightarrow> u8 list) \<Rightarrow> string \<Rightarrow> u8 list \<Rightarrow> u8 list \<Rightarrow> u8 list list \<Rightarrow> server \<Rightarrow> opened option" where
  "handshake_loop sha1 root_password scramble buf reads ce =
     (if buf = []
      then (case reads of
              [] \<Rightarrow> Some (Closed [])
            | r # rs \<Rightarrow> if r = [] then Some (Closed [])
                       else handshake_loop sha1 root_password scramble r rs ce)
      else (case decode_packet buf of
              Some (p, _, rest) \<Rightarrow> Some (open_session sha1 root_password scramble p rest reads ce)
            | None \<Rightarrow> handshake_loop sha1 root_password scramble buf reads ce))"

definition is_ssl_request :: "u8 list \<Rightarrow> bool" where
  "is_ssl_request buf =
     (case decode_packet buf of
        Some (p, _, _) \<Rightarrow> length p = 32 \<and> get32 (p ! 0) (p ! 1) (p ! 2) (p ! 3) AND CAPABILITY_SSL \<noteq> 0
      | None \<Rightarrow> False)"

section \<open>Queries\<close>

definition SELECT_1_RESPONSE :: "u8 list" where
  "SELECT_1_RESPONSE =
     [0x01, 0x00, 0x00, 0x01, 0x01,
      0x18, 0x00, 0x00, 0x02,
      0x03, 0x64, 0x65, 0x66, 0x00, 0x00, 0x00, 0x01, 0x31, 0x01, 0x31,
      0x0c, 0x21, 0x00, 0xff, 0x00, 0x00, 0x00, 0xfd, 0x00, 0x00, 0x00, 0x00, 0x00,
      0x05, 0x00, 0x00, 0x03, 0xfe, 0x00, 0x00, 0x02, 0x00,
      0x02, 0x00, 0x00, 0x04, 0x01, 0x31,
      0x05, 0x00, 0x00, 0x05, 0xfe, 0x00, 0x00, 0x02, 0x00]"

datatype reaction = Hangup | Continue conn "u8 list"

definition ok_reply :: "u8 list" where
  "ok_reply = encode_packet (ok_packet 0 0) 1"

definition is_select_1 :: "string \<Rightarrow> bool" where
  "is_select_1 sql \<longleftrightarrow> to_upper (trim sql) \<in> {''SELECT 1'', ''SELECT 1;''}"

definition use_database :: "string \<Rightarrow> session \<Rightarrow> session" where
  "use_database sql s =
     (if starts_with ''USE '' (to_upper (trim sql))
      then let rest = trim (drop 4 (trim sql))
           in if CHR '';'' \<in> set rest then s else s\<lparr> current_db := Some (trim_char backtick rest) \<rparr>
      else s)"

definition txn_text :: "string \<Rightarrow> string" where
  "txn_text sql = to_upper (trim_end_by (\<lambda>c. c = CHR '';'') (trim sql))"

definition is_err :: "query_result \<Rightarrow> bool" where
  "is_err r \<longleftrightarrow> (case r of QErr _ _ \<Rightarrow> True | _ \<Rightarrow> False)"

text \<open>The cached result of the last query, when it is the same query and nothing was written since.\<close>

definition l0_lookup :: "env \<Rightarrow> string \<Rightarrow> session \<Rightarrow> engine \<Rightarrow> u8 list option" where
  "l0_lookup v sql s e =
     (if hash_query (env_sse42 v) (as_bytes sql) = l0_hash s \<and> write_gen e = l0_gen s then l0_bytes s else None)"

definition l0_store :: "env \<Rightarrow> string \<Rightarrow> u8 list \<Rightarrow> engine \<Rightarrow> session \<Rightarrow> session" where
  "l0_store v sql out e s =
     s\<lparr> l0_hash := hash_query (env_sse42 v) (as_bytes sql), l0_gen := write_gen e, l0_bytes := Some out \<rparr>"

definition run_sql :: "env \<Rightarrow> string \<Rightarrow> conn \<Rightarrow> reaction option" where
  "run_sql v sql sce =
     (case sce of (s, ce) \<Rightarrow>
        (case l0_lookup v sql s (snd ce) of
           Some cached \<Rightarrow> Some (Continue (s, ce) cached)
         | None \<Rightarrow>
             map_option (\<lambda>(ce, r).
                 let out = build_result_into (env_crates v) [] r 1
                 in Continue (if is_err r then s else l0_store v sql out (snd ce) s, ce) out)
               (execute v sql (current_db s) (effective_user s) ce)))"

definition handle_query :: "env \<Rightarrow> string \<Rightarrow> conn \<Rightarrow> reaction option" where
  "handle_query v sql sce =
     (if is_select_1 sql then Some (Continue sce SELECT_1_RESPONSE)
      else
        case sce of (s, c, e) \<Rightarrow>
          let s = use_database sql s; tc = txn_text sql
          in if tc \<in> {''BEGIN'', ''START TRANSACTION''}
             then Some (Continue (s\<lparr> txn_snapshot := Some (take_snapshot e) \<rparr>, c, e) ok_reply)
             else if tc = ''COMMIT'' then Some (Continue (s\<lparr> txn_snapshot := None \<rparr>, c, e) ok_reply)
             else if tc = ''ROLLBACK''
             then Some (Continue (s\<lparr> txn_snapshot := None \<rparr>, c,
                    case txn_snapshot s of Some snap \<Rightarrow> restore_snapshot snap e | None \<Rightarrow> e) ok_reply)
             else run_sql v sql (s, c, e))"

section \<open>Prepared statements\<close>

definition count_params :: "string \<Rightarrow> u16" where
  "count_params sql = of_nat (length (filter (\<lambda>c. c = CHR ''?'') sql))"

definition prepare :: "string \<Rightarrow> session \<Rightarrow> session \<times> u8 list" where
  "prepare sql s =
     (let n = count_params sql; sid = next_stmt_id s
      in (s\<lparr> next_stmt_id := sid + 1, prepared := (prepared s)(sid \<mapsto> \<lparr> ps_sql = sql, ps_params = n \<rparr>) \<rparr>,
          encode_packet (stmt_prepare_ok sid n 0) 1 @
          (if n = 0 then []
           else frames 2 (replicate (unat n) (column_def_packet [] [] ''?'' 0xfd 0) @ [eof_packet]))))"

definition unknown_stmt :: "u8 list" where
  "unknown_stmt = encode_packet (err_packet 1243 ''Unknown prepared statement handler'') 1"

definition run_statement :: "env \<Rightarrow> u8 list \<Rightarrow> u32 \<Rightarrow> conn \<Rightarrow> reaction option" where
  "run_statement v payload sid sce =
     (case sce of (s, ce) \<Rightarrow>
        (case prepared s sid of
           None \<Rightarrow> Some (Continue (s, ce) unknown_stmt)
         | Some st \<Rightarrow>
             map_option (\<lambda>(ce, r). Continue (s, ce) (build_binary_result_into (env_crates v) [] r 1))
               (execute_prepared v (ps_sql st) (parse_execute_params payload (ps_params st))
                  (current_db s) (effective_user s) ce)))"

section \<open>Commands\<close>

definition lower_hex :: "u8 \<Rightarrow> string" where
  "lower_hex c = to_lower [hex_digit (unat c div 16), hex_digit (unat c mod 16)]"

definition handle_command :: "env \<Rightarrow> u8 list \<Rightarrow> conn \<Rightarrow> reaction option" where
  "handle_command v payload sce =
     (case parse_command payload of
        Quit \<Rightarrow> Some Hangup
      | Ping \<Rightarrow> Some (Continue sce ok_reply)
      | InitDb n \<Rightarrow> Some (Continue ((fst sce)\<lparr> current_db := Some n, l0_hash := 0 \<rparr>, snd sce) ok_reply)
      | command.Query sql \<Rightarrow> handle_query v sql sce
      | FieldList _ \<Rightarrow> Some (Continue sce (encode_packet eof_packet 1))
      | StmtPrepare sql \<Rightarrow> (case prepare sql (fst sce) of (s, out) \<Rightarrow> Some (Continue (s, snd sce) out))
      | StmtExecute sid \<Rightarrow> run_statement v payload sid sce
      | StmtClose sid \<Rightarrow>
          Some (Continue ((fst sce)\<lparr> prepared := (prepared (fst sce))(sid := None) \<rparr>, snd sce) [])
      | StmtReset sid \<Rightarrow> Some (Continue sce (if prepared (fst sce) sid \<noteq> None then ok_reply else unknown_stmt))
      | Unknown c \<Rightarrow> Some (Continue sce (encode_packet (err_packet 1047 (''Unknown command 0x'' @ lower_hex c)) 1)))"

text \<open>The commands in the buffer, then the next read; the bytes sent are collected.\<close>

datatype served = Hungup server | Waiting conn "u8 list"

function serve :: "env \<Rightarrow> u8 list \<Rightarrow> conn \<Rightarrow> (served \<times> u8 list) option" where
  "serve v buf sce =
     (case decode_packet buf of
        None \<Rightarrow> Some (Waiting sce buf, [])
      | Some (p, _, rest) \<Rightarrow>
          (case handle_command v p sce of
             None \<Rightarrow> None
           | Some Hangup \<Rightarrow> Some (Hungup (snd sce), [])
           | Some (Continue sce' out) \<Rightarrow> map_option (\<lambda>(st, outs). (st, out @ outs)) (serve v rest sce')))"
  by pat_completeness auto
termination
  by (relation "measure (\<lambda>(v, buf, sce). length buf)") (auto dest: decode_packet_shorter)

declare serve.simps [simp del]

fun command_loop :: "env \<Rightarrow> u8 list list \<Rightarrow> served \<times> u8 list \<Rightarrow> (served \<times> u8 list) option" where
  "command_loop v (r # rs) (Waiting sce buf, outs) =
     (if r = [] then Some (Hungup (snd sce), outs)
      else case serve v (buf @ r) sce of
             None \<Rightarrow> None
           | Some (st, out) \<Rightarrow> command_loop v rs (st, outs @ out))"
| "command_loop v rs (st, outs) = Some (st, outs)"

definition run_session :: "env \<Rightarrow> u8 list \<Rightarrow> u8 list list \<Rightarrow> conn \<Rightarrow> (served \<times> u8 list) option" where
  "run_session v buf reads sce = Option.bind (serve v buf sce) (command_loop v reads)"

section \<open>Results sent packet by packet\<close>

fun send_each :: "('a \<Rightarrow> u8 list) \<Rightarrow> 'a list \<Rightarrow> u8 \<Rightarrow> u8 list \<times> u8" where
  "send_each enc [] seq = ([], seq)"
| "send_each enc (a # as) seq =
     (let (out, s) = send_each enc as (seq + 1) in (encode_packet (enc a) seq @ out, s))"

definition send_rows :: "(string option list \<Rightarrow> u8 list) \<Rightarrow> string list \<Rightarrow> string option list list \<Rightarrow> u8 \<Rightarrow> u8 list" where
  "send_rows enc cols rs seq =
     (let count = encode_packet [of_nat (length cols)] seq;
          (defs, s) = send_each (\<lambda>c. column_def_packet [] [] c 0xfd 0) cols (seq + 1);
          (body, s') = send_each enc rs (s + 1)
      in count @ defs @ encode_packet eof_packet s @ body @ encode_packet eof_packet s')"

definition send_result :: "'q crates \<Rightarrow> query_result \<Rightarrow> u8 \<Rightarrow> u8 list" where
  "send_result x r seq =
     (case r of
        QOk affected last_id \<Rightarrow> encode_packet (ok_packet affected last_id) seq
      | QErr code msg \<Rightarrow> encode_packet (err_packet code msg) seq
      | QRows cols rs \<Rightarrow> send_rows text_row cols rs seq
      | QValueRows cols rs \<Rightarrow> build_value_result_into x [] cols rs seq)"

definition send_result_binary :: "'q crates \<Rightarrow> query_result \<Rightarrow> u8 \<Rightarrow> u8 list" where
  "send_result_binary x r seq =
     (case r of
        QOk affected last_id \<Rightarrow> encode_packet (ok_packet affected last_id) seq
      | QErr code msg \<Rightarrow> encode_packet (err_packet code msg) seq
      | QRows cols rs \<Rightarrow> send_rows binary_row cols rs seq
      | QValueRows cols rs \<Rightarrow> build_value_result_into x [] cols rs seq)"

end
