(* ===== verification/Service.thy ===== *)
theory Service
  imports Webui Host Session
begin

text \<open>
  The running program: the start of the engine from the file of the last run (\<open>Engine::new\<close> in
  src/engine.rs), the listener of src/server.rs with its limit of connections and its TLS upgrade,
  and the connections and the requests of the admin interface that act on one engine.

  A step is one read, one handshake or one command of one connection, or one request; steps of
  different connections come in any order. A command is one step: what the locks inside a
  statement let through is not modelled. A statement that panics ends its connection and leaves the
  accounts as they were.
\<close>

section \<open>The engine at the start\<close>

definition start_engine :: "env \<Rightarrow> config \<Rightarrow> files \<Rightarrow> server option" where
  "start_engine v cfg fs =
     (let ce = ([], new_engine (env_sha1 v) (root_password (auth cfg)))
      in case fs (dump_path cfg) of
           Some (Some sql) \<Rightarrow> restore_sql v sql ce
         | _ \<Rightarrow> Some ce)"

section \<open>TLS\<close>

text \<open>The crates rustls, rustls_pemfile and rcgen: the first certificate and the key of a PEM text, a
  fresh self-signed pair for some names, and the acceptor for a pair.\<close>

record ('cert, 'key, 'acc) tls_crates =
  pem_cert :: "string \<Rightarrow> 'cert option"
  pem_key :: "string \<Rightarrow> 'key option"
  self_signed :: "string list \<Rightarrow> ('cert \<times> 'key) option"
  server_config :: "'cert \<Rightarrow> 'key \<Rightarrow> 'acc option"

definition make_tls_acceptor :: "('cert, 'key, 'acc) tls_crates \<Rightarrow> tls_config \<Rightarrow> files \<Rightarrow> 'acc option" where
  "make_tls_acceptor x t fs =
     Option.bind
       (case (tls_cert t, tls_key t) of
          (Some cert_file, Some key_file) \<Rightarrow>
            Option.bind (read_text fs cert_file) (\<lambda>cert_pem.
            Option.bind (read_text fs key_file) (\<lambda>key_pem.
            Option.bind (pem_cert x cert_pem) (\<lambda>cert.
            map_option (Pair cert) (pem_key x key_pem))))
        | _ \<Rightarrow> self_signed x [''localhost'', ''runalexdb''])
       (\<lambda>(cert, key). server_config x cert key)"

text \<open>A setup that fails leaves the listener without TLS.\<close>

definition tls_acceptor :: "('cert, 'key, 'acc) tls_crates \<Rightarrow> config \<Rightarrow> files \<Rightarrow> 'acc option" where
  "tls_acceptor x cfg fs = (if tls_enabled (tls cfg) then make_tls_acceptor x (tls cfg) fs else None)"

section \<open>One connection\<close>

definition greeting_packet :: "bool \<Rightarrow> u8 list \<Rightarrow> u8 list" where
  "greeting_packet tls_on scramble =
     encode_packet (if tls_on then server_greeting_tls 1 scramble else server_greeting 1 scramble) 0"

definition serve_opened :: "env \<Rightarrow> server \<Rightarrow> opened \<Rightarrow> (served \<times> u8 list) option" where
  "serve_opened v ce r =
     (case r of
        Closed out \<Rightarrow> Some (Hungup ce, out)
      | Crashed \<Rightarrow> Some (Hungup ce, [])
      | Opened sce out buf reads \<Rightarrow> map_option (apsnd ((@) out)) (run_session v buf reads sce))"

definition run_authenticated_session :: "env \<Rightarrow> config \<Rightarrow> u8 list \<Rightarrow> u8 list \<Rightarrow> u8 list list \<Rightarrow> server \<Rightarrow>
    (served \<times> u8 list) option" where
  "run_authenticated_session v cfg scramble buf reads ce =
     Option.bind (handshake_loop (env_sha1 v) (root_password (auth cfg)) scramble buf reads ce) (serve_opened v ce)"

text \<open>\<open>accept\<close>: the acceptor turns the reads of the socket into those of the TLS stream. What was read
  behind the request for TLS is lost. The bytes sent are those before encryption.\<close>

definition handle_connection :: "env \<Rightarrow> config \<Rightarrow> (u8 list list \<Rightarrow> u8 list list option) option \<Rightarrow> u8 list \<Rightarrow>
    u8 list list \<Rightarrow> server \<Rightarrow> (served \<times> u8 list) option" where
  "handle_connection v cfg acceptor scramble reads ce =
     map_option (apsnd ((@) (greeting_packet (acceptor \<noteq> None) scramble)))
       (case reads of
          [] \<Rightarrow> Some (Hungup ce, [])
        | r # rs \<Rightarrow>
            if r = [] then Some (Hungup ce, [])
            else case acceptor of
                   None \<Rightarrow> run_authenticated_session v cfg scramble r rs ce
                 | Some accept \<Rightarrow>
                     if is_ssl_request r
                     then (case accept rs of
                             None \<Rightarrow> Some (Hungup ce, [])
                           | Some rs' \<Rightarrow> run_authenticated_session v cfg scramble [] rs' ce)
                     else run_authenticated_session v cfg scramble r rs ce)"

section \<open>All connections\<close>

definition MAX_CONNECTIONS :: nat where
  "MAX_CONNECTIONS = 256"

text \<open>Where a connection is: the greeting is sent; the TLS handshake is under way; the response is
  read; the commands are read. The bytes are those read and not decoded yet.\<close>

datatype phase =
    Greeted "u8 list"
  | Securing "u8 list"
  | Handshaking "u8 list" "u8 list"
  | Talking session "u8 list"

record service =
  permits :: nat
  conns :: "nat \<rightharpoonup> phase"
  web_store :: web_sessions
  shared :: server

record setting =
  in_env :: env
  in_web :: web
  in_config :: config
  with_tls :: bool

datatype event = Sent nat "u8 list" | WebAnswer string | Quiet

definition start_service :: "setting \<Rightarrow> files \<Rightarrow> service option" where
  "start_service z fs =
     map_option (\<lambda>ce. \<lparr> permits = MAX_CONNECTIONS, conns = Map.empty, web_store = Map.empty, shared = ce \<rparr>)
       (start_engine (in_env z) (in_config z) fs)"

definition now_at :: "nat \<Rightarrow> phase \<Rightarrow> service \<Rightarrow> service" where
  "now_at c ph n = n\<lparr> conns := (conns n)(c \<mapsto> ph) \<rparr>"

text \<open>The permit of a connection is given back when its task ends.\<close>

definition release :: "nat \<Rightarrow> service \<Rightarrow> service" where
  "release c n = n\<lparr> permits := permits n + 1, conns := (conns n)(c := None) \<rparr>"

definition opened_by :: "setting \<Rightarrow> u8 list \<Rightarrow> u8 list \<Rightarrow> u8 list \<Rightarrow> server \<Rightarrow> opened" where
  "opened_by z scramble p rest ce =
     open_session (env_sha1 (in_env z)) (root_password (auth (in_config z))) scramble p rest [] ce"

text \<open>A connection waits for its client, so that the end of the stream, an error or a timeout ends it.\<close>

definition waits :: "phase \<Rightarrow> bool" where
  "waits ph =
     (case ph of
        Greeted _ \<Rightarrow> True
      | Securing _ \<Rightarrow> True
      | Handshaking _ buf \<Rightarrow> buf = []
      | Talking _ buf \<Rightarrow> decode_packet buf = None)"

text \<open>A panic ends its task, and the lock it held is used on. A panic inside a statement comes after the
  statement was put in the cache and before any account is changed; how far it got with the tables
  and the counters of the engine is left open. A web request has dropped its session, when it had
  expired, before that.\<close>

definition left_by_panic :: "env \<Rightarrow> server \<Rightarrow> server \<Rightarrow> bool" where
  "left_by_panic v ce ce' \<longleftrightarrow>
     users (snd ce') = users (snd ce) \<and>
     (fst ce' = fst ce \<or> (\<exists>sql. fst ce' = fst (parse_cached v sql (fst ce))))"

definition swept :: "nat \<Rightarrow> string \<Rightarrow> web_sessions \<Rightarrow> web_sessions" where
  "swept now raw ss =
     (case extract_cookie raw ''session'' of Some t \<Rightarrow> fst (session_user now t ss) | None \<Rightarrow> ss)"

inductive service_step :: "setting \<Rightarrow> service \<Rightarrow> event \<Rightarrow> service \<Rightarrow> bool" for z where
  accept:
    "0 < permits n \<Longrightarrow> conns n c = None \<Longrightarrow>
     service_step z n (Sent c (greeting_packet (with_tls z) scramble))
       (now_at c (Greeted scramble) (n\<lparr> permits := permits n - 1 \<rparr>))"
| reject:
    "permits n = 0 \<Longrightarrow> service_step z n Quiet n"
| upgrade:
    "conns n c = Some (Greeted scramble) \<Longrightarrow> with_tls z \<Longrightarrow> is_ssl_request r \<Longrightarrow>
     service_step z n Quiet (now_at c (Securing scramble) n)"
| plain:
    "conns n c = Some (Greeted scramble) \<Longrightarrow> r \<noteq> [] \<Longrightarrow> \<not> (with_tls z \<and> is_ssl_request r) \<Longrightarrow>
     service_step z n Quiet (now_at c (Handshaking scramble r) n)"
| secured:
    "conns n c = Some (Securing scramble) \<Longrightarrow>
     service_step z n Quiet (now_at c (Handshaking scramble []) n)"
| handshake_read:
    "conns n c = Some (Handshaking scramble []) \<Longrightarrow>
     service_step z n Quiet (now_at c (Handshaking scramble r) n)"
| let_in:
    "conns n c = Some (Handshaking scramble buf) \<Longrightarrow> decode_packet buf = Some (p, seq, rest) \<Longrightarrow>
     opened_by z scramble p rest (shared n) = Opened (s, ce) out rest' reads \<Longrightarrow>
     n' \<in> {now_at c (Talking s rest') n, release c n} \<Longrightarrow>
     service_step z n (Sent c out) (n'\<lparr> shared := ce \<rparr>)"
| turned_away:
    "conns n c = Some (Handshaking scramble buf) \<Longrightarrow> decode_packet buf = Some (p, seq, rest) \<Longrightarrow>
     opened_by z scramble p rest (shared n) = Closed out \<Longrightarrow>
     service_step z n (Sent c out) (release c n)"
| handshake_panics:
    "conns n c = Some (Handshaking scramble buf) \<Longrightarrow> decode_packet buf = Some (p, seq, rest) \<Longrightarrow>
     opened_by z scramble p rest (shared n) = Crashed \<Longrightarrow>
     service_step z n Quiet (release c n)"
| receive:
    "conns n c = Some (Talking s buf) \<Longrightarrow> decode_packet buf = None \<Longrightarrow>
     service_step z n Quiet (now_at c (Talking s (buf @ r)) n)"
| command:
    "conns n c = Some (Talking s buf) \<Longrightarrow> decode_packet buf = Some (p, seq, rest) \<Longrightarrow>
     handle_command (in_env z) p (s, shared n) = Some (Continue (s', ce) out) \<Longrightarrow>
     n' \<in> {now_at c (Talking s' rest) n, release c n} \<Longrightarrow>
     service_step z n (Sent c out) (n'\<lparr> shared := ce \<rparr>)"
| quit:
    "conns n c = Some (Talking s buf) \<Longrightarrow> decode_packet buf = Some (p, seq, rest) \<Longrightarrow>
     handle_command (in_env z) p (s, shared n) = Some Hangup \<Longrightarrow>
     service_step z n Quiet (release c n)"
| command_panics:
    "conns n c = Some (Talking s buf) \<Longrightarrow> decode_packet buf = Some (p, seq, rest) \<Longrightarrow>
     handle_command (in_env z) p (s, shared n) = None \<Longrightarrow> left_by_panic (in_env z) (shared n) ce \<Longrightarrow>
     service_step z n Quiet ((release c n)\<lparr> shared := ce \<rparr>)"
| hang_up:
    "conns n c = Some ph \<Longrightarrow> waits ph \<Longrightarrow> service_step z n Quiet (release c n)"
| web_request:
    "handle_request (in_env z) (in_web z) (in_config z) now random raw (web_store n, shared n) = Some ((ss, ce), out) \<Longrightarrow>
     service_step z n (WebAnswer out) (n\<lparr> web_store := ss, shared := ce \<rparr>)"
| web_panics:
    "handle_request (in_env z) (in_web z) (in_config z) now random raw (web_store n, shared n) = None \<Longrightarrow>
     left_by_panic (in_env z) (shared n) ce \<Longrightarrow>
     service_step z n Quiet (n\<lparr> web_store := swept now raw (web_store n), shared := ce \<rparr>)"
| web_cleanup:
    "service_step z n Quiet (n\<lparr> web_store := cleanup now (web_store n) \<rparr>)"

inductive service_run :: "setting \<Rightarrow> service \<Rightarrow> service \<Rightarrow> bool" for z where
  started: "service_run z n n"
| further: "service_run z n n' \<Longrightarrow> service_step z n' ev n'' \<Longrightarrow> service_run z n n''"

end
