(* ===== verification/Dump_Laws.thy ===== *)
theory Dump_Laws
  imports Dump "HOL-Library.Sublist"
begin

text \<open>
  What a restore runs: the statements the lines of the dump make, in order, as root. A text of a row is
  written with its line breaks, so its lines are lines of the dump: a break comes back as a space, and a
  line of its own that ends with a semicolon is a statement the restore runs.
\<close>

section \<open>The statements of a restore\<close>

text \<open>The statements a restore runs: the lines of the dump, joined up to a line that ends with a semicolon.\<close>

fun batches :: "string list \<Rightarrow> string \<Rightarrow> string list" where
  "batches [] batch = []"
| "batches (raw # ls) batch =
     (let line = trim raw
      in if starts_with ''--'' line \<or> line = [] then batches ls batch
         else if ends_with '';'' line then trim (batch @ line @ '' '') # batches ls []
         else batches ls (batch @ line @ '' ''))"

text \<open>The statements one after the other; USE sets the current database.\<close>

fun run_batches :: "env \<Rightarrow> string list \<Rightarrow> string option \<times> server \<Rightarrow> server option" where
  "run_batches v [] (cur, ce) = Some ce"
| "run_batches v (sql # sqls) (cur, ce) =
     (if starts_with ''USE '' (to_upper sql)
      then run_batches v sqls (Some (trim_char backtick (trim_end_by (\<lambda>c. c = CHR '';'') (trim (drop 4 sql)))), ce)
      else do { (ce, res) \<leftarrow> execute v sql cur ''root'' ce; run_batches v sqls (cur, ce) })"

lemma restore_lines_batches:
  "map_option (\<lambda>(_, _, ce). ce) (restore_lines v ls (cur, batch, ce)) = run_batches v (batches ls batch) (cur, ce)"
proof (induction ls arbitrary: cur batch ce)
  case (Cons raw ls)
  let ?line = "trim raw"
  let ?sql = "trim (batch @ ?line @ '' '')"
  consider "starts_with ''--'' ?line \<or> ?line = []"
    | "\<not> (starts_with ''--'' ?line \<or> ?line = [])" "\<not> ends_with '';'' ?line"
    | "\<not> (starts_with ''--'' ?line \<or> ?line = [])" "ends_with '';'' ?line" "starts_with ''USE '' (to_upper ?sql)"
    | "\<not> (starts_with ''--'' ?line \<or> ?line = [])" "ends_with '';'' ?line" "\<not> starts_with ''USE '' (to_upper ?sql)"
    by blast
  then show ?case
  proof cases
    case 4
    show ?thesis
    proof (cases "execute v ?sql cur ''root'' ce")
      case (Some r)
      then show ?thesis using 4 Cons.IH by (cases r) (simp add: restore_line_def Let_def)
    qed (use 4 in \<open>simp add: restore_line_def Let_def\<close>)
  qed (simp_all add: restore_line_def Let_def Cons.IH)
qed simp

lemma restore_batches: "restore_sql v dump ce = run_batches v (batches (lines dump) []) (None, ce)"
  by (simp add: restore_sql_def restore_lines_batches)

section \<open>Texts with line breaks\<close>

text \<open>A line break in a text is written as it is, and read back as a space.\<close>

lemma line_break_lost:
  "dump_row x [VInt 1, VText (''a'' @ newline @ ''b'')] = ''  (1, '' @ quoted (''a'' @ newline @ ''b'') @ '')''"
  "batches (lines (''INSERT INTO t VALUES'' @ newline @ ''  (1, '' @ quoted (''a'' @ newline @ ''b'') @ '');'')) [] =
     [''INSERT INTO t VALUES (1, '' @ quoted ''a b'' @ '');'']"
proof -
  have "escape_text (''a'' @ newline @ ''b'') = ''a'' @ newline @ ''b''" "show_i64 1 = ''1''" by code_simp+
  then show "dump_row x [VInt 1, VText (''a'' @ newline @ ''b'')] = ''  (1, '' @ quoted (''a'' @ newline @ ''b'') @ '')''"
    by (simp add: dump_row_def dump_value_def)
qed code_simp

lemma batches_append: "\<exists>b. batches (ls @ ls') batch = batches ls batch @ batches ls' b"
proof (induction ls arbitrary: batch)
  case (Cons l ls)
  then show ?case by (simp add: Let_def)
qed auto

lemma split_char_append: "split_char d (a @ d # b) = split_char d a @ split_char d b"
  by (induction a) (auto split: list.splits)

lemma trim_closed: "\<not> is_ws c \<Longrightarrow> trim (c # s @ '';'') = c # s @ '';''" "\<not> is_ws c \<Longrightarrow> trim (c # s @ ''; '') = c # s @ '';''"
proof -
  have "\<not> is_ws (CHR '';'')" "is_ws (CHR '' '')" by code_simp+
  then show "\<not> is_ws c \<Longrightarrow> trim (c # s @ '';'') = c # s @ '';''" "\<not> is_ws c \<Longrightarrow> trim (c # s @ ''; '') = c # s @ '';''"
    by (simp_all add: trim_def trim_start_by_def trim_end_by_def)
qed

text \<open>A line \<open>;\<close> ends what is there before it; the line behind it is a statement.\<close>

lemma lines_of_text:
  assumes "CHR 0x0A \<notin> set (c # s)"
  shows "\<exists>ls ls'. lines (a @ newline @ '';'' @ newline @ (c # s @ '';'') @ newline @ b) = ls @ '';'' # (c # s @ '';'') # ls'"
proof -
  have nl: "char_of (10 :: nat) = CHR 0x0A" "char_of (13 :: nat) = CHR 0x0D" by code_simp+
  have "split_char (CHR 0x0A) (a @ newline @ '';'' @ newline @ (c # s @ '';'') @ newline @ b) =
      split_char (CHR 0x0A) a @ '';'' # (c # s @ '';'') # split_char (CHR 0x0A) b"
    using assms split_char_none [of "CHR 0x0A" "c # s @ '';''"]
    by (simp add: newline_def split_char_append split_char_append [of _ "[]", simplified]
        split_char_append [of _ "c # s @ '';''", simplified] split_char_append [of _ "'';''", simplified])
  moreover have "strip_cr '';'' = '';''" "strip_cr (c # s @ '';'') = c # s @ '';''"
    by (simp_all add: strip_cr_def nl)
  ultimately show ?thesis by (simp add: lines_def nl butlast_append Let_def) blast
qed

lemma statement_of_text:
  assumes "CHR 0x0A \<notin> set (c # s)" "\<not> is_ws c" "c \<noteq> CHR ''-''"
  shows "(c # s @ '';'') \<in> set (batches (lines (a @ newline @ '';'' @ newline @ (c # s @ '';'') @ newline @ b)) [])"
proof -
  obtain ls ls' where l: "lines (a @ newline @ '';'' @ newline @ (c # s @ '';'') @ newline @ b) = ls @ '';'' # (c # s @ '';'') # ls'"
    using lines_of_text [OF assms(1)] by blast
  obtain bt where b: "batches (ls @ '';'' # (c # s @ '';'') # ls') [] = batches ls [] @ batches ('';'' # (c # s @ '';'') # ls') bt"
    using batches_append by blast
  have semi: "trim '';'' = '';''" "\<not> starts_with ''--'' '';''" "ends_with '';'' '';''" by code_simp+
  have "\<not> starts_with ''--'' (c # s @ '';'')" "ends_with '';'' (c # s @ '';'')"
    using assms(3) by (simp_all add: starts_with_def ends_with_def)
  then have "(c # s @ '';'') \<in> set (batches (ls @ '';'' # (c # s @ '';'') # ls') [])"
    using trim_closed [OF assms(2), of s] semi unfolding b by (simp add: Let_def)
  then show ?thesis unfolding l .
qed

section \<open>A statement in a text\<close>

definition hidden :: "char \<Rightarrow> string \<Rightarrow> string" where
  "hidden c s = newline @ '';'' @ newline @ (c # s @ '';'') @ newline"

text \<open>A statement on one line, without quotes and backslashes.\<close>

definition one_line :: "char \<Rightarrow> string \<Rightarrow> bool" where
  "one_line c s \<longleftrightarrow> \<not> is_ws c \<and> c \<noteq> CHR ''-'' \<and> set (c # s) \<inter> {CHR 0x0A, quote, backslash} = {}"

lemma escape_plain: "set s \<inter> {quote, backslash} = {} \<Longrightarrow> escape_text s = s"
  by (induction s) (auto simp: escape_text_Cons)

lemma hidden_unescaped: "one_line c s \<Longrightarrow> escape_text (hidden c s) = hidden c s"
  by (intro escape_plain) (auto simp: hidden_def one_line_def newline_def quote_def backslash_def)

lemma sublist_behind: "sublist w b \<Longrightarrow> sublist w (a @ b)"
  by (auto simp: sublist_def) (metis append_assoc)

lemma sublist_concat: "w \<in> set ws \<Longrightarrow> sublist w (concat ws)"
  by (induction ws) (auto intro: sublist_order.order_trans [OF _ sublist_append_leftI])

lemma sublist_join: "w \<in> set ws \<Longrightarrow> sublist w (join sep ws)"
proof (induction sep ws rule: join.induct)
  case (3 sep w' w'' ws)
  show ?case
  proof (cases "w = w'")
    case False
    then have "sublist w (join sep (w'' # ws))" using 3 by auto
    then show ?thesis using sublist_order.order_trans [OF _ sublist_append_leftI, of w _ "w' @ sep"] by simp
  qed simp
qed auto

lemma dumped_value:
  assumes "databases e n = Some d" "n \<notin> set builtin_schemas" "tables d t = Some tab" "r \<in> set (rows tab)" "u \<in> set r"
    and "n \<in> set (env_walk v (dom (databases e)))" "t \<in> set (env_walk v (dom (tables d)))"
  shows "sublist (dump_value (env_crates v) u) (dump_sql v e)"
proof -
  let ?x = "env_crates v"
  have "sublist (dump_value ?x u) (join '', '' (map (dump_value ?x) r))" using assms(5) by (intro sublist_join) simp
  also have "sublist \<dots> (dump_row ?x r)" unfolding dump_row_def sublist_def by blast
  also have "sublist \<dots> (join ('','' @ newline) (map (dump_row ?x) (rows tab)))" using assms(4) by (intro sublist_join) simp
  also have "sublist \<dots> (dump_rows ?x t tab)"
  proof -
    have "rows tab \<noteq> []" using assms(4) by auto
    then show ?thesis
      unfolding dump_rows_def
      by (simp only: if_False) (rule sublist_behind [OF sublist_behind [OF sublist_behind [OF
          sublist_behind [OF sublist_behind [OF sublist_behind [OF sublist_append_rightI]]]]]])
  qed
  also have "sublist \<dots> (dump_table ?x t tab)" unfolding dump_table_def by (intro sublist_behind) simp
  also have "sublist \<dots> (concat (map (\<lambda>t. case tables d t of Some tab \<Rightarrow> dump_table ?x t tab | None \<Rightarrow> [])
      (env_walk v (dom (tables d)))))"
    using assms(3,7) by (intro sublist_concat) force
  also have "sublist \<dots> (dump_database ?x (env_walk v) n d)" unfolding dump_database_def by (intro sublist_behind) simp
  also have "sublist \<dots> (concat (map (\<lambda>n. if n \<in> set builtin_schemas then []
      else case databases e n of Some d \<Rightarrow> dump_database ?x (env_walk v) n d | None \<Rightarrow> [])
      (env_walk v (dom (databases e)))))"
    using assms(1,2,6) by (intro sublist_concat) force
  also have "sublist \<dots> (dump_sql v e)" unfolding dump_sql_def by (intro sublist_behind) simp
  finally show ?thesis .
qed

lemma hidden_statement:
  assumes "databases e n = Some d" "n \<notin> set builtin_schemas" "tables d t = Some tab" "r \<in> set (rows tab)"
    and "VText (hidden c s) \<in> set r" "one_line c s"
    and "n \<in> set (env_walk v (dom (databases e)))" "t \<in> set (env_walk v (dom (tables d)))"
  shows "(c # s @ '';'') \<in> set (batches (lines (dump_sql v e)) [])"
proof -
  have "sublist (quoted (hidden c s)) (dump_sql v e)"
    using dumped_value [OF assms(1-5,7,8)] hidden_unescaped [OF assms(6)] by (simp add: dump_value_def)
  then obtain a b where "dump_sql v e = a @ quoted (hidden c s) @ b" by (auto simp: sublist_def)
  then have "dump_sql v e = (a @ [CHR 0x27]) @ newline @ '';'' @ newline @ (c # s @ '';'') @ newline @ ([CHR 0x27] @ b)"
    by (simp add: quoted_def hidden_def)
  then show ?thesis
    using assms(6) statement_of_text [of c s "a @ [CHR 0x27]" "[CHR 0x27] @ b"] by (simp add: one_line_def)
qed

end
