(* ===== verification/Dump_Text.thy ===== *)
theory Dump_Text
  imports Dump_Laws
begin

text \<open>
  What a restore reads in a dump whose names and texts have no line breaks: exactly the statements the
  dump wrote, each as one text, in their order. A chunk of the dump makes some statements, whatever
  comes behind it, and the chunks compose.
\<close>

section \<open>Lines\<close>

lemma lines_Cons:
  assumes "CHR 0x0A \<notin> set l"
  shows "lines (l @ newline @ rest) = strip_cr l # lines rest"
proof -
  have nl: "char_of (10 :: nat) = CHR 0x0A" by code_simp
  have "split_char (CHR 0x0A) (l @ newline @ rest) = l # split_char (CHR 0x0A) rest"
    using assms by (simp add: newline_def split_char_append split_char_none)
  then show ?thesis by (simp add: lines_def nl Let_def)
qed

text \<open>A text without white space at its ends that is no comment.\<close>

definition bare :: "string \<Rightarrow> bool" where
  "bare s \<longleftrightarrow> s \<noteq> [] \<and> \<not> is_ws (hd s) \<and> \<not> is_ws (last s) \<and> hd s \<noteq> CHR ''-'' \<and> CHR 0x0A \<notin> set s"

definition indented :: "string \<Rightarrow> string \<Rightarrow> bool" where
  "indented s l \<longleftrightarrow> l = s \<or> l = ''  '' @ s"

lemma trim_bare:
  assumes "bare s" "indented s l"
  shows "trim l = s" "strip_cr l = l" "CHR 0x0A \<notin> set l"
proof -
  obtain c r where s: "s = c # r" "\<not> is_ws c" using assms(1) by (cases s) (auto simp: bare_def)
  have l: "rev s = last s # rev (butlast s)" using s(1) by (metis append_butlast_last_id rev_eq_Cons_iff rev_rev_ident list.distinct(1))
  have "is_ws (CHR '' '')" by code_simp
  then have "dropWhile is_ws l = s" using assms(2) s by (auto simp: indented_def)
  moreover have "dropWhile is_ws (rev s) = rev s" using assms(1) unfolding l by (simp add: bare_def)
  ultimately show "trim l = s" by (simp add: trim_def trim_start_by_def trim_end_by_def)
  have "is_ws (char_of (13 :: nat))" by code_simp
  then have "last s \<noteq> char_of (13 :: nat)" using assms(1) by (auto simp: bare_def)
  moreover have "last l = last s" using assms(2) s(1) by (auto simp: indented_def)
  ultimately show "strip_cr l = l" by (simp add: strip_cr_def)
  show "CHR 0x0A \<notin> set l" using assms by (auto simp: bare_def indented_def)
qed

lemma bare_comment: "bare s \<Longrightarrow> \<not> starts_with ''--'' s"
  by (cases s) (auto simp: bare_def starts_with_def)

lemma ends_semicolon: "s \<noteq> [] \<Longrightarrow> ends_with '';'' s \<longleftrightarrow> last s = CHR '';''"
  by (cases s rule: rev_cases) (auto simp: ends_with_def starts_with_def)

section \<open>Chunks of a dump\<close>

definition unlines :: "string list \<Rightarrow> string" where
  "unlines ls = concat (map (\<lambda>l. l @ newline) ls)"

definition makes :: "string \<Rightarrow> string list \<Rightarrow> bool" where
  "makes s sqls \<longleftrightarrow> (\<forall>rest. batches (lines (s @ rest)) [] = sqls @ batches (lines rest) [])"

lemma makes_Nil: "makes [] []"
  by (simp add: makes_def)

lemma makes_newline: "makes newline []"
  using lines_Cons [of "[]"] by (simp add: makes_def strip_cr_def trim_def trim_start_by_def trim_end_by_def)

lemma makes_append: "makes s sqls \<Longrightarrow> makes s' sqls' \<Longrightarrow> makes (s @ s') (sqls @ sqls')"
  by (simp add: makes_def)

lemma makes_concat: "(\<And>a. a \<in> set as \<Longrightarrow> makes (f a) (g a)) \<Longrightarrow> makes (concat (map f as)) (concat (map g as))"
  by (induction as) (auto simp: makes_Nil intro!: makes_append)

lemma makes_all: "makes s sqls \<Longrightarrow> batches (lines s) [] = sqls"
  unfolding makes_def by (drule spec [of _ "[]"]) (simp add: lines_def)

lemma makes_comment:
  assumes "bare s" "CHR 0x0A \<notin> set s"
  shows "makes (''-- '' @ s @ newline) []"
proof -
  let ?l = "''-- '' @ s"
  have nws: "\<not> is_ws (CHR ''-'')" by code_simp
  have s: "s \<noteq> []" "\<not> is_ws (last s)" using assms(1) by (simp_all add: bare_def)
  obtain r d where r: "s = r @ [d]" using s(1) by (cases s rule: rev_cases) auto
  have "strip_cr ?l = ?l"
  proof -
    have "is_ws (char_of (13 :: nat))" by code_simp
    then show ?thesis using s by (auto simp: strip_cr_def)
  qed
  moreover have "trim ?l = ?l" using nws s(2) by (simp add: r trim_def trim_start_by_def trim_end_by_def)
  ultimately show ?thesis
    using assms(2) lines_Cons [of ?l] by (simp add: makes_def starts_with_def Let_def)
qed

text \<open>The text of a statement written on several lines: the lines trimmed, each with a space behind it.\<close>

definition piece :: "string \<Rightarrow> string" where
  "piece l = (if trim l = [] then [] else trim l @ '' '')"

definition statement_text :: "string list \<Rightarrow> string" where
  "statement_text ls = trim (concat (map piece ls))"

lemma trim_behind:
  assumes "bare l"
  shows "\<exists>s'. trim (l @ s) = l @ s'"
proof -
  have l: "l \<noteq> []" "dropWhile is_ws (l @ s) = l @ s" using assms by (cases l; simp add: bare_def)+
  have "dropWhile is_ws (rev l) = rev l"
    using assms by (cases l rule: rev_cases) (simp_all add: bare_def)
  then have "\<exists>s'. dropWhile is_ws (rev s @ rev l) = rev s' @ rev l"
  proof (cases "\<forall>c\<in>set s. is_ws c")
    case True
    assume "dropWhile is_ws (rev l) = rev l"
    then show ?thesis using True dropWhile_append2 [of "rev s" is_ws "rev l"] by (intro exI [of _ "[]"]) simp
  next
    case False
    then have "dropWhile is_ws (rev s @ rev l) = dropWhile is_ws (rev s) @ rev l" by (auto intro: dropWhile_append1)
    then show ?thesis by (metis rev_rev_ident)
  qed
  then obtain s' where s': "dropWhile is_ws (rev s @ rev l) = rev s' @ rev l" by blast
  show ?thesis by (intro exI [of _ s']) (simp add: trim_def trim_start_by_def trim_end_by_def l s')
qed

lemma statement_text_starts: "bare l \<Longrightarrow> \<exists>s. statement_text (l # ls) = l @ s"
  using trim_behind [of l "'' '' @ concat (map piece ls)"] trim_bare(1) [of l l]
  by (simp add: statement_text_def piece_def indented_def bare_def)

lemma statement_text_one:
  assumes "bare l"
  shows "statement_text [l] = l"
proof -
  obtain m d where l: "l = m @ [d]" "\<not> is_ws d" using assms by (cases l rule: rev_cases) (simp_all add: bare_def)
  have "is_ws (CHR '' '')" by code_simp
  moreover have "dropWhile is_ws (l @ '' '') = l @ '' ''" using assms by (cases l) (simp_all add: bare_def)
  ultimately have "trim (l @ '' '') = l" using l by (simp add: trim_def trim_start_by_def trim_end_by_def)
  then show ?thesis using trim_bare(1) [OF assms, of l] assms by (simp add: statement_text_def piece_def indented_def bare_def)
qed

definition open_line :: "string \<Rightarrow> bool" where
  "open_line l \<longleftrightarrow> l = [] \<or> (\<exists>s. bare s \<and> indented s l \<and> last s \<noteq> CHR '';'')"

definition last_line :: "string \<Rightarrow> bool" where
  "last_line l \<longleftrightarrow> (\<exists>s. bare s \<and> indented s l \<and> last s = CHR '';'')"

lemma batches_open: "open_line l \<Longrightarrow> batches (strip_cr l # ls) b = batches ls (b @ piece l)"
proof (cases "l = []")
  case False
  assume "open_line l"
  then obtain s where s: "bare s" "indented s l" "last s \<noteq> CHR '';''" using False by (auto simp: open_line_def)
  then have "s \<noteq> []" by (simp add: bare_def)
  then show ?thesis
    using s bare_comment [OF s(1)] ends_semicolon [of s] by (simp add: trim_bare [OF s(1,2)] piece_def Let_def)
qed (simp add: strip_cr_def piece_def trim_def trim_start_by_def trim_end_by_def)

lemma batches_last: "last_line l \<Longrightarrow> batches (strip_cr l # ls) b = trim (b @ piece l) # batches ls []"
proof -
  assume "last_line l"
  then obtain s where s: "bare s" "indented s l" "last s = CHR '';''" by (auto simp: last_line_def)
  then have "s \<noteq> []" by (simp add: bare_def)
  then show ?thesis
    using s bare_comment [OF s(1)] ends_semicolon [of s] by (simp add: trim_bare [OF s(1,2)] piece_def Let_def)
qed

lemma makes_statement:
  assumes "\<forall>l\<in>set ls. open_line l" "last_line l'"
  shows "makes (unlines (ls @ [l'])) [statement_text (ls @ [l'])]"
proof -
  have nl: "CHR 0x0A \<notin> set l" if "open_line l \<or> last_line l" for l
    using that trim_bare(3) by (auto simp: open_line_def last_line_def)
  have ls: "batches (lines (unlines ls @ rest)) b = batches (lines rest) (b @ concat (map piece ls))" for rest b
    using assms(1)
  proof (induction ls arbitrary: b)
    case (Cons l ls)
    then show ?case using lines_Cons [of l "unlines ls @ rest"] nl [of l] by (simp add: unlines_def batches_open del: batches.simps)
  qed (simp add: unlines_def)
  have "batches (lines (unlines (ls @ [l']) @ rest)) [] = [statement_text (ls @ [l'])] @ batches (lines rest) []" for rest
  proof -
    have "unlines (ls @ [l']) @ rest = unlines ls @ l' @ newline @ rest" by (simp add: unlines_def)
    then show ?thesis
      using lines_Cons [of l' rest] nl [of l'] assms(2)
      by (simp add: ls batches_last statement_text_def del: batches.simps)
  qed
  then show ?thesis by (simp add: makes_def)
qed

text \<open>Items on lines of their own, with commas between them and a text behind the last.\<close>

definition item_lines :: "string list \<Rightarrow> string \<Rightarrow> string list" where
  "item_lines ws s = map (\<lambda>w. w @ '','') (butlast ws) @ [(if ws = [] then [] else last ws) @ s]"

lemma join_lines: "join ('','' @ newline) ws @ s @ newline = unlines (item_lines ws s)"
  by (induction "'','' @ newline" ws rule: join.induct) (auto simp: item_lines_def unlines_def)

lemma bare_append: "bare s \<Longrightarrow> \<not> is_ws c \<Longrightarrow> c \<noteq> CHR 0x0A \<Longrightarrow> bare (s @ [c])"
  by (auto simp: bare_def)

lemma separators: "\<not> is_ws (CHR '','')" "\<not> is_ws (CHR '';'')" "\<not> is_ws (CHR '')'')" "\<not> is_ws (CHR ''('')" "\<not> is_ws backtick"
  by code_simp+

definition item :: "string \<Rightarrow> bool" where
  "item w \<longleftrightarrow> (\<exists>s. w = ''  '' @ s \<and> bare s \<and> last s \<noteq> CHR '';'')"

lemma item_open:
  assumes "item w"
  shows "open_line w" "open_line (w @ '','')" "last_line (w @ '';'')"
proof -
  obtain s where s: "w = ''  '' @ s" "bare s" "last s \<noteq> CHR '';''" using assms by (auto simp: item_def)
  show "open_line w" using s by (auto simp: open_line_def indented_def)
  show "open_line (w @ '','')"
    using s bare_append [OF s(2) separators(1)] unfolding open_line_def indented_def
    by (intro disjI2 exI [of _ "s @ '',''"]) auto
  show "last_line (w @ '';'')"
    using s bare_append [OF s(2) separators(2)] unfolding last_line_def indented_def
    by (intro exI [of _ "s @ '';''"]) auto
qed

lemma item_lines_open: "\<forall>w\<in>set ws. item w \<Longrightarrow> \<forall>l\<in>set (item_lines ws []). open_line l"
  by (auto simp: item_lines_def item_open dest: in_set_butlastD) (simp add: open_line_def)

lemma item_lines_last:
  assumes "\<forall>w\<in>set ws. item w" "ws \<noteq> []"
  shows "\<exists>ls l'. item_lines ws '';'' = ls @ [l'] \<and> (\<forall>l\<in>set ls. open_line l) \<and> last_line l'"
  using assms by (auto simp: item_lines_def item_open dest: in_set_butlastD)

section \<open>The statements of a dump\<close>

definition create_database_line :: "string \<Rightarrow> string" where
  "create_database_line n = ''CREATE DATABASE IF NOT EXISTS '' @ in_backticks n @ '';''"

definition use_line :: "string \<Rightarrow> string" where
  "use_line n = ''USE '' @ in_backticks n @ '';''"

definition create_table_lines :: "string \<Rightarrow> table \<Rightarrow> string list" where
  "create_table_lines t tab =
     (''CREATE TABLE IF NOT EXISTS '' @ in_backticks t @ '' ('') # item_lines (map dump_column (columns tab)) [] @ ['');'']"

definition insert_lines :: "'q crates \<Rightarrow> string \<Rightarrow> table \<Rightarrow> string list" where
  "insert_lines x t tab =
     (''INSERT INTO '' @ in_backticks t @ '' ('' @ join '', '' (map (\<lambda>c. in_backticks (col_name c)) (columns tab)) @ '') VALUES'') #
     item_lines (map (dump_row x) (rows tab)) '';''"

definition table_texts :: "'q crates \<Rightarrow> string \<Rightarrow> table \<Rightarrow> string list" where
  "table_texts x t tab =
     statement_text (create_table_lines t tab) # (if rows tab = [] then [] else [statement_text (insert_lines x t tab)])"

definition database_texts :: "'q crates \<Rightarrow> walk \<Rightarrow> string \<Rightarrow> database \<Rightarrow> string list" where
  "database_texts x iter n d =
     [statement_text [create_database_line n], statement_text [use_line n]] @
     concat (map (\<lambda>t. case tables d t of Some tab \<Rightarrow> table_texts x t tab | None \<Rightarrow> []) (iter (dom (tables d))))"

definition dump_texts :: "env \<Rightarrow> engine \<Rightarrow> string list" where
  "dump_texts v e =
     concat (map (\<lambda>n. if n \<in> set builtin_schemas then []
                      else case databases e n of Some d \<Rightarrow> database_texts (env_crates v) (env_walk v) n d | None \<Rightarrow> [])
       (env_walk v (dom (databases e))))"

text \<open>Plain names, texts and tables: no line breaks; a name has no backticks, or is a word in backticks, as a
  restore stores the name of a database.\<close>

definition word_char :: "char \<Rightarrow> bool" where
  "word_char c \<longleftrightarrow> is_digit c \<or> is_lower c \<or> is_upper c \<or> c = CHR ''_''"

definition plain_name :: "string \<Rightarrow> bool" where
  "plain_name n \<longleftrightarrow> CHR 0x0A \<notin> set n \<and> backtick \<notin> set n \<or> (\<exists>m. n = in_backticks m \<and> list_all word_char m)"

definition plain_value :: "Value \<Rightarrow> bool" where
  "plain_value u \<longleftrightarrow> (case u of VText s \<Rightarrow> CHR 0x0A \<notin> set s | _ \<Rightarrow> True)"

definition plain_table :: "string \<Rightarrow> table \<Rightarrow> bool" where
  "plain_table t tab \<longleftrightarrow>
     plain_name t \<and> (\<forall>c\<in>set (columns tab). plain_name (col_name c)) \<and> (\<forall>r\<in>set (rows tab). list_all plain_value r)"

definition plain_engine :: "engine \<Rightarrow> bool" where
  "plain_engine e \<longleftrightarrow>
     (\<forall>n d. databases e n = Some d \<longrightarrow> n \<notin> set builtin_schemas \<longrightarrow>
        plain_name n \<and> (\<forall>t tab. tables d t = Some tab \<longrightarrow> plain_table t tab))"

text \<open>The crate hex writes digits.\<close>

definition hex_digits :: "'q crates \<Rightarrow> bool" where
  "hex_digits x \<longleftrightarrow> (\<forall>b. list_all word_char (hex_encode x b))"

lemma not_newline: "\<not> word_char (CHR 0x0A)" "\<not> is_digit (CHR 0x0A)" "backtick \<noteq> CHR 0x0A"
  by code_simp+

lemma plain_name_line: "plain_name n \<Longrightarrow> CHR 0x0A \<notin> set (in_backticks n)"
  using not_newline by (auto simp: plain_name_def in_backticks_def list_all_iff)

lemma show_nat_line: "CHR 0x0A \<notin> set (show_nat n)"
  using show_nat_digits [of n] not_newline(2) by (auto simp: list_all_iff)

lemma f64_show_line: "CHR 0x0A \<notin> set (f64_show f)"
proof -
  have "CHR 0x0A \<notin> set (take k (show_nat n))" "CHR 0x0A \<notin> set (drop k (show_nat n))" for k n
    using show_nat_line by (meson in_set_takeD in_set_dropD)+
  then have "CHR 0x0A \<notin> set (place_point d p)" for d p
    by (simp add: place_point_def Let_def show_nat_line split: prod.split)
  then show ?thesis by (simp add: f64_show_def Let_def split: f64_view.split prod.split)
qed

lemma escape_line: "CHR 0x0A \<notin> set s \<Longrightarrow> CHR 0x0A \<notin> set (escape_text s)"
  by (induction s) (auto simp: escape_text_Cons backslash_def quote_def)

lemma hex_line: "hex_digits x \<Longrightarrow> CHR 0x0A \<notin> set (hex_encode x b)"
  using not_newline(1) unfolding hex_digits_def list_all_iff by blast

lemma dump_value_line: "hex_digits x \<Longrightarrow> plain_value u \<Longrightarrow> CHR 0x0A \<notin> set (dump_value x u)"
proof (cases u)
  case (VText s)
  assume "plain_value u"
  then show ?thesis using escape_line by (simp add: VText dump_value_def quoted_def plain_value_def)
qed (auto simp: dump_value_def show_i64_def show_int_def show_nat_line f64_show_line quoted_def hex_line)

lemma join_line: "CHR 0x0A \<notin> set sep \<Longrightarrow> \<forall>w\<in>set ws. CHR 0x0A \<notin> set w \<Longrightarrow> CHR 0x0A \<notin> set (join sep ws)"
  by (induction sep ws rule: join.induct) auto

lemma row_item:
  assumes "hex_digits x" "list_all plain_value r"
  shows "item (dump_row x r)"
proof -
  have "CHR 0x0A \<notin> set (join '', '' (map (dump_value x) r))"
    using assms by (intro join_line) (auto simp: dump_value_line list_all_iff)
  then show ?thesis
    using separators unfolding item_def
    by (intro exI [of _ "''('' @ join '', '' (map (dump_value x) r) @ '')''"]) (simp add: dump_row_def bare_def)
qed

lemma column_item:
  assumes "plain_name (col_name c)"
  shows "item (dump_column c)"
proof -
  let ?s = "in_backticks (col_name c) @ '' '' @ dump_type (col_type c) @ (if primary_key c then '' PRIMARY KEY'' else [])"
  have type: "dump_type ct \<noteq> []" "\<not> is_ws (last (dump_type ct))" "last (dump_type ct) \<noteq> CHR '';''"
    "CHR 0x0A \<notin> set (dump_type ct)" for ct
    using show_nat_line by (cases ct; simp add: dump_type_def is_ws_def)+
  have "\<not> is_ws (CHR ''Y'')" by code_simp
  then have "bare ?s" "last ?s \<noteq> CHR '';''"
    using type plain_name_line [OF assms] separators(5) by (auto simp: bare_def in_backticks_def backtick_def)
  then show ?thesis unfolding item_def dump_column_def by blast
qed

lemma create_table_makes:
  assumes "plain_table t tab"
  shows "makes (unlines (create_table_lines t tab)) [statement_text (create_table_lines t tab)]"
proof -
  let ?head = "''CREATE TABLE IF NOT EXISTS '' @ in_backticks t @ '' (''"
  have "bare ?head" "last ?head \<noteq> CHR '';''"
    using plain_name_line assms separators(4) by (auto simp: bare_def plain_table_def is_ws_def)
  then have "open_line ?head" by (auto simp: open_line_def indented_def)
  moreover have "\<forall>l\<in>set (item_lines (map dump_column (columns tab)) []). open_line l"
    using assms by (intro item_lines_open) (auto simp: plain_table_def column_item)
  moreover have "bare '');''" by (simp add: bare_def separators)
  then have "last_line '');''" by (auto simp: last_line_def indented_def)
  ultimately show ?thesis
    using makes_statement [of "?head # item_lines (map dump_column (columns tab)) []" "'');''"]
    by (simp add: create_table_lines_def)
qed

lemma insert_makes:
  assumes "plain_table t tab" "hex_digits x" "rows tab \<noteq> []"
  shows "makes (unlines (insert_lines x t tab)) [statement_text (insert_lines x t tab)]"
proof -
  let ?head = "''INSERT INTO '' @ in_backticks t @ '' ('' @ join '', '' (map (\<lambda>c. in_backticks (col_name c)) (columns tab)) @ '') VALUES''"
  have "CHR 0x0A \<notin> set (join '', '' (map (\<lambda>c. in_backticks (col_name c)) (columns tab)))"
    using assms(1) by (intro join_line) (auto simp: plain_table_def plain_name_line)
  then have "bare ?head" "last ?head \<noteq> CHR '';''"
    using plain_name_line assms(1) by (auto simp: bare_def plain_table_def is_ws_def)
  then have "open_line ?head" by (auto simp: open_line_def indented_def)
  moreover have "\<forall>w\<in>set (map (dump_row x) (rows tab)). item w"
    using assms(1,2) by (auto simp: plain_table_def row_item)
  then obtain ls l' where "item_lines (map (dump_row x) (rows tab)) '';'' = ls @ [l']" "\<forall>l\<in>set ls. open_line l" "last_line l'"
    using item_lines_last assms(3) by (metis map_is_Nil_conv)
  ultimately show ?thesis using makes_statement [of "?head # ls" l'] by (simp add: insert_lines_def)
qed

lemma dump_table_makes:
  assumes "plain_table t tab" "hex_digits x"
  shows "makes (dump_table x t tab) (table_texts x t tab)"
proof -
  have "dump_table x t tab = unlines (create_table_lines t tab) @ newline @ dump_rows x t tab"
    using join_lines [of "map dump_column (columns tab)" "[]"]
    by (simp add: dump_table_def create_table_lines_def unlines_def)
  moreover have "makes (dump_rows x t tab) (if rows tab = [] then [] else [statement_text (insert_lines x t tab)])"
  proof (cases "rows tab = []")
    case False
    then have "dump_rows x t tab = unlines (insert_lines x t tab) @ newline"
      using join_lines [of "map (dump_row x) (rows tab)" "'';''"]
      by (simp add: dump_rows_def insert_lines_def unlines_def)
    then show ?thesis using makes_append [OF insert_makes [OF assms False] makes_newline] False by simp
  qed (simp add: dump_rows_def makes_Nil)
  ultimately show ?thesis
    using makes_append [OF create_table_makes [OF assms(1)] makes_append [OF makes_newline]]
    by (simp add: table_texts_def)
qed

lemma one_line_makes:
  assumes "bare s" "last s = CHR '';''"
  shows "makes (s @ newline) [statement_text [s]]"
  using makes_statement [of "[]" s] assms by (auto simp: last_line_def indented_def unlines_def)

lemma dump_database_makes:
  assumes "plain_name n" "\<And>t tab. tables d t = Some tab \<Longrightarrow> plain_table t tab" "hex_digits x"
  shows "makes (dump_database x iter n d) (database_texts x iter n d)"
proof -
  have "bare (create_database_line n)" "last (create_database_line n) = CHR '';''" "bare (use_line n)" "last (use_line n) = CHR '';''"
    using plain_name_line [OF assms(1)] separators(2)
    by (auto simp: bare_def create_database_line_def use_line_def is_ws_def)
  note two = makes_append [OF one_line_makes [OF this(1,2)] makes_append [OF one_line_makes [OF this(3,4)] makes_newline]]
  have "makes (concat (map (\<lambda>t. case tables d t of Some tab \<Rightarrow> dump_table x t tab | None \<Rightarrow> []) ts))
      (concat (map (\<lambda>t. case tables d t of Some tab \<Rightarrow> table_texts x t tab | None \<Rightarrow> []) ts))" for ts
    by (intro makes_concat) (auto simp: makes_Nil dump_table_makes [OF assms(2,3)] split: option.split)
  from makes_append [OF two this] show ?thesis
    by (simp add: dump_database_def database_texts_def create_database_line_def use_line_def)
qed

text \<open>A restore of the dump of a plain engine runs the statements the dump wrote, and no other.\<close>

lemma plain_dump_statements:
  assumes "plain_engine e" "hex_digits (env_crates v)"
  shows "batches (lines (dump_sql v e)) [] = dump_texts v e"
proof (rule makes_all)
  let ?stamp = "''Generated: unix_ts='' @ show_nat (unix_now (env_crates v))"
  have stamp: "bare ?stamp" "CHR 0x0A \<notin> set ?stamp"
  proof -
    have "\<not> is_ws (last (show_nat n))" for n
    proof -
      have "is_digit (last (show_nat n))" using show_nat_digits [of n] by (simp add: list_all_iff)
      then show ?thesis by (auto simp: is_digit_def is_ws_def)
    qed
    then show "bare ?stamp" "CHR 0x0A \<notin> set ?stamp" using show_nat_line by (auto simp: bare_def is_ws_def)
  qed
  have title: "bare ''RunAlexDB SQL dump''" "CHR 0x0A \<notin> set ''RunAlexDB SQL dump''" by code_simp+
  note head = makes_append [OF makes_comment [OF title] makes_append [OF makes_comment [OF stamp] makes_newline]]
  let ?f = "\<lambda>n. if n \<in> set builtin_schemas then []
      else case databases e n of Some d \<Rightarrow> dump_database (env_crates v) (env_walk v) n d | None \<Rightarrow> []"
  let ?g = "\<lambda>n. if n \<in> set builtin_schemas then []
      else case databases e n of Some d \<Rightarrow> database_texts (env_crates v) (env_walk v) n d | None \<Rightarrow> []"
  have "makes (?f n) (?g n)" for n
    using assms by (auto simp: makes_Nil plain_engine_def split: option.split intro!: dump_database_makes)
  then have "makes (concat (map ?f ns)) (concat (map ?g ns))" for ns by (intro makes_concat)
  from makes_append [OF head this] show "makes (dump_sql v e) (dump_texts v e)"
    by (simp add: dump_sql_def dump_texts_def)
qed

end
