(* ===== verification/Restart.thy ===== *)
theory Restart
  imports Service Exec_Laws Dump_Text
begin

text \<open>
  Which databases there can be after a statement, after a restore and after a start: those that were
  there, and those the statements create under the name the parser gives. A dump writes the names
  in backticks; the parser keeps them; so after the dump of a plain engine no database is there again
  under its name.
\<close>

section \<open>The databases of a statement\<close>

definition dbs :: "engine \<Rightarrow> string set" where
  "dbs e = dom (databases e)"

definition created :: "stmt \<Rightarrow> string set" where
  "created s = (case s of StCreateDatabase n \<Rightarrow> {n} | _ \<Rightarrow> {})"

lemma dbs_simps [simp]:
  "dbs (bump_write_gen e) = dbs e" "dbs (e\<lparr> last_insert_id := i \<rparr>) = dbs e" "dbs (e\<lparr> databases := m \<rparr>) = dom m"
  by (simp_all add: dbs_def bump_write_gen_def)

lemma put_table_dbs [simp]: "dbs (put_table db t tab e) = dbs e"
  by (auto simp: put_table_def dbs_def split: option.splits if_splits)

lemma with_table_dbs: "with_table db t m1 m2 f e = Some (e', r) \<Longrightarrow> dbs e' = dbs e"
  by (erule with_table_cases) simp_all

lemma insert_source_dbs: "insert_source_rows x db t srcs rep cols e = Some (e', r) \<Longrightarrow> dbs e' = dbs e"
  by (erule insert_source_cases) (auto dest: with_table_dbs)

lemma row_stmts_dbs:
  "insert_values x cur n src rep cols e = Some (e', r) \<Longrightarrow> dbs e' = dbs e"
  "update_stmt x cur n asgns sel e = Some (e', r) \<Longrightarrow> dbs e' = dbs e"
  "delete_stmt x cur n sel e = Some (e', r) \<Longrightarrow> dbs e' = dbs e"
  by (auto simp: insert_values_def update_stmt_def delete_stmt_def split: option.splits prod.splits
      dest: insert_source_dbs with_table_dbs)

lemma insert_select_dbs:
  assumes "insert_select v cur n q rep cols e = Some (e', r)"
  shows "dbs e' = dbs e"
proof -
  obtain db t where q: "qualified_name id cur n = (db, t)" by fastforce
  obtain res where res: "run_query v db q e = Some res"
    using assms q by (auto simp: insert_select_def bind_eq_Some_conv Let_def)
  show ?thesis
  proof (cases "text_result (env_crates v) res")
    case (Inr nr)
    then show ?thesis using assms q res
      by (cases nr) (auto simp: insert_select_def Let_def dest: insert_source_dbs)
  qed (use assms q res in \<open>simp add: insert_select_def Let_def\<close>)
qed

lemma insert_stmt_dbs: "insert_stmt v cur n src rep cols e = Some (e', r) \<Longrightarrow> dbs e' = dbs e"
  by (auto simp: insert_stmt_def split: option.splits set_expr.splits dest: row_stmts_dbs insert_select_dbs)

lemma create_table_dbs: "dbs (fst (create_table cur parts defs ine e)) = dbs e"
  by (auto simp: create_table_def split: prod.split option.split)

lemma create_table_as_dbs:
  assumes "create_table_as v cur c q e = Some (e', r)"
  shows "dbs e' = dbs e"
proof -
  obtain res where res: "run_query v cur q e = Some res" using assms by (auto simp: create_table_as_def)
  obtain db t where nm: "name_parts cur (ct_parts c) = (db, t)" by fastforce
  show ?thesis
  proof (cases "text_result (env_crates v) res")
    case (Inr nr)
    then show ?thesis using assms res nm
      by (cases nr) (auto simp: create_table_as_def split: option.splits if_splits)
  qed (use assms res in \<open>simp add: create_table_as_def\<close>)
qed

lemma drop_tables_dbs: "dbs (fst (drop_tables cur ife ns e)) = dbs e"
proof (induction ns arbitrary: e)
  case (Cons n ns)
  obtain db t where q: "qualified_name (trim_char backtick) cur n = (db, t)" by fastforce
  show ?case
  proof (cases "databases e db")
    case (Some d)
    have "insert db (dom (databases e)) = dom (databases e)" using Some by auto
    then show ?thesis using Cons.IH Some q by (simp add: Let_def dbs_def)
  qed (use Cons.IH q in \<open>auto simp: Let_def\<close>)
qed simp

lemma drop_databases_dbs: "dbs (fst (drop_databases ife ns e)) \<subseteq> dbs e"
proof (induction ns arbitrary: e)
  case (Cons n ns)
  let ?e = "e\<lparr> databases := (databases e)(trim_char backtick n := None) \<rparr>"
  have "dbs ?e \<subseteq> dbs e" by (auto simp: dbs_def)
  moreover have "dbs (fst (drop_databases ife ns ?e)) \<subseteq> dbs ?e" by (rule Cons.IH)
  ultimately have "dbs (fst (drop_databases ife ns ?e)) \<subseteq> dbs e" by (rule order_trans [rotated])
  then show ?case using \<open>dbs ?e \<subseteq> dbs e\<close>
    unfolding drop_databases.simps Let_def by (simp only: split: if_split) simp
qed simp

lemma bumped_dbs:
  assumes "map_option (\<lambda>(e, r). (case r of QOk k pk \<Rightarrow> bump_write_gen e | _ \<Rightarrow> e, r)) (with_table db t m1 m2 f e) =
    Some (e', r)"
  shows "dbs e' = dbs e"
proof -
  obtain e1 r1 where w: "with_table db t m1 m2 f e = Some (e1, r1)"
    and e': "e' = (case r1 of QOk k pk \<Rightarrow> bump_write_gen e1 | _ \<Rightarrow> e1)"
    using assms by auto
  show ?thesis using with_table_dbs [OF w] by (cases r1) (simp_all add: e')
qed

lemma table_ddl_dbs:
  "truncate_stmt cur n e = Some (e', r) \<Longrightarrow> dbs e' = dbs e"
  "alter_stmt cur n opers e = Some (e', r) \<Longrightarrow> dbs e' = dbs e"
  unfolding truncate_stmt_def alter_stmt_def Let_def case_prod_unfold
  by (erule bumped_dbs [unfolded case_prod_unfold])+

lemma exec_stmt_dbs:
  assumes "exec_stmt v cur s e = Some (e', r)"
  shows "dbs e' \<subseteq> dbs e \<union> created s"
proof (cases s)
  case (StCreateDatabase n)
  then show ?thesis
    using assms by (auto simp: exec_stmt_def create_database_def created_def dbs_def split: option.splits if_splits)
next
  case (StCreateTable c)
  then show ?thesis
    using assms create_table_dbs [of "or_test cur" "ct_parts c" "ct_columns c" "ct_if_not_exists c" e]
    by (auto simp: exec_stmt_def split: option.splits dest!: create_table_as_dbs)
next
  case (StDrop ty ns ife)
  then show ?thesis
    using assms drop_tables_dbs [of "or_test cur" ife ns e] drop_databases_dbs [of ife ns e]
    by (cases ty) (auto simp: exec_stmt_def)
qed (use assms in \<open>auto simp: exec_stmt_def dest!: row_stmts_dbs insert_stmt_dbs table_ddl_dbs\<close>)

lemma run_stmts_dbs:
  "run_stmts v cur ss er = Some (e', r) \<Longrightarrow> dbs e' \<subseteq> dbs (fst er) \<union> \<Union> (created ` set ss)"
proof (induction ss arbitrary: cur er)
  case (Cons s ss)
  obtain e res where er: "er = (e, res)" by (cases er)
  obtain e1 r1 where s: "exec_stmt v (batch_db cur s) s e = Some (e1, r1)"
    "run_stmts v (batch_db cur s) ss (bump_if_ok (e1, r1)) = Some (e', r)"
    using Cons.prems by (auto simp: er bind_eq_Some_conv)
  have "dbs (fst (bump_if_ok (e1, r1))) = dbs e1" by (simp add: bump_if_ok_def split: query_result.split)
  then show ?case using Cons.IH [OF s(2)] exec_stmt_dbs [OF s(1)] by (auto simp: er)
qed (cases er, auto)

section \<open>A restore\<close>

definition parses :: "env \<Rightarrow> string set \<Rightarrow> stmt list set" where
  "parses v texts = {ss. \<exists>sql\<in>texts. env_parse v sql = Inr ss}"

definition creates :: "env \<Rightarrow> string set \<Rightarrow> string set" where
  "creates v texts = {n. \<exists>ss\<in>parses v texts. StCreateDatabase n \<in> set ss}"

definition cache_from :: "env \<Rightarrow> string set \<Rightarrow> stmt_cache \<Rightarrow> bool" where
  "cache_from v texts c \<longleftrightarrow> snd ` set c \<subseteq> parses v texts"

lemma parse_cached_from:
  assumes "cache_from v texts c" "sql \<in> texts" "parse_cached v sql c = (c', res)"
  shows "cache_from v texts c'" "res = Inr ss \<Longrightarrow> ss \<in> parses v texts"
proof -
  have "cache_from v texts c' \<and> (\<forall>ss. res = Inr ss \<longrightarrow> ss \<in> parses v texts)"
  proof (cases "map_of c (sql_key v sql)")
    case (Some ss')
    then have "ss' \<in> snd ` set c" by (force dest: map_of_SomeD)
    then show ?thesis using assms Some by (auto simp: parse_cached_eq cache_from_def)
  next
    case None
    have "ss \<in> parses v texts" if "env_parse v sql = Inr ss" for ss
      using that assms(2) by (auto simp: parses_def)
    then show ?thesis
      using assms None
      by (cases "env_parse v sql") (auto simp: parse_cached_eq cache_from_def image_subset_iff split: if_splits)
  qed
  then show "cache_from v texts c'" "res = Inr ss \<Longrightarrow> ss \<in> parses v texts" by blast+
qed

lemma created_iff: "n \<in> created s \<longleftrightarrow> s = StCreateDatabase n"
  by (cases s) (auto simp: created_def)

lemma execute_dbs:
  assumes "execute v sql cur user ce = Some (ce', r)" "cache_from v texts (fst ce)" "sql \<in> texts"
  shows "dbs (snd ce') \<subseteq> dbs (snd ce) \<union> creates v texts \<and> cache_from v texts (fst ce')"
proof (cases "builtin v cur sql (snd ce)")
  case (Some st)
  then show ?thesis using assms by (auto simp: execute_def dbs_def dest!: builtin_databases)
next
  case None
  obtain c res where p: "parse_cached v sql (fst ce) = (c, res)" by fastforce
  note from_texts = parse_cached_from [OF assms(2,3) p]
  show ?thesis
  proof (cases res)
    case (Inr ss)
    have "ss \<in> parses v texts" using from_texts(2) Inr by blast
    then have new: "\<Union> (created ` set ss) \<subseteq> creates v texts"
      by (fastforce simp: creates_def created_iff)
    obtain e' where ce': "ce' = (c, e')" and run: "checked user cur ss (\<lambda>e. run_stmts v cur ss (e, q_ok 0 0)) (snd ce) = Some (e', r)"
      using assms(1) None p Inr by (auto simp: execute_def)
    from run have "e' = snd ce \<or> run_stmts v cur ss (snd ce, q_ok 0 0) = Some (e', r)"
      by (auto simp: checked_def split: option.splits)
    then show ?thesis using run_stmts_dbs [of v cur ss] new from_texts(1) ce' by fastforce
  qed (use assms(1) None p from_texts(1) in \<open>auto simp: execute_def\<close>)
qed

lemma restore_lines_dbs:
  assumes "restore_lines v ls (cur, batch, ce) = Some (cur', batch', ce')"
    and "set (batches ls batch) \<subseteq> texts" "cache_from v texts (fst ce)"
  shows "dbs (snd ce') \<subseteq> dbs (snd ce) \<union> creates v texts"
  using assms
proof (induction ls arbitrary: cur batch ce)
  case (Cons raw ls)
  obtain cur1 batch1 ce1 where l: "restore_line v raw (cur, batch, ce) = Some (cur1, batch1, ce1)"
    and ls: "restore_lines v ls (cur1, batch1, ce1) = Some (cur', batch', ce')"
    using Cons.prems(1) by (auto simp: bind_eq_Some_conv)
  note ih = Cons.IH [OF ls]
  let ?line = "trim raw"
  let ?sql = "trim (batch @ ?line @ '' '')"
  show ?case
  proof (cases "starts_with ''--'' ?line \<or> ?line = [] \<or> \<not> ends_with '';'' ?line \<or> starts_with ''USE '' (to_upper ?sql)")
    case True
    then have "ce1 = ce \<and> set (batches ls batch1) \<subseteq> set (batches (raw # ls) batch)"
      using l by (auto simp: restore_line_def Let_def split: if_splits)
    then show ?thesis using ih Cons.prems(2,3) by auto
  next
    case False
    then obtain r where r: "execute v ?sql cur ''root'' ce = Some (ce1, r)" "batch1 = []"
      using l by (auto simp: restore_line_def Let_def split: if_splits)
    moreover have "batches (raw # ls) batch = ?sql # batches ls []" using False by (simp add: Let_def)
    ultimately show ?thesis
      using execute_dbs [OF r(1) Cons.prems(3)] ih Cons.prems(2) by auto
  qed
qed simp

lemma restore_dbs:
  assumes "restore_sql v dump ([], e) = Some ce'"
  shows "dbs (snd ce') \<subseteq> dbs e \<union> creates v (set (batches (lines dump) []))"
proof -
  obtain cur' batch' where "restore_lines v (lines dump) (None, [], [], e) = Some (cur', batch', ce')"
    using assms by (auto simp: restore_sql_def)
  from restore_lines_dbs [OF this subset_refl] show ?thesis by (simp add: cache_from_def)
qed

section \<open>A start\<close>

lemma new_engine_dbs: "dbs (new_engine sha1 pw) = set builtin_schemas"
  by (auto simp: dbs_def new_engine_def split: if_splits)

lemma start_dbs:
  assumes "start_engine v cfg fs = Some ce'" "fs (dump_path cfg) = Some (Some dump)"
  shows "dbs (snd ce') \<subseteq> set builtin_schemas \<union> creates v (set (batches (lines dump) []))"
  using assms restore_dbs [of v dump "new_engine (env_sha1 v) (root_password (auth cfg))" ce']
  by (simp add: start_engine_def new_engine_dbs)

text \<open>What the parser reads in the statements of a dump, and what the crate hex writes: CREATE DATABASE of a
  quoted name gives the name with its quotes (of a word in two pairs of quotes, an error), the other
  statements give no CREATE DATABASE.\<close>

definition reads_dumps :: "env \<Rightarrow> query crates \<Rightarrow> bool" where
  "reads_dumps v x \<longleftrightarrow>
     (\<forall>n. plain_name n \<longrightarrow>
        creates v {statement_text [create_database_line n]} \<subseteq> range in_backticks \<and>
        creates v {statement_text [use_line n]} = {}) \<and>
     (\<forall>t tab. plain_table t tab \<longrightarrow> creates v (set (table_texts x t tab)) = {})"

definition parser_laws :: "env set \<Rightarrow> bool" where
  "parser_laws V \<longleftrightarrow> (\<forall>v\<in>V. hex_digits (env_crates v) \<and> (\<forall>v'\<in>V. reads_dumps v (env_crates v')))"

lemma creates_Un: "creates v (A \<union> B) = creates v A \<union> creates v B"
  by (auto simp: creates_def parses_def)

lemma creates_empty: "creates v {} = {}"
  by (simp add: creates_def parses_def)

lemma creates_Union: "creates v (\<Union> (f ` S)) = (\<Union>a\<in>S. creates v (f a))"
  by (auto simp: creates_def parses_def)

lemma database_texts_create:
  assumes "reads_dumps v x" "plain_name n" "\<And>t tab. tables d t = Some tab \<Longrightarrow> plain_table t tab"
  shows "creates v (set (database_texts x iter n d)) \<subseteq> range in_backticks"
proof -
  have "creates v (set (case tables d t of Some tab \<Rightarrow> table_texts x t tab | None \<Rightarrow> [])) = {}" for t
  proof (cases "tables d t")
    case (Some tab)
    then show ?thesis using assms(1) assms(3) [OF Some] by (simp add: reads_dumps_def)
  qed (simp add: creates_empty)
  then have "creates v (set (concat (map (\<lambda>t. case tables d t of Some tab \<Rightarrow> table_texts x t tab | None \<Rightarrow> []) ts))) = {}" for ts
    by (simp add: creates_Union)
  moreover have "set (database_texts x iter n d) = {statement_text [create_database_line n]} \<union> {statement_text [use_line n]} \<union>
      set (concat (map (\<lambda>t. case tables d t of Some tab \<Rightarrow> table_texts x t tab | None \<Rightarrow> []) (iter (dom (tables d)))))"
    by (simp only: database_texts_def set_append list.set Un_insert_left Un_empty_left Un_assoc)
  ultimately show ?thesis using assms(1,2) by (simp only: creates_Un) (simp add: reads_dumps_def)
qed

text \<open>So a restore of the dump of a plain engine makes no database under a name without backticks.\<close>

lemma plain_dump_creates:
  assumes "reads_dumps v (env_crates v')" "hex_digits (env_crates v')" "plain_engine e"
  shows "creates v (set (batches (lines (dump_sql v' e)) [])) \<subseteq> range in_backticks"
proof -
  let ?f = "\<lambda>n. if n \<in> set builtin_schemas then []
      else case databases e n of Some d \<Rightarrow> database_texts (env_crates v') (env_walk v') n d | None \<Rightarrow> []"
  have "creates v (set (?f n)) \<subseteq> range in_backticks" for n
  proof (cases "n \<in> set builtin_schemas \<or> databases e n = None")
    case False
    then obtain d where d: "databases e n = Some d" "n \<notin> set builtin_schemas" by blast
    then have "plain_name n" "\<And>t tab. tables d t = Some tab \<Longrightarrow> plain_table t tab"
      using assms(3) by (simp_all add: plain_engine_def)
    from database_texts_create [OF assms(1) this] show ?thesis using d by simp
  qed (auto simp: creates_empty)
  then show ?thesis
    unfolding plain_dump_statements [OF assms(3,2)] unfolding dump_texts_def set_concat set_map creates_Union image_image by blast
qed

lemma start_loses:
  assumes "start_engine v cfg fs = Some ce'" "fs (dump_path cfg) = Some (Some (dump_sql v' e))"
    and "reads_dumps v (env_crates v')" "hex_digits (env_crates v')" "plain_engine e"
    and "n \<notin> set builtin_schemas" "backtick \<notin> set n"
  shows "databases (snd ce') n = None"
proof -
  have "n \<noteq> in_backticks m" for m using assms(7) by (auto simp: in_backticks_def)
  then have "n \<notin> creates v (set (batches (lines (dump_sql v' e)) []))" using plain_dump_creates [OF assms(3-5)] by auto
  then show ?thesis using start_dbs [OF assms(1,2)] assms(6) by (auto simp: dbs_def domIff)
qed

end
