(* ===== verification/Session_Laws.thy ===== *)
theory Session_Laws
  imports Session Exec_Laws
begin

text \<open>
  What the session keeps and promises: the bytes it sends are those of the result writers, the
  splitting of the input into reads does not matter, who passes the handshake, what the cache of
  the last result answers, that ROLLBACK puts the tables back, and what the statement cache and
  the privilege check guarantee.
\<close>

section \<open>Bytes\<close>

lemma select_1_bytes: "SELECT_1_RESPONSE = build_result_into x [] (QRows [''1''] [[Some ''1'']]) 1"
  by (simp add: SELECT_1_RESPONSE_def build_result_into_def row_frames result_packets_def encode_packet_def
      len24_def column_def_packet_def put_lenenc_str_def put_lenenc_def le16_def le32_def eof_packet_def
      text_row_def text_cell_def as_bytes_def)

lemma send_each_frames: "send_each enc as seq = (frames seq (map enc as), seq + of_nat (length as))"
  by (induction as arbitrary: seq) (simp_all add: algebra_simps)

lemma send_rows_frames: "send_rows enc cols rs seq = frames seq (result_packets enc cols rs)"
  by (simp add: send_rows_def send_each_frames result_packets_def frames_append algebra_simps)

lemma send_result_writes:
  "send_result x r seq = build_result_into x [] r seq"
  "send_result_binary x r seq = build_binary_result_into x [] r seq"
  by (simp_all add: send_result_def send_result_binary_def build_result_into_def build_binary_result_into_def
      send_rows_frames row_frames write_packet_frame split: query_result.split)

section \<open>The packets of a stream\<close>

lemma u24_prefix: "3 \<le> length a \<Longrightarrow> u24_le (take 3 (a @ b)) = u24_le (take 3 a)"
  by simp

lemma decode_packet_append:
  assumes "decode_packet a = Some (p, s, rest)"
  shows "decode_packet (a @ b) = Some (p, s, rest @ b)"
proof -
  have "4 \<le> length a" "4 + unat (u24_le (take 3 a)) \<le> length a"
    using assms by (auto simp: decode_packet_def Let_def split: if_splits)
  then show ?thesis using assms by (auto simp: decode_packet_def Let_def nth_append)
qed

lemma serve_append:
  "serve v (a @ b) sce =
     (case serve v a sce of
        Some (Waiting sce' rest, out) \<Rightarrow> map_option (\<lambda>(st, outs). (st, out @ outs)) (serve v (rest @ b) sce')
      | r \<Rightarrow> r)"
proof (induction v a sce rule: serve.induct)
  case (1 v a sce)
  show ?case
  proof (cases "decode_packet a")
    case None
    then show ?thesis by (simp add: serve.simps [of v a] option.map_id split: prod.split)
  next
    case (Some psr)
    obtain p s rest where psr: "psr = (p, s, rest)" by (cases psr)
    note d = Some [unfolded psr] decode_packet_append [OF Some [unfolded psr], of b]
    show ?thesis
    proof (cases "handle_command v p sce")
      case (Some rx)
      show ?thesis
      proof (cases rx)
        case (Continue sce' out)
        then have "serve v (rest @ b) sce' = (case serve v rest sce' of
            Some (Waiting sce' rest, out) \<Rightarrow> map_option (\<lambda>(st, outs). (st, out @ outs)) (serve v (rest @ b) sce')
          | r \<Rightarrow> r)"
          using "1.IH" [OF d(1) refl refl Some Continue] by simp
        then show ?thesis
          using d Some Continue
          by (auto simp: serve.simps [of v a] serve.simps [of v "a @ b"] option.map_comp comp_def
              case_prod_unfold split: option.split served.split prod.split)
      qed (use d Some in \<open>simp add: serve.simps [of v a] serve.simps [of v "a @ b"]\<close>)
    qed (use d in \<open>simp add: serve.simps [of v a] serve.simps [of v "a @ b"]\<close>)
  qed
qed

lemma loop_outs:
  "command_loop v rs (st, out @ o1) = map_option (\<lambda>(st', o'). (st', out @ o')) (command_loop v rs (st, o1))"
proof (induction rs arbitrary: st o1)
  case (Cons r rs)
  show ?case
  proof (cases st)
    case (Waiting sce buf)
    show ?thesis
    proof (cases "serve v (buf @ r) sce")
      case (Some sto)
      then show ?thesis using Cons.IH [of "fst sto" "o1 @ snd sto"] Waiting by (cases sto) simp
    qed (use Waiting in simp)
  qed simp
qed simp

text \<open>The split of the input into reads does not matter.\<close>

lemma session_reads:
  assumes "\<forall>r\<in>set rs. r \<noteq> []"
  shows "run_session v a rs sce = serve v (a @ concat rs) sce"
  using assms
proof (induction rs arbitrary: a sce)
  case Nil
  show ?case by (cases "serve v a sce") (auto simp: run_session_def)
next
  case (Cons r rs)
  show ?case
  proof (cases "serve v a sce")
    case None
    then show ?thesis by (simp add: run_session_def serve_append)
  next
    case (Some sto)
    obtain st out where sto: "sto = (st, out)" by (cases sto)
    show ?thesis
    proof (cases st)
      case (Hungup ce)
      then show ?thesis using Some sto by (simp add: run_session_def serve_append)
    next
      case (Waiting sce' buf)
      have "run_session v (buf @ r) rs sce' = serve v (buf @ r @ concat rs) sce'"
        using Cons by simp
      moreover have "command_loop v (r # rs) (st, out) = map_option (\<lambda>(st', o'). (st', out @ o'))
          (run_session v (buf @ r) rs sce')"
        using Cons.prems Waiting loop_outs [of v rs _ out]
        by (cases "serve v (buf @ r) sce'") (auto simp: run_session_def split: prod.split)
      ultimately show ?thesis
        using Some sto Waiting by (simp add: run_session_def serve_append)
    qed
  qed
qed

section \<open>The handshake\<close>

text \<open>A session is opened for an account only on a response the check of its hash accepts ...\<close>

lemma accepted_response:
  assumes "handshake_payload sha1 pw scramble p e = HsAccept user db" "users e user = Some d"
  shows "33 \<le> length p \<and> (\<exists>response. verify_native_password_hash sha1 (password_sha1_sha1 d) scramble response)"
  using assms
  by (auto simp: handshake_payload_def auth_ok_def lookup_user_def Let_def split: if_splits)

text \<open>... but a packet of fewer than 33 bytes opens a session as root with no check.\<close>

lemma short_packet_opens:
  "length p < 33 \<Longrightarrow> open_session sha1 pw scramble p rest reads ce = Opened (new_session ''root'' None, ce) [] rest reads"
  by (simp add: open_session_def handshake_payload_def)

text \<open>The response packet of a client: 32 bytes, the name, the length and the response.\<close>

definition client_response :: "u8 list \<Rightarrow> string \<Rightarrow> u8 list \<Rightarrow> u8 list" where
  "client_response header user response = header @ as_bytes user @ [0] @ [of_nat (length response)] @ response"

lemma position_append:
  "(\<forall>a\<in>set as. \<not> p a) \<Longrightarrow> p b \<Longrightarrow> position p (as @ b # bs) = Some (length as)"
  by (induction as) simp_all

lemma client_accepted:
  assumes "digest20 sha1" "length header = 32" "get32 (header ! 0) (header ! 1) (header ! 2) (header ! 3) AND push_bit 3 1 = 0"
    and "0 \<notin> set (as_bytes user)" "trim_char backtick user = user" "user \<noteq> []"
    and "users e user = Some d" "password_sha1_sha1 d = double_sha1 sha1 (as_bytes pw)"
  shows "handshake_payload sha1 root_pw scramble
      (client_response header user (native_response sha1 (sha1 (as_bytes pw)) scramble)) e = HsAccept user None"
proof -
  let ?resp = "native_response sha1 (sha1 (as_bytes pw)) scramble"
  have len: "length ?resp = 20" using assms(1) by simp
  then have ne: "?resp \<noteq> []" by auto
  have "verify_native_password sha1 pw scramble ?resp" by (simp add: verify_password_iff [OF assms(1) ne])
  then have ok: "auth_ok sha1 root_pw scramble user ?resp e"
    using verify_password_hash [OF assms(1) ne] assms(7,8) by (simp add: auth_ok_def lookup_user_def)
  have hd: "(header @ q) ! i = header ! i" if "i < 4" for q i using that assms(2) by (simp add: nth_append)
  have "position (\<lambda>b. b = 0) (as_bytes user @ 0 # of_nat (length ?resp) # ?resp) = Some (length (as_bytes user))"
    using assms(4) by (intro position_append) auto
  moreover have "auth_response (of_nat (length ?resp) # ?resp) = ?resp"
    using len by (simp add: auth_response_def)
  moreover have "handshake_db (get32 (header ! 0) (header ! 1) (header ! 2) (header ! 3)) q = None" for q
    using assms(3) by (simp add: handshake_db_def)
  ultimately show ?thesis
    using assms(2,5,6) ok hd [of 0] hd [of 1] hd [of 2] hd [of 3] len
    by (simp add: handshake_payload_def client_response_def)
qed

text \<open>A buffer that holds a part of a packet is looked at for ever.\<close>

lemma handshake_stuck:
  assumes "buf \<noteq> []" "decode_packet buf = None"
  shows "handshake_loop sha1 pw scramble buf reads ce = None"
proof -
  have "buf \<noteq> buf" if "handshake_loop sha1 pw scramble buf reads ce = Some v" for v
    by (rule handshake_loop.raw_induct [where P = "\<lambda>_ _ _ b _ _ v. b \<noteq> buf", OF _ that])
      (use assms in \<open>auto split: if_splits, blast\<close>)
  then show ?thesis by (metis not_None_eq)
qed

lemma handshake_whole:
  "buf \<noteq> [] \<Longrightarrow> decode_packet buf = Some (p, s, rest) \<Longrightarrow>
   handshake_loop sha1 pw scramble buf reads ce = Some (open_session sha1 pw scramble p rest reads ce)"
  by (subst handshake_loop.simps) simp

text \<open>The loop ends exactly when it finds a whole packet in what one read delivers, or an end of stream.\<close>

lemma handshake_returns_iff:
  "handshake_loop sha1 pw scramble buf reads ce \<noteq> None \<longleftrightarrow>
   (case (buf, reads) of
      ([], []) \<Rightarrow> True
    | ([], r # _) \<Rightarrow> r = [] \<or> decode_packet r \<noteq> None
    | (b, _) \<Rightarrow> decode_packet b \<noteq> None)"
proof -
  have data: "handshake_loop sha1 pw scramble b rs ce \<noteq> None \<longleftrightarrow> decode_packet b \<noteq> None" if "b \<noteq> []" for b rs
    using handshake_stuck [OF that] handshake_whole [OF that] by (metis not_None_eq prod_cases3)
  show ?thesis
  proof (cases buf)
    case Nil
    then show ?thesis using data by (subst handshake_loop.simps) (auto split: list.split)
  qed (use data in auto)
qed

section \<open>The cache of the last result\<close>

text \<open>A statement that goes to the engine: neither \<open>SELECT 1\<close>, nor USE, nor transaction control.\<close>

definition plain_text :: "string \<Rightarrow> bool" where
  "plain_text sql \<longleftrightarrow> \<not> is_select_1 sql \<and> \<not> starts_with ''USE '' (to_upper (trim sql)) \<and>
     txn_text sql \<notin> {''BEGIN'', ''START TRANSACTION'', ''COMMIT'', ''ROLLBACK''}"

lemma plain_query: "plain_text sql \<Longrightarrow> handle_query v sql (s, ce) = run_sql v sql (s, ce)"
  by (cases ce) (auto simp: plain_text_def handle_query_def use_database_def Let_def)

lemma l0_stored: "l0_lookup v sql (l0_store v sql out e s) e = Some out"
  by (simp add: l0_lookup_def l0_store_def)

lemma repeated_query:
  assumes "plain_text sql" "l0_lookup v sql s (snd ce) = None"
    and "execute v sql (current_db s) (effective_user s) ce = Some (ce1, r)" "\<not> is_err r"
  shows "\<exists>s1 out. handle_query v sql (s, ce) = Some (Continue (s1, ce1) out) \<and>
    handle_query v sql (s1, ce1) = Some (Continue (s1, ce1) out)"
  using assms l0_stored [of v sql _ "snd ce1" s]
  by (auto simp: plain_query run_sql_def Let_def)

lemma cached_gen: "l0_lookup v sql s e = Some out \<Longrightarrow> l0_gen s = write_gen e"
  by (simp add: l0_lookup_def split: if_splits)

text \<open>After a statement of any session that was parsed and answered OK, no session is answered from its
  cache ...\<close>

lemma ok_invalidates:
  assumes "l0_lookup v sql s (snd ce) = Some out"
    and "builtin v' cur sql' (snd ce) = None" "snd (parse_cached v' sql' (fst ce)) = Inr ss" "ss \<noteq> []" "length ss < 2 ^ 62"
    and "execute v' sql' cur user ce = Some (ce', QOk n i)"
  shows "l0_lookup v'' sql'' s (snd ce') = None"
  using cached_gen [OF assms(1)] ok_moves_gen [OF assms(6,2,3,4,5)] by (auto simp: l0_lookup_def)

text \<open>... but after a prepared INSERT, UPDATE or DELETE it still is.\<close>

lemma prepared_stale:
  assumes "l0_lookup v sql s (snd ce) = Some out" "execute_prepared v sql' params cur user ce = Some (ce', r)"
    and "\<And>ss. snd (parse_cached v sql' (fst ce)) = Inr ss \<Longrightarrow> list_all row_stmt ss"
  shows "l0_lookup v sql s (snd ce') = Some out"
  using assms(1) execute_prepared_gen [OF assms(2,3)] by (simp add: l0_lookup_def)

section \<open>Transactions\<close>

lemma txn_begin:
  assumes "txn_text sql = ''BEGIN''" "\<not> is_select_1 sql" "\<not> starts_with ''USE '' (to_upper (trim sql))"
  shows "handle_query v sql (s, c, e) = Some (Continue (s\<lparr> txn_snapshot := Some (take_snapshot e) \<rparr>, c, e) ok_reply)"
  using assms by (simp add: handle_query_def use_database_def Let_def)

lemma txn_rollback:
  assumes "txn_text sql = ''ROLLBACK''" "\<not> is_select_1 sql" "\<not> starts_with ''USE '' (to_upper (trim sql))"
    and "txn_snapshot s = Some snap"
  shows "handle_query v sql (s, c, e) = Some (Continue (s\<lparr> txn_snapshot := None \<rparr>, c, restore_snapshot snap e) ok_reply)"
  using assms by (simp add: handle_query_def use_database_def Let_def)

lemma begin_text: "txn_text ''BEGIN'' = ''BEGIN''" "\<not> is_select_1 ''BEGIN''" "\<not> starts_with ''USE '' (to_upper (trim ''BEGIN''))"
  by code_simp+

lemma rollback_text: "txn_text ''ROLLBACK'' = ''ROLLBACK''" "\<not> is_select_1 ''ROLLBACK''" "\<not> starts_with ''USE '' (to_upper (trim ''ROLLBACK''))"
  by code_simp+

lemma snapshot_kept:
  assumes "run_sql v sql (s, ce) = Some (Continue (s', ce') out)"
  shows "txn_snapshot s' = txn_snapshot s \<and> prepared s' = prepared s \<and> effective_user s' = effective_user s"
  using assms by (auto simp: run_sql_def l0_store_def Let_def split: option.splits)

section \<open>Prepared statements\<close>

text \<open>The identifiers given out are below the next one, so a new one is free.\<close>

definition prepared_ok :: "session \<Rightarrow> bool" where
  "prepared_ok s \<longleftrightarrow> (\<forall>i. prepared s i \<noteq> None \<longrightarrow> i < next_stmt_id s)"

lemma prepared_ok_new: "prepared_ok (new_session user db)"
  by (simp add: prepared_ok_def new_session_def)

lemma prepare_fresh:
  assumes "prepared_ok s" "next_stmt_id s < - 1" "prepare sql s = (s', out)"
  shows "prepared s (next_stmt_id s) = None \<and>
    prepared s' = (prepared s)(next_stmt_id s \<mapsto> \<lparr> ps_sql = sql, ps_params = count_params sql \<rparr>) \<and> prepared_ok s'"
proof -
  have "next_stmt_id s + 1 \<noteq> 0" using assms(2) by (metis add.commute eq_neg_iff_add_eq_0 less_irrefl)
  then have "unat (next_stmt_id s + 1) = Suc (unat (next_stmt_id s))"
    using unatSuc [of "next_stmt_id s"] by (simp add: add.commute)
  then have up: "i \<le> next_stmt_id s \<Longrightarrow> i < next_stmt_id s + 1" for i
    by (simp add: word_le_nat_alt word_less_nat_alt)
  show ?thesis
  proof (intro conjI)
    show "prepared s (next_stmt_id s) = None" using assms(1) unfolding prepared_ok_def by blast
    show s': "prepared s' = (prepared s)(next_stmt_id s \<mapsto> \<lparr> ps_sql = sql, ps_params = count_params sql \<rparr>)"
      using assms(3) by (auto simp: prepare_def Let_def)
    have "next_stmt_id s' = next_stmt_id s + 1" using assms(3) by (auto simp: prepare_def Let_def)
    then show "prepared_ok s'"
      using assms(1) up unfolding prepared_ok_def s' by (metis fun_upd_apply order.strict_implies_order order_refl)
  qed
qed

lemma prepared_ok_kept:
  assumes "prepared_ok s" "next_stmt_id s < - 1" "handle_command v p (s, ce) = Some (Continue (s', ce') out)"
  shows "prepared_ok s'"
proof (cases "parse_command p")
  case (Query sql)
  have same: "prepared s' = prepared s \<and> next_stmt_id s' = next_stmt_id s"
    using assms(3) Query
    by (cases ce) (auto simp: handle_command_def handle_query_def use_database_def run_sql_def l0_store_def Let_def
        split: if_splits option.splits)
  then show ?thesis using assms(1) by (simp add: prepared_ok_def)
next
  case (StmtPrepare sql)
  then show ?thesis
    using assms prepare_fresh [OF assms(1,2)] by (auto simp: handle_command_def split: prod.splits)
next
  case (StmtExecute i)
  then show ?thesis using assms by (auto simp: handle_command_def run_statement_def split: option.splits)
qed (use assms in \<open>auto simp: handle_command_def prepared_ok_def split: if_splits\<close>)

section \<open>What every session keeps\<close>

text \<open>A property of the engine that statements, ROLLBACK and the handshake keep is kept by every session.\<close>

definition served_server :: "served \<Rightarrow> server" where
  "served_server st = (case st of Hungup ce \<Rightarrow> ce | Waiting sce _ \<Rightarrow> snd sce)"

locale engine_invariant =
  fixes P :: "engine \<Rightarrow> bool"
  assumes statement: "P (snd ce) \<Longrightarrow> execute v sql cur user ce = Some (ce', r) \<Longrightarrow> P (snd ce')"
    and prepared_statement: "P (snd ce) \<Longrightarrow> execute_prepared v sql params cur user ce = Some (ce', r) \<Longrightarrow> P (snd ce')"
    and rollback: "P e \<Longrightarrow> P (restore_snapshot snap e)"
    and database_there: "P e \<Longrightarrow> P (ensure_database n e)"
begin

lemma statements:
  "P e \<Longrightarrow> execute v sql cur user (c, e) = Some ((c', e'), r) \<Longrightarrow> P e'"
  "P e \<Longrightarrow> execute_prepared v sql params cur user (c, e) = Some ((c', e'), r) \<Longrightarrow> P e'"
  using statement [of "(c, e)" v sql cur user "(c', e')"]
    prepared_statement [of "(c, e)" v sql params cur user "(c', e')"] by simp_all

lemma handled:
  assumes "P (snd ce)" "handle_command v p (s, ce) = Some (Continue (s', ce') out)"
  shows "P (snd ce')"
proof (cases "parse_command p")
  case (Query sql)
  then show ?thesis
    using assms
    by (cases ce) (auto simp: handle_command_def handle_query_def run_sql_def Let_def rollback
        split: if_splits option.splits dest: statements)
next
  case (StmtExecute i)
  then show ?thesis
    using assms by (cases ce) (auto simp: handle_command_def run_statement_def split: option.splits dest: statements)
qed (use assms in \<open>auto simp: handle_command_def split: prod.splits\<close>)

lemma served: "P (snd (snd sce)) \<Longrightarrow> serve v buf sce = Some (st, out) \<Longrightarrow> P (snd (served_server st))"
proof (induction v buf sce arbitrary: st out rule: serve.induct)
  case (1 v buf sce)
  show ?case
  proof (cases "decode_packet buf")
    case None
    then show ?thesis using "1.prems" by (auto simp: serve.simps [of v buf] served_server_def)
  next
    case (Some psr)
    obtain p s rest where d: "decode_packet buf = Some (p, s, rest)" using Some by (cases psr) simp
    obtain rx where rx: "handle_command v p sce = Some rx"
      using "1.prems"(2) d by (auto simp: serve.simps [of v buf] split: option.splits)
    show ?thesis
    proof (cases rx)
      case Hangup
      then show ?thesis using "1.prems" d rx by (auto simp: serve.simps [of v buf] served_server_def)
    next
      case (Continue sce' o1)
      obtain s0 ce s1 ce1 where [simp]: "sce = (s0, ce)" "sce' = (s1, ce1)" by (cases sce, cases sce')
      have "P (snd ce1)" using handled [of ce v p s0 s1 ce1 o1] "1.prems"(1) rx Continue by simp
      moreover obtain o2 where "serve v rest sce' = Some (st, o2)"
        using "1.prems"(2) d rx Continue by (auto simp: serve.simps [of v buf])
      ultimately show ?thesis using "1.IH" [OF d refl refl rx Continue] by simp
    qed
  qed
qed

lemma opened:
  assumes "P (snd ce)" "open_session sha1 pw scramble p rest reads ce = Opened (s, ce') out rest' reads'"
  shows "P (snd ce')"
  using assms by (auto simp: open_session_def database_there split: handshake.splits option.splits)

end

sublocale account_invariant \<subseteq> engine_invariant P
proof unfold_locales
  show "P (restore_snapshot snap e)" if "P e" for snap e
    using that users_only [of "restore_snapshot snap e" e] by (simp add: restore_snapshot_def bump_write_gen_def)
  show "P (ensure_database n e)" if "P e" for n e
    using that users_only [of "ensure_database n e" e] by (simp add: ensure_database_def create_database_def split: option.split)
qed (erule executed, assumption, erule executed_prepared, assumption)

section \<open>Every command is answered\<close>

text \<open>A reply is one packet or more, numbered from 1. The cached answer of a session is one.\<close>

definition is_reply :: "u8 list \<Rightarrow> bool" where
  "is_reply out \<longleftrightarrow> (\<exists>p ps. out = frames 1 (p # ps))"

definition l0_ok :: "session \<Rightarrow> bool" where
  "l0_ok s \<longleftrightarrow> pred_option is_reply (l0_bytes s)"

lemma l0_ok_new: "l0_ok (new_session user db)"
  by (simp add: l0_ok_def new_session_def)

lemma packet_reply: "is_reply (encode_packet p 1)"
  unfolding is_reply_def by (intro exI [of _ p] exI [of _ "[]"]) simp

lemma frames_reply: "is_reply (encode_packet p 1 @ frames 2 ps)"
  unfolding is_reply_def by (intro exI [of _ p] exI [of _ ps]) simp

lemma result_reply: "is_reply (build_result_into x [] r 1)" "is_reply (build_binary_result_into x [] r 1)"
  by (auto simp: build_result_into_def build_binary_result_into_def build_value_result_into_def row_frames write_packet_frame
      packet_reply frames_reply result_packets_def split: query_result.split)

lemma prepare_reply:
  assumes "prepare sql s = (s', out)"
  shows "is_reply out \<and> l0_bytes s' = l0_bytes s"
proof -
  let ?n = "count_params sql"
  have "out = frames 1 (stmt_prepare_ok (next_stmt_id s) ?n 0 #
      (if ?n = 0 then [] else replicate (unat ?n) (column_def_packet [] [] ''?'' 0xfd 0) @ [eof_packet]))"
    "l0_bytes s' = l0_bytes s"
    using assms by (auto simp: prepare_def Let_def)
  then show ?thesis by (simp add: packet_reply frames_reply)
qed

lemmas fixed_replies = packet_reply [of "ok_packet 0 0", folded ok_reply_def]
  packet_reply [of "err_packet 1243 ''Unknown prepared statement handler''", folded unknown_stmt_def]

lemma run_sql_reply:
  assumes "l0_ok s" "run_sql v sql (s, ce) = Some rx"
  shows "\<exists>s' ce' out. rx = Continue (s', ce') out \<and> is_reply out \<and> l0_ok s'"
  using assms result_reply(1)
  by (auto simp: run_sql_def l0_lookup_def l0_store_def l0_ok_def Let_def split: option.splits if_splits)

lemma use_database_ok [simp]: "l0_ok (use_database sql s) = l0_ok s"
  by (simp add: use_database_def l0_ok_def Let_def)

lemma query_reply:
  assumes "l0_ok s" "handle_query v sql (s, ce) = Some rx"
  shows "\<exists>s' ce' out. rx = Continue (s', ce') out \<and> is_reply out \<and> l0_ok s'"
proof (cases "is_select_1 sql")
  case True
  have "is_reply SELECT_1_RESPONSE" by (subst select_1_bytes [of undefined]) (rule result_reply(1))
  then show ?thesis using True assms by (auto simp: handle_query_def)
next
  case False
  have up: "l0_ok (s'\<lparr> txn_snapshot := t \<rparr>) = l0_ok s'" for s' t by (simp add: l0_ok_def)
  obtain c e where [simp]: "ce = (c, e)" by (cases ce)
  show ?thesis
    using assms False run_sql_reply [of "use_database sql s" v sql "(c, e)" rx]
    by (simp add: handle_query_def Let_def split: if_splits) (auto simp: up fixed_replies)
qed

text \<open>Every command but STMT_CLOSE, which the protocol leaves unanswered, is answered.\<close>

definition answers :: "u8 list \<Rightarrow> u8 list \<Rightarrow> bool" where
  "answers p out \<longleftrightarrow> (case parse_command p of StmtClose _ \<Rightarrow> out = [] | _ \<Rightarrow> is_reply out)"

lemma command_answered:
  assumes "l0_ok s" "handle_command v p (s, ce) = Some rx" "parse_command p \<noteq> Quit"
  shows "\<exists>s' ce' out. rx = Continue (s', ce') out \<and> answers p out \<and> l0_ok s'"
proof (cases "parse_command p")
  case (Query sql)
  then show ?thesis using assms query_reply [of s v sql ce] by (auto simp: handle_command_def answers_def)
next
  case (StmtPrepare sql)
  then show ?thesis
    using assms prepare_reply [of sql s] by (auto simp: handle_command_def answers_def l0_ok_def split: prod.splits)
next
  case (StmtExecute i)
  then show ?thesis
    using assms result_reply(2)
    by (auto simp: handle_command_def run_statement_def answers_def fixed_replies split: option.splits)
qed (use assms in \<open>auto simp: handle_command_def answers_def l0_ok_def fixed_replies packet_reply\<close>)

text \<open>The packets one after the other; which commands run a statement, and so may panic.\<close>

definition sent :: "u8 list list \<Rightarrow> u8 list" where
  "sent ps = concat (map (\<lambda>p. encode_packet p 0) ps)"

definition runs_statement :: "u8 list \<Rightarrow> bool" where
  "runs_statement p \<longleftrightarrow> (case parse_command p of command.Query _ \<Rightarrow> True | StmtExecute _ \<Rightarrow> True | _ \<Rightarrow> False)"

lemma panics_in_statement: "handle_command v p sce = None \<Longrightarrow> runs_statement p"
  by (cases "parse_command p") (auto simp: handle_command_def runs_statement_def split: prod.splits)

lemma serve_command:
  assumes "length p < 2 ^ 24"
  shows "serve v (encode_packet p 0 @ rest) sce =
    (case handle_command v p sce of
       None \<Rightarrow> None
     | Some Hangup \<Rightarrow> Some (Hungup (snd sce), [])
     | Some (Continue sce' out) \<Rightarrow> map_option (\<lambda>(st, outs). (st, out @ outs)) (serve v rest sce'))"
  using assms by (simp add: serve.simps [of v "_ @ _"] decode_encode_packet)

definition all_answered :: "env \<Rightarrow> u8 list list \<Rightarrow> conn \<Rightarrow> conn \<Rightarrow> bool" where
  "all_answered v ps sce sce' \<longleftrightarrow>
     (\<exists>outs. serve v (sent ps) sce = Some (Waiting sce' [], concat outs) \<and> list_all2 answers ps outs)"

lemma none_answered: "all_answered v [] sce sce"
  by (auto simp: all_answered_def sent_def serve.simps [of v "[]"] decode_packet_def)

lemma serve_answered:
  assumes "\<forall>p\<in>set ps. length p < 2 ^ 24 \<and> parse_command p \<noteq> Quit" "l0_ok (fst sce)"
  shows "(\<exists>sce'. all_answered v ps sce sce') \<or>
    (\<exists>ps1 p ps2 sce'. ps = ps1 @ p # ps2 \<and> all_answered v ps1 sce sce' \<and>
       runs_statement p \<and> handle_command v p sce' = None \<and> serve v (sent ps) sce = None)"
  using assms
proof (induction ps arbitrary: sce)
  case Nil
  then show ?case using none_answered by blast
next
  case (Cons p ps)
  have len: "length p < 2 ^ 24" using Cons.prems(1) by simp
  note step = serve_command [OF len, of v _ sce]
  have cons: "sent (q # qs) = encode_packet q 0 @ sent qs" for q qs by (simp add: sent_def)
  show ?case
  proof (cases "handle_command v p sce")
    case None
    then show ?thesis
      using none_answered panics_in_statement [OF None] step
      by (intro disjI2 exI [of _ "[]"] exI [of _ p] exI [of _ ps] exI [of _ sce]) (simp add: cons)
  next
    case (Some rx)
    obtain sce1 o1 where rx: "rx = Continue sce1 o1" "answers p o1" "l0_ok (fst sce1)"
      using command_answered [of "fst sce" v p "snd sce" rx] Cons.prems Some by auto
    have add: "all_answered v (p # qs) sce sce'" if answered: "all_answered v qs sce1 sce'" for qs sce'
    proof -
      obtain outs where "serve v (sent qs) sce1 = Some (Waiting sce' [], concat outs)" "list_all2 answers qs outs"
        using answered by (auto simp: all_answered_def)
      then show ?thesis
        using Some rx step by (auto simp: all_answered_def cons intro!: exI [of _ "o1 # outs"])
    qed
    have "(\<exists>sce'. all_answered v ps sce1 sce') \<or>
      (\<exists>ps1 q ps2 sce'. ps = ps1 @ q # ps2 \<and> all_answered v ps1 sce1 sce' \<and>
         runs_statement q \<and> handle_command v q sce' = None \<and> serve v (sent ps) sce1 = None)"
      using Cons.prems(1) rx(3) by (intro Cons.IH) auto
    then show ?thesis
    proof (elim disjE exE conjE)
      fix sce' assume "all_answered v ps sce1 sce'"
      then show ?thesis using add by blast
    next
      fix ps1 q ps2 sce'
      assume "ps = ps1 @ q # ps2" "all_answered v ps1 sce1 sce'" "runs_statement q" "handle_command v q sce' = None"
        "serve v (sent ps) sce1 = None"
      then show ?thesis
        using add Some rx(1) step
        by (intro disjI2 exI [of _ "p # ps1"] exI [of _ q] exI [of _ ps2] exI [of _ sce']) (simp add: cons)
    qed
  qed
qed

end
