(* ===== verification/Webui_Laws.thy ===== *)
theory Webui_Laws
  imports Webui Session_Laws
begin

text \<open>
  What the admin interface guarantees: a request reaches the engine only with the cookie of a live
  session and runs as its user; a session is made only by a login the check accepts; the cookie of
  a login is read back and lets its requests through until it expires. An account that is dropped
  while it has a session is not restricted any more.
\<close>

section \<open>Sessions\<close>

lemma session_user_Some:
  "session_user now t ss = (ss', Some u) \<longleftrightarrow>
   ss' = ss \<and> (\<exists>s. ss t = Some s \<and> now < ws_expires s \<and> ws_username s = u)"
  by (auto simp: session_user_def split: option.split)

lemma session_user_kept:
  "session_user now t ss = (ss', u) \<Longrightarrow> ss' t' = Some s \<Longrightarrow> ss t' = Some s"
  by (auto simp: session_user_def split: option.splits if_splits)

text \<open>The user of a request, and what the lookup leaves of the sessions.\<close>

definition live_user :: "nat \<Rightarrow> string \<Rightarrow> web_sessions \<Rightarrow> string option" where
  "live_user now raw ss =
     (case extract_cookie raw ''session'' of
        Some t \<Rightarrow> (case ss t of Some s \<Rightarrow> if now < ws_expires s then Some (ws_username s) else None | None \<Rightarrow> None)
      | None \<Rightarrow> None)"

lemma handle_request_route:
  obtains ss' where "handle_request v w cfg now random raw (ss, ce) =
      route v w cfg now random (request_words raw) (request_body raw) (extract_cookie raw ''session'')
        (live_user now raw ss) (ss', ce)"
    "\<And>t s. ss' t = Some s \<Longrightarrow> ss t = Some s" "live_user now raw ss \<noteq> None \<Longrightarrow> ss' = ss"
proof (cases "extract_cookie raw ''session''")
  case None
  then show ?thesis using that [of ss] by (simp add: handle_request_def live_user_def)
next
  case (Some t)
  obtain ss' u where su: "session_user now t ss = (ss', u)" by fastforce
  then have "u = live_user now raw ss" "u \<noteq> None \<Longrightarrow> ss' = ss"
    using Some by (auto simp: session_user_def live_user_def split: option.splits if_splits)
  then show ?thesis
    using that [of ss'] su Some session_user_kept [OF su] by (simp add: handle_request_def)
qed

lemma route_server:
  assumes "route v w cfg now random (meth, path) body token user (ss, ce) = Some ((ss', ce'), out)" "ce' \<noteq> ce"
  shows "\<exists>u j out' sql. user = Some u \<and> ss' = ss \<and> meth = ''POST'' \<and> path = ''/api/query'' \<and> web_json_from w body = Some j \<and>
    sql = trim (default_str (json_str (json_field j ''sql''))) \<and>
    execute v sql (json_str (json_field j ''db'')) u ce = Some (ce', out')"
  using assms
  by (auto simp: route_def dispatch_api_def api_query_def Let_def
      split: if_splits option.splits prod.splits)

text \<open>The engine changes only by a statement run as the user of a live session.\<close>

lemma request_changes_engine:
  assumes "handle_request v w cfg now random raw (ss, ce) = Some ((ss', ce'), out)" "ce' \<noteq> ce"
  shows "\<exists>t s sql db r. extract_cookie raw ''session'' = Some t \<and> ss t = Some s \<and> now < ws_expires s \<and>
    execute v sql db (ws_username s) ce = Some (ce', r)"
proof -
  obtain ss1 where eq: "handle_request v w cfg now random raw (ss, ce) =
      route v w cfg now random (request_words raw) (request_body raw) (extract_cookie raw ''session'')
        (live_user now raw ss) (ss1, ce)"
    and old: "\<And>t s. ss1 t = Some s \<Longrightarrow> ss t = Some s"
    by (rule handle_request_route [of v w cfg now random raw ss ce]) blast
  note r = assms(1) [unfolded eq]
  obtain meth path where "request_words raw = (meth, path)" by fastforce
  then obtain u sql db r where "live_user now raw ss = Some u" "execute v sql db u ce = Some (ce', r)"
    using route_server [OF r [unfolded \<open>request_words raw = (meth, path)\<close>] assms(2)] by blast
  then show ?thesis by (auto simp: live_user_def split: option.splits if_splits)
qed

lemma api_unauthorized:
  assumes "live_user now raw ss = None" "request_words raw = (meth, path)" "starts_with ''/api/'' path" "meth \<noteq> ''OPTIONS''"
  shows "\<exists>ss'. handle_request v w cfg now random raw (ss, ce) = Some ((ss', ce), unauthorized)"
proof -
  obtain ss1 where eq: "handle_request v w cfg now random raw (ss, ce) =
      route v w cfg now random (request_words raw) (request_body raw) (extract_cookie raw ''session'')
        (live_user now raw ss) (ss1, ce)"
    and old: "\<And>t s. ss1 t = Some s \<Longrightarrow> ss t = Some s"
    by (rule handle_request_route [of v w cfg now random raw ss ce]) blast
  have "path \<notin> {''/login'', ''/logout'', ''/'', ''/index.html'', ''/ui''}"
    using assms(3) by (auto simp: starts_with_def)
  then show ?thesis using assms by (simp add: eq route_def)
qed

text \<open>A session that a request adds is that of a login the check accepted, and lasts eight hours.\<close>

lemma login_session:
  assumes "handle_login v w cfg now random body ss e = (ss', out)" "ss' t = Some s" "ss t \<noteq> Some s"
  shows "t = gen_token (env_crates v) random \<and> ws_expires s = now + SESSION_TTL \<and>
    (\<exists>password. verify_login v cfg (ws_username s) password e)"
  using assms by (auto simp: handle_login_def Let_def split: option.splits if_splits, blast)

lemma request_sessions:
  assumes "handle_request v w cfg now random raw (ss, ce) = Some ((ss', ce'), out)" "ss' t = Some s" "ss t \<noteq> Some s"
  shows "t = gen_token (env_crates v) random \<and> ws_expires s = now + SESSION_TTL \<and>
    (\<exists>password. verify_login v cfg (ws_username s) password (snd ce))"
proof -
  obtain ss1 where eq: "handle_request v w cfg now random raw (ss, ce) =
      route v w cfg now random (request_words raw) (request_body raw) (extract_cookie raw ''session'')
        (live_user now raw ss) (ss1, ce)"
    and old: "\<And>t s. ss1 t = Some s \<Longrightarrow> ss t = Some s"
    by (rule handle_request_route [of v w cfg now random raw ss ce]) blast
  note r = assms(1) [unfolded eq]
  have new: "ss1 t \<noteq> Some s" using old assms(3) by blast
  obtain meth path where mp: "request_words raw = (meth, path)" by fastforce
  show ?thesis
  proof (cases "meth = ''POST'' \<and> path = ''/login''")
    case True
    then obtain out' where "handle_login v w cfg now random (request_body raw) ss1 (snd ce) = (ss', out')"
      using r mp by (auto simp: route_def split: prod.splits)
    then show ?thesis using assms(2) new by (rule login_session)
  next
    case False
    then have "ss' = ss1 \<or> (\<exists>t. ss' = ss1(t := None))"
      using r mp by (auto simp: route_def split: if_splits option.splits)
    then show ?thesis using assms(2) new by (auto split: if_splits)
  qed
qed

section \<open>The cookie of a login\<close>

text \<open>A token of hexadecimal digits is one word of a cookie.\<close>

definition token_text :: "string \<Rightarrow> bool" where
  "token_text t \<longleftrightarrow> t \<noteq> [] \<and> list_all (\<lambda>c. is_digit c \<or> is_lower c) t"

definition cookie_request :: "string \<Rightarrow> string \<Rightarrow> string \<Rightarrow> string \<Rightarrow> string" where
  "cookie_request meth path token body =
     meth @ '' '' @ path @ '' HTTP/1.1'' @ crlf @ ''Cookie: session='' @ token @ crlf @ crlf @ body"

definition path_text :: "string \<Rightarrow> bool" where
  "path_text p \<longleftrightarrow> p \<noteq> [] \<and> list_all (\<lambda>c. \<not> is_ws c \<and> c \<noteq> CHR ''?'') p"

lemma path_chars: "path_text p \<Longrightarrow> c \<in> set p \<Longrightarrow> \<not> is_ws c" "path_text p \<Longrightarrow> CHR ''?'' \<notin> set p" "path_text p \<Longrightarrow> p \<noteq> []"
  by (auto simp: path_text_def list_all_iff)

lemma token_chars:
  assumes "token_text t" "c \<in> set t"
  shows "\<not> is_ws c" "c \<noteq> CHR '';''" "c \<noteq> char_of (10 :: nat)" "c \<noteq> char_of (13 :: nat)"
proof -
  have "is_digit c \<or> is_lower c" using assms by (auto simp: token_text_def list_all_iff)
  then show "\<not> is_ws c" "c \<noteq> CHR '';''" "c \<noteq> char_of (10 :: nat)" "c \<noteq> char_of (13 :: nat)"
    by (auto simp: is_digit_def is_lower_def is_ws_def)
qed

lemma line_chars: "char_of (10 :: nat) = CHR 0x0A" "char_of (13 :: nat) = CHR 0x0D"
  by code_simp+

lemma crlf_chars: "crlf = char_of (13 :: nat) # char_of (10 :: nat) # []"
  by (simp add: crlf_def)

lemma lines_crlf:
  assumes "char_of (10 :: nat) \<notin> set a"
  shows "lines (a @ crlf @ b) = a # lines b"
proof -
  have "split_char (char_of (10 :: nat)) (a @ crlf @ b) = (a @ [char_of (13 :: nat)]) # split_char (char_of (10 :: nat)) b"
    using split_char_line [of "char_of (10 :: nat)" "a @ [char_of (13 :: nat)]" b] assms by (simp add: crlf_chars)
  then show ?thesis by (simp add: lines_def Let_def strip_cr_def)
qed

lemma cookie_read:
  assumes "token_text t"
  shows "find_map (cookie_part ''session'') (split_char (CHR '';'') (drop 7 (''Cookie: session='' @ t))) = Some t"
proof -
  have "CHR '';'' \<notin> set ('' session='' @ t)" using token_chars(2) [OF assms] by auto
  then have "split_char (CHR '';'') ('' session='' @ t) = ['' session='' @ t]" by (rule split_char_none)
  moreover have "trim (''session='' @ t) = ''session='' @ t"
    using token_chars(1) [OF assms] by (intro trim_words(1)) (auto simp: is_ws_def)
  moreover have "trim t = t" using token_chars(1) [OF assms] by (intro trim_words(1))
  ultimately show ?thesis by (simp add: cookie_part_def strip_prefix_def starts_with_def trim_words(2))
qed

lemma extract_cookie_read:
  assumes "token_text t" "path_text path" "meth \<in> {''GET'', ''POST''}"
  shows "extract_cookie (cookie_request meth path t body) ''session'' = Some t"
proof -
  have nl: "char_of (10 :: nat) \<notin> set (meth @ '' '' @ path @ '' HTTP/1.1'')"
    using path_chars(1) [OF assms(2), of "CHR 0x0A"] assms(3) unfolding line_chars by (auto simp: is_ws_def)
  have nt: "char_of (10 :: nat) \<notin> set (''Cookie: session='' @ t)"
    using token_chars(3) [OF assms(1)] unfolding line_chars by auto
  have "lines (cookie_request meth path t body) =
      (meth @ '' '' @ path @ '' HTTP/1.1'') # (''Cookie: session='' @ t) # lines (crlf @ body)"
    using lines_crlf [OF nl] lines_crlf [OF nt] by (simp add: cookie_request_def)
  moreover have "\<not> starts_with ''cookie:'' (to_lower (meth @ '' '' @ s))" for s
    using assms(3) by (auto simp: starts_with_def to_lower_def lower_char_def is_upper_def)
  moreover have "starts_with ''cookie:'' (to_lower (''Cookie: session='' @ t))"
    by (simp add: starts_with_def to_lower_def lower_char_def is_upper_def) code_simp
  ultimately show ?thesis using cookie_read [OF assms(1)] by (simp add: extract_cookie_def)
qed

lemma split_ws_word:
  assumes "\<And>c. c \<in> set w \<Longrightarrow> \<not> is_ws c" "is_ws d" "acc \<noteq> [] \<or> w \<noteq> []"
  shows "split_ws_aux acc (w @ d # s) = (rev acc @ w) # split_ws_aux [] s"
  using assms by (induction w arbitrary: acc) auto

lemma request_words_read:
  assumes "path_text path" "meth \<in> {''GET'', ''POST''}"
  shows "request_words (cookie_request meth path t body) = (meth, path)"
proof -
  have nl: "char_of (10 :: nat) \<notin> set (meth @ '' '' @ path @ '' HTTP/1.1'')"
    using path_chars(1) [OF assms(1), of "CHR 0x0A"] assms(2) unfolding line_chars by (auto simp: is_ws_def)
  have "nth_or [] (lines (cookie_request meth path t body)) 0 = meth @ CHR '' '' # path @ CHR '' '' # ''HTTP/1.1''"
    using lines_crlf [OF nl] by (simp add: cookie_request_def nth_or_def vec_get_def)
  moreover have "split_whitespace (meth @ CHR '' '' # path @ CHR '' '' # ''HTTP/1.1'') =
      meth # path # split_ws_aux [] ''HTTP/1.1''"
  proof -
    have sp: "is_ws (CHR '' '')" "\<And>c. c \<in> set path \<Longrightarrow> \<not> is_ws c" "\<And>c. c \<in> set meth \<Longrightarrow> \<not> is_ws c" "meth \<noteq> []"
      using path_chars [OF assms(1)] assms(2) by (auto simp: is_ws_def)
    have "split_ws_aux [] (meth @ CHR '' '' # s) = meth # split_ws_aux [] s"
      "split_ws_aux [] (path @ CHR '' '' # s) = path # split_ws_aux [] s" for s
      using split_ws_word [of meth "CHR '' ''" "[]" s] split_ws_word [of path "CHR '' ''" "[]" s] sp path_chars(3) [OF assms(1)] by simp_all
    then show ?thesis by (simp only: split_whitespace_def)
  qed
  moreover have "split_char (CHR ''?'') path = [path]" using path_chars(2) [OF assms(1)] by (rule split_char_none)
  ultimately show ?thesis by (simp add: request_words_def nth_or_def vec_get_def)
qed

lemma find_sub_skip:
  assumes "c \<notin> set a"
  shows "find_sub (c # p) (a @ s) = map_option (\<lambda>i. i + length a) (find_sub (c # p) s)"
  using assms by (induction a) (auto simp: starts_with_def option.map_comp comp_def option.map_ident)

lemma request_body_at:
  assumes "find_sub (crlf @ crlf) (a @ crlf @ crlf @ body) = Some (length a)"
  shows "request_body (a @ crlf @ crlf @ body) = body"
proof -
  have "drop (length a + 4) (a @ crlf @ crlf @ body) = body" by (simp add: crlf_def)
  then show ?thesis using assms by (simp add: request_body_def)
qed

lemma request_body_read:
  assumes "token_text t" "path_text path" "meth \<in> {''GET'', ''POST''}"
  shows "request_body (cookie_request meth path t body) = body"
proof -
  let ?first = "meth @ '' '' @ path @ '' HTTP/1.1''" and ?second = "CHR 0x0A # ''Cookie: session='' @ t"
  have cr: "CHR 0x0D \<notin> set ?first" "CHR 0x0D \<notin> set ?second"
    using path_chars(1) [OF assms(2), of "CHR 0x0D"] assms(3) token_chars(4) [OF assms(1)] unfolding line_chars
    by (auto simp: is_ws_def)
  have p: "crlf @ crlf = CHR 0x0D # [CHR 0x0A, CHR 0x0D, CHR 0x0A]" by (simp add: crlf_def line_chars)
  have "find_sub (crlf @ crlf) (crlf @ crlf @ body) = Some 0"
    using starts_with_append [of "crlf @ crlf" body] by (simp add: crlf_def)
  then have "find_sub (crlf @ crlf) (?second @ crlf @ crlf @ body) = Some (length ?second)"
    unfolding p find_sub_skip [OF cr(2)] by simp
  then have "find_sub (crlf @ crlf) (CHR 0x0D # ?second @ crlf @ crlf @ body) = Some (Suc (length ?second))"
    by (subst find_sub.simps) (simp add: starts_with_def p)
  then have "find_sub (crlf @ crlf) (?first @ CHR 0x0D # ?second @ crlf @ crlf @ body) = Some (length (?first @ CHR 0x0D # ?second))"
    unfolding p find_sub_skip [OF cr(1)] by simp
  then have "request_body ((?first @ CHR 0x0D # ?second) @ crlf @ crlf @ body) = body"
    by (intro request_body_at) simp
  moreover have "cookie_request meth path t body = (?first @ CHR 0x0D # ?second) @ crlf @ crlf @ body"
    by (simp add: cookie_request_def crlf_def line_chars)
  ultimately show ?thesis by simp
qed

text \<open>A request with the cookie of a live session is carried out as its user.\<close>

lemma live_query:
  assumes "token_text t" "ss t = Some s" "now < ws_expires s"
  shows "handle_request v w cfg now random (cookie_request ''POST'' ''/api/query'' t body) (ss, ce) =
    map_option (\<lambda>(ce', out). ((ss, ce'), json_response out)) (api_query v w body (ws_username s) ce)"
proof -
  have path: "path_text ''/api/query''" by (simp add: path_text_def is_ws_def)
  have "extract_cookie (cookie_request ''POST'' ''/api/query'' t body) ''session'' = Some t"
    "request_words (cookie_request ''POST'' ''/api/query'' t body) = (''POST'', ''/api/query'')"
    "request_body (cookie_request ''POST'' ''/api/query'' t body) = body"
    using extract_cookie_read [OF assms(1) path] request_words_read [OF path] request_body_read [OF assms(1) path]
    by simp_all
  moreover have "session_user now t ss = (ss, Some (ws_username s))"
    using assms(2,3) by (simp add: session_user_def)
  ultimately show ?thesis
    by (simp add: handle_request_def route_def dispatch_api_def starts_with_def option.map_comp comp_def case_prod_unfold)
qed

text \<open>A login the check accepts opens such a session.\<close>

lemma login_opens:
  assumes "web_json_from w body = Some j" "user = trim (default_str (json_str (json_field j ''username'')))" "user \<noteq> []"
    and "verify_login v cfg user (default_str (json_str (json_field j ''password''))) e"
  shows "handle_login v w cfg now random body ss e =
    (ss(gen_token (env_crates v) random \<mapsto> \<lparr> ws_username = user, ws_expires = now + SESSION_TTL \<rparr>),
     login_response (gen_token (env_crates v) random))"
  using assms by (simp add: handle_login_def Let_def)

lemma login_then_query:
  assumes "web_json_from w body = Some j" "user = trim (default_str (json_str (json_field j ''username'')))" "user \<noteq> []"
    and "verify_login v cfg user (default_str (json_str (json_field j ''password''))) e"
    and "token_text (gen_token (env_crates v) random)" "later < now + SESSION_TTL"
  shows "handle_request v w cfg later random'
      (cookie_request ''POST'' ''/api/query'' (gen_token (env_crates v) random) body')
      (fst (handle_login v w cfg now random body ss e), ce) =
    map_option (\<lambda>(ce', out). ((fst (handle_login v w cfg now random body ss e), ce'), json_response out))
      (api_query v w body' user ce)"
  using live_query [OF assms(5)] assms(6) by (simp add: login_opens [OF assms(1-4)])

lemma expired_dead: "ws_expires s \<le> now \<Longrightarrow> ss t = Some s \<Longrightarrow> snd (session_user now t ss) = None"
  by (simp add: session_user_def)

text \<open>The hourly cleanup keeps exactly the live sessions, so it changes no answer.\<close>

lemma cleanup_live: "live_user now raw (cleanup now ss) = live_user now raw ss"
  by (simp add: live_user_def cleanup_def split: option.split)

section \<open>Accounts that are gone\<close>

lemma no_account_unchecked: "users e u = None \<Longrightarrow> privilege_error u cur needs e = None"
  by (simp add: privilege_error_def)

text \<open>An account that does not exist runs every statement as an unrestricted one.\<close>

lemma dropped_account_is_root:
  assumes "users e u = None" "users e r = Some d" "allowed_dbs d = None" "can_write d"
  shows "execute v sql cur u (c, e) = execute v sql cur r (c, e)"
proof -
  have "privilege_error u cur needs e = privilege_error r cur needs e" for needs
    using no_account_unchecked [OF assms(1)] privilege_error_root [OF assms(2-4)] by simp
  then show ?thesis by (simp add: execute_def checked_def split: option.split sum.split prod.split)
qed

end
