(* ===== verification/Host_Laws.thy ===== *)
theory Host_Laws
  imports Host "HOL-Library.Multiset" "HOL-Library.Sublist"
begin

text \<open>
  What the program does to its host over its life: the rules it opened are the ones it removes, a
  second process does not set up ICMP protection while the first runs, and what a checkpoint can do
  to the last dump. The host is described by what its documentation says of \<open>iptables\<close>.
\<close>

section \<open>Chains of iptables\<close>

text \<open>\<open>-A\<close> appends a rule, \<open>-I\<close> puts it in front, \<open>-D\<close> removes the first equal rule and succeeds when
  there is one. A command that fails changes nothing.\<close>

definition chain_laws :: "'h sys \<Rightarrow> string \<Rightarrow> ('h \<Rightarrow> string list list) \<Rightarrow> bool" where
  "chain_laws sys tool chain \<longleftrightarrow>
     (\<forall>h r. chain (snd (sys tool ([''-A'', ''INPUT''] @ r) h)) =
        (if succeeded (fst (sys tool ([''-A'', ''INPUT''] @ r) h)) then chain h @ [r] else chain h)) \<and>
     (\<forall>h r. chain (snd (sys tool ([''-I'', ''INPUT''] @ r) h)) =
        (if succeeded (fst (sys tool ([''-I'', ''INPUT''] @ r) h)) then r # chain h else chain h)) \<and>
     (\<forall>h r. chain (snd (sys tool ([''-D'', ''INPUT''] @ r) h)) = remove1 r (chain h))"

lemma chain_append:
  "chain_laws sys tool chain \<Longrightarrow> chain (snd (sys tool (''-A'' # ''INPUT'' # r) h)) =
     (if succeeded (fst (sys tool (''-A'' # ''INPUT'' # r) h)) then chain h @ [r] else chain h)"
  by (simp add: chain_laws_def)

lemma chain_insert:
  "chain_laws sys tool chain \<Longrightarrow> chain (snd (sys tool (''-I'' # ''INPUT'' # r) h)) =
     (if succeeded (fst (sys tool (''-I'' # ''INPUT'' # r) h)) then r # chain h else chain h)"
  by (simp add: chain_laws_def)

lemma chain_delete:
  "chain_laws sys tool chain \<Longrightarrow> chain (snd (sys tool (''-D'' # ''INPUT'' # r) h)) = remove1 r (chain h)"
  by (simp add: chain_laws_def)

section \<open>The firewall\<close>

definition rule_spec :: "firewall \<Rightarrow> fw_rule \<Rightarrow> string list" where
  "rule_spec fw r = accept_spec (rule_proto r) (rule_port r) (fw_tag fw)"

definition on_iptables :: "firewall \<Rightarrow> bool" where
  "on_iptables fw \<longleftrightarrow> fw_backend fw = Iptables \<and> \<not> fw_dry_run fw"

lemma open_rule_iptables:
  assumes "chain_laws sys ''iptables'' chain" "on_iptables fw" "open_rule sys fw port proto h = (res, h')"
  shows "(\<exists>e. res = Inl e) \<and> chain h' = chain h \<or>
    res = Inr None \<and> chain h' = chain h @ [accept_spec proto port (fw_tag fw)]"
proof -
  obtain o' h1 where s: "sys ''iptables'' (''-A'' # ''INPUT'' # accept_spec proto port (fw_tag fw)) h = (o', h1)"
    by fastforce
  then show ?thesis
    using assms chain_append [OF assms(1), of "accept_spec proto port (fw_tag fw)" h]
    by (cases o') (auto simp: open_rule_def on_iptables_def run_def succeeded_def split: if_splits)
qed

lemma open_ports_iptables:
  assumes "chain_laws sys ''iptables'' chain"
  shows "on_iptables fw \<Longrightarrow> open_ports sys ps fw h = (fw', h') \<Longrightarrow>
    \<exists>new. fw' = fw\<lparr> fw_opened := fw_opened fw @ new \<rparr> \<and> chain h' = chain h @ map (rule_spec fw) new \<and>
      subseq (map (\<lambda>r. (rule_port r, rule_proto r)) new) ps"
proof (induction ps arbitrary: fw h)
  case Nil
  then show ?case by (intro exI [of _ "[]"]) auto
next
  case (Cons p ps)
  obtain port proto where p: "p = (port, proto)" by (cases p)
  obtain res h1 where o: "open_rule sys fw port proto h = (res, h1)" by fastforce
  from open_rule_iptables [OF assms Cons.prems(1) o] show ?case
  proof (elim disjE conjE exE)
    fix e assume "res = Inl e" and c: "chain h1 = chain h"
    then have "open_ports sys ps fw h1 = (fw', h')" using Cons.prems(2) p o by simp
    from Cons.IH [OF Cons.prems(1) this] show ?thesis using c by auto
  next
    let ?r = "\<lparr> rule_port = port, rule_proto = proto, nft_handle = None \<rparr>"
    let ?fw = "fw\<lparr> fw_opened := fw_opened fw @ [?r] \<rparr>"
    assume "res = Inr None" and c: "chain h1 = chain h @ [accept_spec proto port (fw_tag fw)]"
    then have "open_ports sys ps ?fw h1 = (fw', h')" using Cons.prems(2) p o by simp
    moreover have "on_iptables ?fw" using Cons.prems(1) by (simp add: on_iptables_def)
    ultimately obtain new where n: "fw' = ?fw\<lparr> fw_opened := fw_opened ?fw @ new \<rparr>"
        "chain h' = chain h1 @ map (rule_spec ?fw) new"
        "subseq (map (\<lambda>r. (rule_port r, rule_proto r)) new) ps"
      using Cons.IH by blast
    have "rule_spec ?fw = rule_spec fw" by (simp add: rule_spec_def fun_eq_iff)
    then show ?thesis using n c p by (intro exI [of _ "?r # new"]) (simp add: rule_spec_def)
  qed
qed

lemma close_rule_iptables:
  assumes "chain_laws sys ''iptables'' chain" "on_iptables fw"
  shows "chain (snd (close_rule sys fw r h)) = remove1 (rule_spec fw r) (chain h)"
  using assms chain_delete [OF assms(1), of "rule_spec fw r" h]
  by (auto simp: close_rule_def on_iptables_def run_def rule_spec_def)

lemma close_rules_mset:
  assumes "chain_laws sys ''iptables'' chain" "on_iptables fw"
  shows "mset (chain (fold (\<lambda>r h. snd (close_rule sys fw r h)) rs h)) = mset (chain h) - mset (map (rule_spec fw) rs)"
  by (induction rs arbitrary: h) (simp_all add: close_rule_iptables [OF assms])

text \<open>Closing removes what opening added, whatever was added to the chain in between.\<close>

lemma open_close_chain:
  assumes "chain_laws sys ''iptables'' chain" "on_iptables fw" "fw_opened fw = []"
    and "open_firewall sys ps fw h = (fw', h1)" "mset (chain h2) = mset (chain h1) + others"
  shows "mset (chain (snd (close_firewall sys fw' h2))) = mset (chain h) + others"
    "fw_opened (fst (close_firewall sys fw' h2)) = []"
proof -
  have b: "fw_backend fw \<noteq> NoBackend" using assms(2) by (auto simp: on_iptables_def)
  obtain new where n: "fw' = fw\<lparr> fw_opened := new \<rparr>" "chain h1 = chain h @ map (rule_spec fw) new"
    using open_ports_iptables [OF assms(1,2), of ps h fw' h1] assms(3,4) b by (auto simp: open_firewall_def)
  have "on_iptables fw'" "rule_spec fw' = rule_spec fw" "fw_backend fw' \<noteq> NoBackend" "fw_opened fw' = new"
    using assms(2) b n(1) by (auto simp: on_iptables_def rule_spec_def fun_eq_iff)
  then show "mset (chain (snd (close_firewall sys fw' h2))) = mset (chain h) + others"
    "fw_opened (fst (close_firewall sys fw' h2)) = []"
    using close_rules_mset [OF assms(1), of fw' new h2] assms(5) n by (simp_all add: close_firewall_def)
qed

text \<open>With nftables a rule whose handle was not printed is never removed.\<close>

lemma no_handle_kept:
  "fw_backend fw = Nftables \<Longrightarrow> nft_handle r = None \<Longrightarrow> close_rule sys fw r h = (Inr (), h)"
  by (simp add: close_rule_def)

lemma silent_nft_stays:
  assumes "fw_backend fw = Nftables" "\<not> fw_dry_run fw" "fw_opened fw = []"
    and "\<And>args h. fst (sys ''nft'' args h) = Exited True [] []"
    and "open_firewall sys ps fw h = (fw', h1)"
  shows "length (fw_opened fw') = length ps \<and> snd (close_firewall sys fw' h1) = h1"
proof -
  have step: "open_rule sys fw port proto h = (Inr None, snd (open_rule sys fw port proto h))"
    if "fw_backend fw = Nftables" "\<not> fw_dry_run fw" for fw port proto h
  proof -
    let ?args = "[''add'', ''rule'', ''inet'', ''filter'', ''input'', proto @ '' dport '' @ port_text port, ''accept'', ''comment'', fw_tag fw]"
    have "sys ''nft'' ?args h = (Exited True [] [], snd (sys ''nft'' ?args h))"
      using assms(4) [of ?args h] by (metis prod.collapse)
    moreover have "parse_handle [] = None" by code_simp
    ultimately show ?thesis using that by (auto simp: open_rule_def run_def apfst_def map_prod_def split: prod.splits)
  qed
  have opened: "open_ports sys ps fw h = (fw', h1) \<Longrightarrow> fw_backend fw = Nftables \<Longrightarrow> \<not> fw_dry_run fw \<Longrightarrow>
      fw_backend fw' = Nftables \<and> length (fw_opened fw') = length (fw_opened fw) + length ps \<and>
      ((\<forall>r\<in>set (fw_opened fw). nft_handle r = None) \<longrightarrow> (\<forall>r\<in>set (fw_opened fw'). nft_handle r = None))" for fw h
  proof (induction ps arbitrary: fw h)
    case (Cons p ps)
    obtain port proto where p: "p = (port, proto)" by (cases p)
    let ?fw = "fw\<lparr> fw_opened := fw_opened fw @ [\<lparr> rule_port = port, rule_proto = proto, nft_handle = None \<rparr>] \<rparr>"
    have "open_ports sys ps ?fw (snd (open_rule sys fw port proto h)) = (fw', h1)"
      using Cons.prems step [of fw port proto h] p by (auto split: prod.splits)
    from Cons.IH [OF this] Cons.prems show ?case by auto
  qed simp
  have "fold (\<lambda>r h. snd (close_rule sys fw' r h)) rs h1 = h1"
    if "\<forall>r\<in>set rs. nft_handle r = None" "fw_backend fw' = Nftables" for rs
    using that by (induction rs) (simp_all add: no_handle_kept)
  then show ?thesis
    using opened [of fw h] assms(1,2,3,5) by (simp add: open_firewall_def close_firewall_def)
qed

section \<open>ICMP\<close>

definition icmp_accept :: "string list" where
  "icmp_accept = limit_spec ''icmp'' ''--icmp-type''"

definition icmp_drop :: "string list" where
  "icmp_drop = drop_spec ''icmp'' ''--icmp-type''"

text \<open>Only \<open>iptables\<close> itself changes its chain.\<close>

definition only_iptables :: "'h sys \<Rightarrow> ('h \<Rightarrow> string list list) \<Rightarrow> bool" where
  "only_iptables sys chain \<longleftrightarrow> (\<forall>tool args h. tool \<noteq> ''iptables'' \<longrightarrow> chain (snd (sys tool args h)) = chain h)"

lemma other_tool: "only_iptables sys chain \<Longrightarrow> tool \<noteq> ''iptables'' \<Longrightarrow> chain (snd (sys tool args h)) = chain h"
  by (simp add: only_iptables_def)

lemma run_each_other:
  "only_iptables sys chain \<Longrightarrow> list_all (\<lambda>(tool, _). tool \<noteq> ''iptables'') cs \<Longrightarrow> chain (run_each sys cs h) = chain h"
  by (induction cs arbitrary: h) (auto simp: run_each_def cmd_ok_def other_tool split: prod.splits)

lemma input6_other: "list_all (\<lambda>(tool, _). tool \<noteq> ''iptables'') (input6_rules flag)"
  by (simp add: input6_rules_def)

lemma cmd_ok_eq: "cmd_ok sys cmd args h = (succeeded (fst (sys cmd args h)), snd (sys cmd args h))"
  by (simp add: cmd_ok_def apfst_def map_prod_def split: prod.split)

lemma apply_iptables:
  assumes "chain_laws sys ''iptables'' chain" "only_iptables sys chain" "apply_rules sys IcmpIptables h = (True, h')"
  shows "chain h' = icmp_drop # icmp_accept # chain h"
  using assms(3) run_each_other [OF assms(2) input6_other]
  by (auto simp: apply_rules_def input_rules_def cmd_ok_eq Let_def chain_insert [OF assms(1)]
      icmp_drop_def [symmetric] icmp_accept_def [symmetric] split: if_splits)

lemma remove_iptables:
  assumes "chain_laws sys ''iptables'' chain" "only_iptables sys chain"
  shows "chain (snd (remove_rules sys IcmpIptables h)) = remove1 icmp_drop (remove1 icmp_accept (chain h))"
proof -
  have "run_each sys (input_rules ''-D'' @ input6_rules ''-D'') h =
      run_each sys (input6_rules ''-D'') (run_each sys (input_rules ''-D'') h)"
    by (simp add: run_each_def)
  then show ?thesis
    using run_each_other [OF assms(2) input6_other]
    by (simp add: remove_rules_def input_rules_def run_each_def cmd_ok_eq chain_delete [OF assms(1)]
        icmp_drop_def icmp_accept_def)
qed

lemma detect_keeps: "only_iptables sys chain \<Longrightarrow> detect_icmp sys h = (b, h') \<Longrightarrow> chain h' = chain h"
  using other_tool [of sys chain "''which''"]
  by (auto simp: detect_icmp_def cmd_ok_eq Let_def split: if_splits)

text \<open>The owner of the guard holds the lock, and the rules are in front of the chain: the one that
  drops every echo request before the one that accepts some of them.\<close>

lemma setup_owner:
  assumes "setup_icmp sys writable pid en (fs, h) = (g, fs', h')" "is_owner g"
  shows "en \<and> \<not> lock_is_held fs \<and> fs' = write_lock writable pid fs"
  using assms by (auto simp: setup_icmp_def no_guard_def Let_def split: if_splits prod.splits)

lemma setup_iptables:
  assumes "chain_laws sys ''iptables'' chain" "only_iptables sys chain"
    and "setup_icmp sys writable pid en (fs, h) = (g, fs', h')" "is_owner g" "icmp_backend g = IcmpIptables"
  shows "chain h' = icmp_drop # icmp_accept # chain h"
proof -
  obtain h1 where d: "detect_icmp sys h = (IcmpIptables, h1)" and a: "apply_rules sys IcmpIptables h1 = (True, h')"
    using assms(3-5) by (auto simp: setup_icmp_def no_guard_def Let_def split: if_splits prod.splits)
  then show ?thesis using apply_iptables [OF assms(1,2) a] detect_keeps [OF assms(2) d] by simp
qed

text \<open>The target of the first rule a packet matches decides.\<close>

definition verdict :: "(string list \<Rightarrow> bool) \<Rightarrow> string list list \<Rightarrow> string option" where
  "verdict matching rs = map_option last (find matching rs)"

lemma icmp_drop_target: "last icmp_drop = ''DROP''"
  by (simp add: icmp_drop_def drop_spec_def)

lemma setup_drops:
  assumes "chain_laws sys ''iptables'' chain" "only_iptables sys chain"
    and "setup_icmp sys writable pid en (fs, h) = (g, fs', h')" "is_owner g" "icmp_backend g = IcmpIptables"
    and "matching icmp_drop"
  shows "verdict matching (chain h') = Some ''DROP''"
  using setup_iptables [OF assms(1-5)] assms(6) by (simp add: verdict_def icmp_drop_target)

lemma teardown_iptables:
  assumes "chain_laws sys ''iptables'' chain" "only_iptables sys chain"
    and "setup_icmp sys writable pid en (fs, h) = (g, fs', h1)" "is_owner g" "icmp_backend g = IcmpIptables"
    and "mset (chain h2) = mset (chain h1) + others" "teardown_icmp sys g (fs2, h2) = (fs3, h3)"
  shows "mset (chain h3) = mset (chain h) + others \<and> fs3 LOCK_FILE = None"
  using assms(4-7) remove_iptables [OF assms(1,2), of h2] setup_iptables [OF assms(1-5)]
  by (auto simp: teardown_icmp_def)

section \<open>One owner\<close>

lemma lock_text_read:
  "parse_unsigned 32 (trim (case vec_get (split_char (CHR '':'') (lock_text pid)) 1 of Some s \<Rightarrow> s | None \<Rightarrow> [])) =
     Some (unat pid)"
proof -
  let ?n = "show_nat (unat pid)"
  have dig: "is_digit c" if "c \<in> set ?n" for c using show_nat_digits that by (metis list_all_iff)
  then have ws: "\<not> is_ws c" "c \<noteq> CHR '':''" if "c \<in> set ?n" for c
    using dig [OF that] by (auto simp: is_digit_def is_ws_def)
  have "split_char (CHR '':'') (''runnginx'' @ CHR '':'' # ?n @ [CHR 0x0A]) = [''runnginx'', ?n @ [CHR 0x0A]]"
  proof -
    have "CHR '':'' \<notin> set (?n @ [CHR 0x0A])" using ws(2) by auto
    from split_char_none [OF this] show ?thesis by (subst split_char_line) simp_all
  qed
  moreover have "trim (?n @ [CHR 0x0A]) = ?n"
  proof -
    have "trim ?n = ?n" using ws(1) by (rule trim_words(1))
    moreover have "dropWhile is_ws (?n @ [CHR 0x0A]) = ?n @ [CHR 0x0A]"
      using ws(1) by (cases ?n) (auto simp: show_nat_not_Nil)
    moreover have "dropWhile is_ws ?n = ?n" using ws(1) by (cases ?n) auto
    ultimately show ?thesis by (simp add: trim_def trim_start_by_def trim_end_by_def is_ws_def)
  qed
  moreover have "unat pid < 2 ^ 32" using unsigned_less [of pid, where 'a = nat] by simp
  ultimately show ?thesis by (simp add: lock_text_def vec_get_def)
qed

lemma lock_held:
  "lock_is_held (write_lock True pid fs) \<longleftrightarrow> write_lock True pid fs (''/proc/'' @ show_nat (unat pid)) \<noteq> None"
proof -
  have "write_lock True pid fs LOCK_FILE = Some (Some (lock_text pid))" by (simp add: write_lock_def)
  then show ?thesis by (simp add: lock_is_held_def lock_text_read [unfolded One_nat_def])
qed

text \<open>While the owner of the lock runs, another process that sets up protection changes nothing.\<close>

lemma second_setup:
  assumes "setup_icmp sys True pid en (fs, h) = (g, fs1, h1)" "is_owner g"
    and "fs2 LOCK_FILE = fs1 LOCK_FILE" "fs2 (''/proc/'' @ show_nat (unat pid)) \<noteq> None"
  shows "setup_icmp sys' writable pid' en' (fs2, h2) = (no_guard en', fs2, h2)"
proof -
  have "fs2 LOCK_FILE = Some (Some (lock_text pid))"
    using assms(3) setup_owner [OF assms(1,2)] by (simp add: write_lock_def)
  then have "lock_is_held fs2" using assms(4) by (auto simp: lock_is_held_def lock_text_read [unfolded One_nat_def])
  then show ?thesis by (simp add: setup_icmp_def no_guard_def)
qed

section \<open>The whole program\<close>

lemma new_firewall_iptables:
  "firewall_manage cfg \<Longrightarrow> firewall_backend cfg = Some ''iptables'' \<Longrightarrow>
   new_firewall sys dry (firewall_manage cfg) (firewall_backend cfg) tag h =
     (\<lparr> fw_backend = Iptables, fw_tag = tag, fw_dry_run = dry, fw_opened = [] \<rparr>, h)"
  by (simp add: new_firewall_def)

text \<open>On a signal the ports are closed, but the ICMP rules and the lock stay.\<close>

lemma exit_leaves:
  assumes "chain_laws sys ''iptables'' chain" "only_iptables sys chain"
    and "firewall_manage cfg" "firewall_backend cfg = Some ''iptables''"
    and "start_host sys False writable pid cfg (fs, h) = ((fw, g), fs1, h1)"
    and "is_owner g" "icmp_backend g = IcmpIptables"
    and "stop_host sys w dump cfg fw (fs1, h1) = (fs2, h2)"
  shows "mset (chain h2) = mset (chain h) + {#icmp_drop, icmp_accept#}"
    "dump_path cfg \<noteq> LOCK_FILE \<Longrightarrow> fs2 LOCK_FILE = write_lock writable pid fs LOCK_FILE"
proof -
  let ?fw = "\<lparr> fw_backend = Iptables, fw_tag = firewall_tag cfg, fw_dry_run = False, fw_opened = [] \<rparr>"
  obtain h0 where o: "open_firewall sys (fw_ports cfg) ?fw h = (fw, h0)"
    and s: "setup_icmp sys writable pid (icmp_protection cfg) (fs, h0) = (g, fs1, h1)"
    using assms(5) by (auto simp: start_host_def new_firewall_iptables [OF assms(3,4)] split: prod.splits)
  have "on_iptables ?fw" "fw_opened ?fw = []" by (simp_all add: on_iptables_def)
  moreover have "mset (chain h1) = mset (chain h0) + {#icmp_drop, icmp_accept#}"
    using setup_iptables [OF assms(1,2) s assms(6,7)] by simp
  ultimately have "mset (chain (snd (close_firewall sys fw h1))) = mset (chain h) + {#icmp_drop, icmp_accept#}"
    using open_close_chain(1) [OF assms(1) _ _ o] by blast
  moreover have h2: "h2 = snd (close_firewall sys fw h1)" "fs2 = write_file w (dump_path cfg) dump fs1"
    using assms(8) by (auto simp: stop_host_def split: prod.splits)
  ultimately show "mset (chain h2) = mset (chain h) + {#icmp_drop, icmp_accept#}" by simp
  show "fs2 LOCK_FILE = write_lock writable pid fs LOCK_FILE" if "dump_path cfg \<noteq> LOCK_FILE"
    using that h2(2) setup_owner [OF s assms(6)] by (auto simp: write_file_def split: write_outcome.split)
qed

text \<open>A checkpoint leaves the last dump or puts the new one in its place, whatever fails; the dump
  at the end is written in place.\<close>

lemma tmp_path: "dump_path cfg @ ''.tmp'' \<noteq> dump_path cfg"
  by simp

lemma checkpoint_dump:
  "checkpoint w renamed dump cfg fs (dump_path cfg) =
     (if w = Written \<and> renamed then Some (Some dump) else fs (dump_path cfg))"
  by (cases w) (simp_all add: checkpoint_def write_file_def Let_def)

lemma stop_dump:
  "fst (stop_host sys w dump cfg fw (fs, h)) (dump_path cfg) =
     (case w of Written \<Rightarrow> Some (Some dump) | Torn left \<Rightarrow> left)"
  by (simp add: stop_host_def write_file_def split: prod.split write_outcome.split)

section \<open>Cores\<close>

text \<open>The cores found are processors in ascending order, one of each physical core; threads take them in turn.\<close>

lemma core_ids_subseq: "subseq (core_ids fs cpus seen) cpus"
  by (induction fs cpus seen rule: core_ids.induct) (auto simp: Let_def split: option.split)

lemma physical_cores: "distinct (physical_core_ids fs)" "set (physical_core_ids fs) \<subseteq> {..<512}"
proof -
  have sub: "subseq (physical_core_ids fs) [0..<512]" unfolding physical_core_ids_def by (rule core_ids_subseq)
  obtain N where "physical_core_ids fs = nths [0..<512] N" using sub by (auto simp: subseq_conv_nths)
  then show "distinct (physical_core_ids fs)" "set (physical_core_ids fs) \<subseteq> {..<512}"
    by (auto simp: set_nths intro: distinct_nthsI)
qed

lemma worker_count_pos: "0 < worker_count cfg fs"
  by (auto simp: worker_count_def)

fun pin_threads :: "nat \<Rightarrow> nat list \<Rightarrow> u64 \<Rightarrow> nat option list" where
  "pin_threads 0 cores n = []"
| "pin_threads (Suc k) cores n = (case pin_next cores n of (c, n') \<Rightarrow> c # pin_threads k cores n')"

lemma pinned_in_turn:
  "cores \<noteq> [] \<Longrightarrow> unat n + k < 2 ^ 64 \<Longrightarrow>
   pin_threads k cores n = map (\<lambda>i. Some (cores ! (i mod length cores))) [unat n..<unat n + k]"
proof (induction k arbitrary: n)
  case (Suc k)
  have "unat (n + 1) = Suc (unat n)"
  proof (cases "n + 1 = 0")
    case True
    then have "n = - 1" by (metis add.commute eq_neg_iff_add_eq_0)
    moreover have "unat (- 1 :: u64) = 2 ^ 64 - 1" by (simp add: unsigned_minus_1_eq_mask mask_eq_exp_minus_1)
    ultimately show ?thesis using Suc.prems(2) by simp
  qed (simp add: unatSuc add.commute)
  moreover have "[unat n..<unat n + Suc k] = unat n # [Suc (unat n)..<Suc (unat n) + k]" by (simp add: upt_conv_Cons)
  ultimately show ?case using Suc by (simp add: pin_next_def)
qed simp

end
