(* ===== verification/Service_Laws.thy ===== *)
theory Service_Laws
  imports Service Webui_Laws Host_Laws
begin

text \<open>
  What holds of the running program whatever its clients send and in whatever order it is handled:
  the permits and the connections add up, the account root stays, the caches of the sessions hold
  replies; and what a client that sends a part of a packet does to it.
\<close>

section \<open>Steps\<close>

inductive_cases service_stepE: "service_step z n ev n'"

lemmas step_simps = now_at_def release_def

text \<open>A step leaves every connection but one as it is.\<close>

lemma step_frame: "service_step z n ev n' \<Longrightarrow> \<exists>c. \<forall>d. d \<noteq> c \<longrightarrow> conns n' d = conns n d"
  by (erule service_stepE) (auto simp: step_simps)

section \<open>Permits\<close>

definition permits_ok :: "service \<Rightarrow> bool" where
  "permits_ok n \<longleftrightarrow> finite (dom (conns n)) \<and> permits n + card (dom (conns n)) = MAX_CONNECTIONS"

lemma permits_accept:
  assumes "permits_ok n" "0 < permits n" "conns n c = None"
  shows "permits_ok (now_at c ph (n\<lparr> permits := permits n - 1 \<rparr>))"
proof -
  have "c \<notin> dom (conns n)" using assms(3) by auto
  then show ?thesis using assms by (simp add: permits_ok_def step_simps)
qed

lemma permits_now_at:
  assumes "permits_ok n" "conns n c = Some ph'"
  shows "permits_ok (now_at c ph n)"
proof -
  have "insert c (dom (conns n)) = dom (conns n)" using assms(2) by auto
  then show ?thesis using assms by (simp add: permits_ok_def step_simps)
qed

lemma permits_release:
  assumes "permits_ok n" "conns n c = Some ph"
  shows "permits_ok (release c n)"
proof -
  have "c \<in> dom (conns n)" using assms(2) by auto
  then have "card (dom (conns n)) = Suc (card (dom (conns n) - {c}))"
    using assms(1) by (metis permits_ok_def card_Suc_Diff1)
  then show ?thesis using assms(1) by (simp add: permits_ok_def step_simps)
qed

lemma permits_other [simp]:
  "permits_ok (n\<lparr> shared := ce \<rparr>) = permits_ok n" "permits_ok (n\<lparr> web_store := ss \<rparr>) = permits_ok n"
  by (simp_all add: permits_ok_def)

lemma step_permits: "service_step z n ev n' \<Longrightarrow> permits_ok n \<Longrightarrow> permits_ok n'"
  by (erule service_stepE) (auto intro: permits_accept [unfolded One_nat_def] permits_now_at permits_release)

section \<open>What every run keeps\<close>

context engine_invariant
begin

lemma requested:
  assumes "handle_request v w cfg now random raw (ss, ce) = Some ((ss', ce'), out)" "P (snd ce)"
  shows "P (snd ce')"
proof (cases "ce' = ce")
  case False
  then obtain t sql db r and s :: web_session where "execute v sql db (ws_username s) ce = Some (ce', r)"
    using request_changes_engine [OF assms(1)] by blast
  then show ?thesis using statement assms(2) by blast
qed (use assms(2) in simp)

lemma restored:
  "restore_lines v ls (cur, batch, ce) = Some (cur', batch', ce') \<Longrightarrow> P (snd ce) \<Longrightarrow> P (snd ce')"
proof (induction ls arbitrary: cur batch ce)
  case (Cons l ls)
  obtain cur1 batch1 ce1 where l: "restore_line v l (cur, batch, ce) = Some (cur1, batch1, ce1)"
    and ls: "restore_lines v ls (cur1, batch1, ce1) = Some (cur', batch', ce')"
    using Cons.prems(1) by (auto simp: bind_eq_Some_conv)
  have "P (snd ce1)"
    using l Cons.prems(2)
    by (cases ce) (auto simp: restore_line_def Let_def split: if_splits dest: statements)
  then show ?case using Cons.IH [OF ls] by simp
qed simp

lemma engine_started:
  assumes "start_engine v cfg fs = Some ce" "P (new_engine (env_sha1 v) (root_password (auth cfg)))"
  shows "P (snd ce)"
  using assms restored [of v _ None "[]" "([], new_engine (env_sha1 v) (root_password (auth cfg)))"]
  by (auto simp: start_engine_def restore_sql_def Let_def split: option.splits)

end

context account_invariant
begin

lemma stepped: "service_step z n ev n' \<Longrightarrow> P (snd (shared n)) \<Longrightarrow> P (snd (shared n'))"
  by (erule service_stepE)
    (auto simp: step_simps opened_by_def dest: opened [rotated] handled [rotated] requested users_only simp: left_by_panic_def)

lemma run_kept:
  assumes "start_service z fs = Some n0" "service_run z n0 n"
    and "P (new_engine (env_sha1 (in_env z)) (root_password (auth (in_config z))))"
  shows "P (snd (shared n))"
proof -
  have "P (snd (shared n0))" using assms(1,3) engine_started by (auto simp: start_service_def)
  with assms(2) show ?thesis by (induction rule: service_run.induct) (auto dest: stepped)
qed

end

lemma new_engine_accounts:
  "root_kept (new_engine sha1 pw)" "others_powerless (new_engine sha1 pw)"
  by (simp_all add: root_kept_def others_powerless_def new_engine_def)

section \<open>Sessions\<close>

text \<open>The session of a connection has a cache that holds a reply or nothing, so that its next
  command is answered.\<close>

definition caches_ok :: "service \<Rightarrow> bool" where
  "caches_ok n \<longleftrightarrow> (\<forall>c s buf. conns n c = Some (Talking s buf) \<longrightarrow> l0_ok s)"

lemma opened_cache: "opened_by z scramble p rest ce = Opened (s, ce') out rest' reads \<Longrightarrow> l0_ok s"
  by (auto simp: opened_by_def open_session_def l0_ok_new split: handshake.splits)

lemma command_cache:
  assumes "l0_ok s" "handle_command v p (s, ce) = Some (Continue (s', ce') out)"
  shows "l0_ok s'"
proof -
  have "parse_command p \<noteq> Quit" using assms(2) by (auto simp: handle_command_def)
  then show ?thesis using command_answered [OF assms] by auto
qed

lemma step_caches: "service_step z n ev n' \<Longrightarrow> caches_ok n \<Longrightarrow> caches_ok n'"
  unfolding caches_ok_def
  by (erule service_stepE)
    (auto simp: step_simps split: if_splits; metis opened_cache command_cache)+

section \<open>Runs\<close>

lemma run_invariant:
  assumes "service_run z n n'" "permits_ok n \<and> caches_ok n"
  shows "permits_ok n' \<and> caches_ok n'"
  using assms by (induction rule: service_run.induct) (auto dest: step_permits step_caches)

lemma start_invariant:
  assumes "start_service z fs = Some n"
  shows "permits_ok n \<and> caches_ok n"
  using assms by (auto simp: start_service_def permits_ok_def caches_ok_def)

section \<open>A part of a packet in the handshake\<close>

definition stuck :: "phase option \<Rightarrow> bool" where
  "stuck ph \<longleftrightarrow> (case ph of Some (Handshaking _ buf) \<Rightarrow> buf \<noteq> [] \<and> decode_packet buf = None | _ \<Rightarrow> False)"

lemma step_stuck: "service_step z n ev n' \<Longrightarrow> stuck (conns n c) \<Longrightarrow> conns n' c = conns n c"
  by (erule service_stepE) (auto simp: step_simps stuck_def waits_def split: if_splits phase.splits)

lemma run_stuck: "service_run z n n' \<Longrightarrow> stuck (conns n c) \<Longrightarrow> conns n' c = conns n c"
  by (induction rule: service_run.induct) (simp, metis step_stuck)

text \<open>As many of them as there are permits, and no connection is let in any more.\<close>

lemma locked_out:
  assumes "permits_ok n" "card {c. stuck (conns n c)} = MAX_CONNECTIONS" "service_run z n n'"
  shows "permits n' = 0 \<and> conns n' = conns n"
proof -
  have bound: "permits m = 0 \<and> dom (conns m) = {c. stuck (conns n c)}"
    if "permits_ok m" "\<And>c. stuck (conns n c) \<Longrightarrow> conns m c = conns n c" for m
  proof -
    have sub: "{c. stuck (conns n c)} \<subseteq> dom (conns m)" using that(2) by (auto simp: stuck_def split: option.splits)
    have "finite (dom (conns m))" "permits m + card (dom (conns m)) = MAX_CONNECTIONS"
      using that(1) by (simp_all add: permits_ok_def)
    moreover have "MAX_CONNECTIONS \<le> card (dom (conns m))"
      using card_mono [OF \<open>finite (dom (conns m))\<close> sub] assms(2) by simp
    ultimately show ?thesis using card_subset_eq [OF _ sub] assms(2) by simp
  qed
  have "permits_ok n'"
    using assms(3,1) by (induction rule: service_run.induct) (auto dest: step_permits)
  then have n': "permits n' = 0" "dom (conns n') = {c. stuck (conns n c)}"
    using bound [of n'] run_stuck [OF assms(3)] by auto
  have n: "dom (conns n) = {c. stuck (conns n c)}" using bound [OF assms(1)] by simp
  have "conns n' c = conns n c" for c
  proof (cases "stuck (conns n c)")
    case False
    then have "c \<notin> dom (conns n')" "c \<notin> dom (conns n)" using n'(2) n by auto
    then show ?thesis by (metis domIff)
  qed (use run_stuck [OF assms(3)] in blast)
  then show ?thesis using n'(1) by auto
qed

text \<open>Clients that send one byte each get there.\<close>

definition filled :: "nat \<Rightarrow> service \<Rightarrow> service" where
  "filled k n = n\<lparr> permits := permits n - k, conns := (\<lambda>c. if c < k then Some (Handshaking [] [0]) else None) \<rparr>"

lemma one_byte: "decode_packet [0] = None" "\<not> is_ssl_request [0]"
  by (simp_all add: is_ssl_request_def decode_packet_def)

lemma run_filled: "conns n = Map.empty \<Longrightarrow> k \<le> permits n \<Longrightarrow> service_run z n (filled k n)"
proof (induction k)
  case 0
  then have "filled 0 n = n" by (simp add: filled_def)
  then show ?case by (simp add: service_run.started)
next
  case (Suc k)
  let ?a = "now_at k (Greeted []) ((filled k n)\<lparr> permits := permits (filled k n) - 1 \<rparr>)"
  have "service_step z (filled k n) (Sent k (greeting_packet (with_tls z) [])) ?a"
    using Suc.prems by (intro service_step.accept) (simp_all add: filled_def)
  moreover have "service_step z ?a Quiet (now_at k (Handshaking [] [0]) ?a)"
    by (intro service_step.plain [where scramble = "[]"]) (simp_all add: now_at_def one_byte)
  moreover have "now_at k (Handshaking [] [0]) ?a = filled (Suc k) n"
    by (auto simp: filled_def now_at_def less_Suc_eq intro!: service.equality)
  ultimately show ?case using Suc by (metis Suc_leD service_run.further)
qed

lemma filled_stuck: "card {c. stuck (conns (filled k n) c)} = k"
proof -
  have "{c. stuck (conns (filled k n) c)} = {..<k}" by (auto simp: filled_def stuck_def one_byte split: if_splits)
  then show ?thesis by simp
qed

section \<open>One connection from its start\<close>

text \<open>Without TLS, a connection is greeted and then served as its handshake and its session say.\<close>

lemma plain_connection:
  assumes "r \<noteq> []"
  shows "handle_connection v cfg None scramble (r # rs) ce =
    map_option (apsnd ((@) (greeting_packet False scramble))) (run_authenticated_session v cfg scramble r rs ce)"
  using assms by (simp add: handle_connection_def)

text \<open>A client that sends its TLS handshake with the request for it is served as one that did not send it.\<close>

lemma tls_rest_lost:
  assumes "is_ssl_request r"
  shows "handle_connection v cfg (Some acc) scramble ((r @ hello) # rs) ce =
    handle_connection v cfg (Some acc) scramble (r # rs) ce"
proof -
  obtain p q rest where d: "decode_packet r = Some (p, q, rest)"
    using assms by (auto simp: is_ssl_request_def split: option.splits)
  then have "r \<noteq> []" by (auto simp: decode_packet_def)
  moreover have "is_ssl_request (r @ hello)"
    using assms by (simp add: is_ssl_request_def d decode_packet_append [OF d])
  ultimately show ?thesis using assms by (simp add: handle_connection_def)
qed

lemma missing_certificate:
  assumes "tls_cert (tls cfg) = Some f" "tls_key (tls cfg) = Some k" "read_text fs f = None"
  shows "tls_acceptor x cfg fs = None"
  using assms by (simp add: tls_acceptor_def make_tls_acceptor_def)

end
