(* ===== verification/Program.thy ===== *)
theory Program
  imports Restart Service_Laws Host_Laws
begin

text \<open>
  The program from start to end (\<open>async_main\<close> of src/main.rs), over the world it runs in: the files,
  the host, and the process when there is one. A start reads the configuration, opens the ports, sets
  up the ICMP rules, reads the dump of the last run and makes the listeners; then connections and
  requests are served, checkpoints are written, and a signal, an error of a listener or a kill ends
  the process. A step of the service and a checkpoint see the engine between two commands.
\<close>

section \<open>The program\<close>

text \<open>What a run finds: the programs of the host, the parser of the configuration, the arguments, the
  switch for a dry run, the crates. The clock, the order of hash maps and the CPU may differ in each
  run and are the parameter \<open>v\<close> of a start.\<close>

record ('h, 'cert, 'key, 'acc) platform =
  pl_tools :: "'h sys"
  pl_toml :: "string \<Rightarrow> config_file option"
  pl_args :: "string list"
  pl_dry_run :: bool
  pl_web :: web
  pl_tls :: "('cert, 'key, 'acc) tls_crates"

record program =
  pr_firewall :: firewall
  pr_guard :: icmp_guard
  pr_setting :: setting
  pr_service :: service

record 'h world =
  disk :: files
  host :: 'h
  running :: "program option"

text \<open>A configuration that cannot be read ends the start before it changes anything; a dump whose
  restore panics ends it with the ports open, and the guard of the ICMP rules is dropped.\<close>

definition async_main :: "('h, 'cert, 'key, 'acc) platform \<Rightarrow> env \<Rightarrow> bool \<Rightarrow> u32 \<Rightarrow> files \<times> 'h \<Rightarrow> program option \<times> files \<times> 'h" where
  "async_main pl v writable pid st =
     (case load_config (pl_toml pl) (pl_args pl) (fst st) of
        None \<Rightarrow> (None, st)
      | Some cfg \<Rightarrow>
          let ((fw, g), st) = start_host (pl_tools pl) (pl_dry_run pl) writable pid cfg st;
              z = \<lparr> in_env = v, in_web = pl_web pl, in_config = cfg,
                    with_tls = tls_acceptor (pl_tls pl) cfg (fst st) \<noteq> None \<rparr>
          in (case start_service z (fst st) of
                None \<Rightarrow> (None, teardown_icmp (pl_tools pl) g st)
              | Some n \<Rightarrow> (Some \<lparr> pr_firewall = fw, pr_guard = g, pr_setting = z, pr_service = n \<rparr>, st)))"

definition engine_now :: "program \<Rightarrow> engine" where
  "engine_now p = snd (shared (pr_service p))"

definition dump_now :: "program \<Rightarrow> string" where
  "dump_now p = dump_sql (in_env (pr_setting p)) (engine_now p)"

text \<open>A checkpoint and a stop are events with the engine they dump and how writing the file went.\<close>

datatype program_event =
    Boots | Serves event | Ticks write_outcome engine | Stops write_outcome engine | Fails | Dies

inductive program_step :: "('h, 'cert, 'key, 'acc) platform \<Rightarrow> env set \<Rightarrow> 'h world \<Rightarrow> program_event \<Rightarrow> 'h world \<Rightarrow> bool" for pl V where
  boot:
    "running w = None \<Longrightarrow> v \<in> V \<Longrightarrow> async_main pl v writable pid (disk w, host w) = (r, fs, h) \<Longrightarrow>
     program_step pl V w Boots \<lparr> disk = fs, host = h, running = r \<rparr>"
| serve:
    "running w = Some p \<Longrightarrow> service_step (pr_setting p) (pr_service p) ev n \<Longrightarrow>
     program_step pl V w (Serves ev) (w\<lparr> running := Some (p\<lparr> pr_service := n \<rparr>) \<rparr>)"
| tick:
    "running w = Some p \<Longrightarrow> 0 < checkpoint_interval_secs (in_config (pr_setting p)) \<Longrightarrow>
     program_step pl V w (Ticks wr (engine_now p))
       (w\<lparr> disk := checkpoint wr renamed (dump_now p) (in_config (pr_setting p)) (disk w) \<rparr>)"
| stop:
    "running w = Some p \<Longrightarrow>
     stop_host (pl_tools pl) wr (dump_now p) (in_config (pr_setting p)) (pr_firewall p) (disk w, host w) = (fs, h) \<Longrightarrow>
     program_step pl V w (Stops wr (engine_now p)) \<lparr> disk = fs, host = h, running = None \<rparr>"
| fail: \<comment> \<open>a listener cannot bind its port: \<open>async_main\<close> returns and the guard is dropped\<close>
    "running w = Some p \<Longrightarrow> teardown_icmp (pl_tools pl) (pr_guard p) (disk w, host w) = (fs, h) \<Longrightarrow>
     program_step pl V w Fails \<lparr> disk = fs, host = h, running = None \<rparr>"
| die: "running w = Some p \<Longrightarrow> program_step pl V w Dies (w\<lparr> running := None \<rparr>)"

inductive program_run :: "('h, 'cert, 'key, 'acc) platform \<Rightarrow> env set \<Rightarrow> 'h world \<Rightarrow> program_event list \<Rightarrow> 'h world \<Rightarrow> bool" for pl V where
  nothing: "program_run pl V w [] w"
| then_step: "program_run pl V w evs w1 \<Longrightarrow> program_step pl V w1 ev w2 \<Longrightarrow> program_run pl V w (evs @ [ev]) w2"

lemma program_run_append:
  assumes "program_run pl V w evs w1" "program_run pl V w1 evs' w2"
  shows "program_run pl V w (evs @ evs') w2"
  using assms(2,1) by (induction rule: program_run.induct) (auto simp flip: append_assoc intro: program_run.then_step)

inductive_cases boot_cases: "program_step pl V w Boots w'"

section \<open>What the file of the dump holds\<close>

text \<open>The configuration, the dump and the lock are different files.\<close>

definition files_apart :: "('h, 'cert, 'key, 'acc) platform \<Rightarrow> config \<Rightarrow> bool" where
  "files_apart pl cfg \<longleftrightarrow>
     config_path (pl_args pl) \<notin> {dump_path cfg, dump_path cfg @ ''.tmp'', LOCK_FILE} \<and> dump_path cfg \<noteq> LOCK_FILE"

text \<open>The configuration stays, a process runs with it, and the file is not there or is the dump of a plain
  engine.\<close>

definition dump_ok :: "('h, 'cert, 'key, 'acc) platform \<Rightarrow> env set \<Rightarrow> config \<Rightarrow> 'h world \<Rightarrow> bool" where
  "dump_ok pl V cfg w \<longleftrightarrow>
     load_config (pl_toml pl) (pl_args pl) (disk w) = Some cfg \<and>
     (\<forall>p. running w = Some p \<longrightarrow> in_config (pr_setting p) = cfg \<and> in_env (pr_setting p) \<in> V) \<and>
     (disk w (dump_path cfg) = None \<or> (\<exists>v\<in>V. \<exists>e. plain_engine e \<and> disk w (dump_path cfg) = Some (Some (dump_sql v e))))"

lemma load_config_cong:
  "fs' (config_path args) = fs (config_path args) \<Longrightarrow> load_config toml args fs' = load_config toml args fs"
  by (simp add: load_config_def)

lemma setup_files:
  assumes "setup_icmp sys writable pid en (fs, h) = (g, fs', h')" "f \<noteq> LOCK_FILE"
  shows "fs' f = fs f"
  using assms by (auto simp: setup_icmp_def write_lock_def Let_def split: if_splits prod.splits)

lemma start_files:
  assumes "start_host sys dry writable pid cfg (fs, h) = (r, fs', h')" "f \<noteq> LOCK_FILE"
  shows "fs' f = fs f"
  using assms by (auto simp: start_host_def split: prod.splits dest: setup_files)

lemma teardown_files:
  assumes "teardown_icmp sys g (fs, h) = (fs', h')" "f \<noteq> LOCK_FILE"
  shows "fs' f = fs f"
  using assms by (auto simp: teardown_icmp_def split: if_splits)

lemma async_main_files:
  assumes "async_main pl v writable pid (fs, h) = (r, fs', h')" "f \<noteq> LOCK_FILE"
  shows "fs' f = fs f"
proof (cases "load_config (pl_toml pl) (pl_args pl) fs")
  case (Some cfg)
  obtain fw g fs1 h1 where "start_host (pl_tools pl) (pl_dry_run pl) writable pid cfg (fs, h) = ((fw, g), fs1, h1)"
    by (metis prod.exhaust)
  then show ?thesis
    using assms Some start_files teardown_files
    by (fastforce simp: async_main_def Let_def split: option.splits)
qed (use assms in \<open>simp add: async_main_def\<close>)

lemma async_main_setting:
  assumes "async_main pl v writable pid (fs, h) = (Some p, fs', h')"
  obtains cfg where "load_config (pl_toml pl) (pl_args pl) fs = Some cfg" "in_config (pr_setting p) = cfg"
    "in_env (pr_setting p) = v" "start_service (pr_setting p) fs' = Some (pr_service p)"
proof (cases "load_config (pl_toml pl) (pl_args pl) fs")
  case (Some cfg)
  obtain fw g fs1 h1 where "start_host (pl_tools pl) (pl_dry_run pl) writable pid cfg (fs, h) = ((fw, g), fs1, h1)"
    by (metis prod.exhaust)
  then show thesis
    using assms Some by (intro that [of cfg]) (auto simp: async_main_def Let_def split: option.splits)
qed (use assms in \<open>simp add: async_main_def\<close>)

lemma checkpoint_files:
  "f \<notin> {dump_path cfg, dump_path cfg @ ''.tmp''} \<Longrightarrow> checkpoint wr renamed dump cfg fs f = fs f"
  by (cases wr) (simp_all add: checkpoint_def write_file_def Let_def)

lemma stop_files:
  assumes "stop_host sys wr dump cfg fw (fs, h) = (fs', h')" "f \<noteq> dump_path cfg"
  shows "fs' f = fs f"
  using assms by (cases wr) (auto simp: stop_host_def write_file_def split: prod.splits)

text \<open>The engines that are dumped are plain, and the dump at the end is written whole.\<close>

definition plain_dump :: "program_event \<Rightarrow> bool" where
  "plain_dump ev \<longleftrightarrow>
     (case ev of Ticks wr e \<Rightarrow> plain_engine e | Stops wr e \<Rightarrow> plain_engine e \<and> (\<forall>left. wr \<noteq> Torn left) | _ \<Rightarrow> True)"

lemma step_dump_ok:
  assumes "program_step pl V w ev w'" "dump_ok pl V cfg w" "files_apart pl cfg" "plain_dump ev"
  shows "dump_ok pl V cfg w'"
proof -
  let ?load = "load_config (pl_toml pl) (pl_args pl)"
  have kept: "?load fs = Some cfg" if "fs (config_path (pl_args pl)) = disk w (config_path (pl_args pl))" for fs
    using load_config_cong [of fs "pl_args pl" "disk w", OF that] assms(2) by (simp add: dump_ok_def)
  have lock: "LOCK_FILE \<noteq> config_path (pl_args pl)" "dump_path cfg \<noteq> LOCK_FILE"
    and path: "config_path (pl_args pl) \<notin> {dump_path cfg, dump_path cfg @ ''.tmp''}"
    using assms(3) by (auto simp: files_apart_def)
  show ?thesis
    using assms(1)
  proof cases
    case (boot v writable pid r fs h)
    then have same: "fs f = disk w f" if "f \<noteq> LOCK_FILE" for f using async_main_files that by metis
    have "in_config (pr_setting p) = cfg \<and> in_env (pr_setting p) \<in> V" if "r = Some p" for p
      using boot that assms(2) async_main_setting [of pl v writable pid "disk w" "host w" p fs h]
      by (auto simp: dump_ok_def)
    then show ?thesis using boot same kept lock assms(2) by (simp add: dump_ok_def)
  next
    case (serve p ev' n)
    then show ?thesis using assms(2) by (simp add: dump_ok_def)
  next
    case (tick p wr renamed)
    have p: "in_config (pr_setting p) = cfg" "in_env (pr_setting p) \<in> V" using tick(3) assms(2) by (auto simp: dump_ok_def)
    moreover have "?load (disk w') = Some cfg" using kept checkpoint_files [OF path] p(1) tick by simp
    moreover have "plain_engine (engine_now p)" using assms(4) tick(1) by (simp add: plain_dump_def)
    ultimately show ?thesis using tick assms(2) by (auto simp: dump_ok_def checkpoint_dump dump_now_def)
  next
    case (stop p wr fs h)
    have p: "in_config (pr_setting p) = cfg" "in_env (pr_setting p) \<in> V" using stop(3) assms(2) by (auto simp: dump_ok_def)
    moreover have "?load fs = Some cfg" using kept stop_files [OF stop(4)] path p(1) by simp
    moreover have plain: "plain_engine (engine_now p)" "wr = Written"
      using assms(4) stop(1) by (cases wr; auto simp: plain_dump_def)+
    then have "fs (dump_path cfg) = Some (Some (dump_now p))"
      using stop(4) p(1) stop_dump [of "pl_tools pl" wr "dump_now p" cfg "pr_firewall p" "disk w" "host w"] by simp
    ultimately show ?thesis using stop(2) plain(1) by (auto simp: dump_ok_def dump_now_def)
  next
    case (fail p fs h)
    then have same: "fs f = disk w f" if "f \<noteq> LOCK_FILE" for f using teardown_files that by metis
    then show ?thesis using fail kept lock assms(2) by (simp add: dump_ok_def)
  next
    case (die p)
    then show ?thesis using assms(2) by (simp add: dump_ok_def)
  qed
qed

lemma run_dump_ok:
  assumes "program_run pl V w evs w'" "dump_ok pl V cfg w" "files_apart pl cfg" "\<forall>ev\<in>set evs. plain_dump ev"
  shows "dump_ok pl V cfg w'"
  using assms by (induction rule: program_run.induct) (auto intro: step_dump_ok)

section \<open>What is there after a start\<close>

lemma boot_databases:
  assumes "program_step pl V w Boots w'" "running w' = Some p" "dump_ok pl V cfg w" "files_apart pl cfg"
    and "parser_laws V" "n \<notin> set builtin_schemas" "backtick \<notin> set n"
  shows "databases (engine_now p) n = None"
proof -
  obtain v writable pid where v: "v \<in> V" and b: "async_main pl v writable pid (disk w, host w) = (Some p, disk w', host w')"
    using boot_cases [OF assms(1)] assms(2) by (metis (no_types, lifting) world.select_convs(1,2,3))
  obtain cfg' where "load_config (pl_toml pl) (pl_args pl) (disk w) = Some cfg'" "in_config (pr_setting p) = cfg'"
    and env: "in_env (pr_setting p) = v" and s: "start_service (pr_setting p) (disk w') = Some (pr_service p)"
    using async_main_setting [OF b] .
  then have cfg: "in_config (pr_setting p) = cfg" using assms(3) by (simp add: dump_ok_def)
  have e: "start_engine v cfg (disk w') = Some (shared (pr_service p))"
    using s env cfg by (cases "pr_service p"; cases "start_engine v cfg (disk w')") (simp_all add: start_service_def)
  have same: "disk w' (dump_path cfg) = disk w (dump_path cfg)"
    using async_main_files [OF b] assms(4) by (simp add: files_apart_def)
  consider "disk w (dump_path cfg) = None"
    | v' x where "v' \<in> V" "plain_engine x" "disk w (dump_path cfg) = Some (Some (dump_sql v' x))"
    using assms(3) by (auto simp: dump_ok_def)
  then show ?thesis
  proof cases
    case 1
    then have "([], new_engine (env_sha1 v) (root_password (auth cfg))) = shared (pr_service p)"
      using e same by (simp add: start_engine_def Let_def)
    then have "snd (shared (pr_service p)) = new_engine (env_sha1 v) (root_password (auth cfg))"
      by (metis snd_conv)
    then show ?thesis using assms(6) by (simp add: new_engine_def engine_now_def)
  next
    case (2 v' x)
    have "reads_dumps v (env_crates v')" "hex_digits (env_crates v')"
      using assms(5) v 2(1) by (simp_all add: parser_laws_def)
    then show ?thesis using 2(2,3) same unfolding engine_now_def by (intro start_loses [OF e _ _ _ _ assms(6,7)]) simp_all
  qed
qed

section \<open>What every process keeps\<close>

text \<open>The service of a process is one that was started from some files and has run since, so that what
  the service keeps holds in every world the program reaches.\<close>

definition served :: "program \<Rightarrow> bool" where
  "served p \<longleftrightarrow> (\<exists>fs n. start_service (pr_setting p) fs = Some n \<and> service_run (pr_setting p) n (pr_service p))"

text \<open>What the service does, the program can do.\<close>

lemma serves:
  assumes "service_run (pr_setting p) n n'" "running w = Some (p\<lparr> pr_service := n \<rparr>)"
  shows "\<exists>evs. program_run pl V w evs (w\<lparr> running := Some (p\<lparr> pr_service := n' \<rparr>) \<rparr>)"
  using assms
proof (induction rule: service_run.induct)
  case (started n)
  then have "w\<lparr> running := Some (p\<lparr> pr_service := n \<rparr>) \<rparr> = w" by simp
  then show ?case using program_run.nothing [of pl V w] by metis
next
  case (further n n' ev n'')
  let ?w = "w\<lparr> running := Some (p\<lparr> pr_service := n' \<rparr>) \<rparr>"
  obtain evs where run: "program_run pl V w evs ?w" using further.IH further.prems by blast
  have "program_step pl V ?w (Serves ev) (?w\<lparr> running := Some ((p\<lparr> pr_service := n' \<rparr>)\<lparr> pr_service := n'' \<rparr>) \<rparr>)"
    using further.hyps(2) by (intro program_step.serve) simp_all
  then show ?case using program_run.then_step [OF run] by fastforce
qed

lemma step_served:
  assumes "program_step pl V w ev w'" "running w' = Some p" "\<And>p. running w = Some p \<Longrightarrow> served p"
  shows "served p"
  using assms(1)
proof cases
  case (boot v writable pid r fs h)
  then show ?thesis
    using assms(2) async_main_setting [of pl v writable pid "disk w" "host w" p fs h]
    by (auto simp: served_def intro: service_run.started)
next
  case (serve q ev' n)
  then obtain fs n0 where "start_service (pr_setting q) fs = Some n0" "service_run (pr_setting q) n0 (pr_service q)"
    using assms(3) [of q] by (auto simp: served_def)
  then show ?thesis using serve assms(2) service_run.further by (fastforce simp: served_def)
qed (use assms(2,3) in auto)

lemma run_served:
  "program_run pl V w evs w' \<Longrightarrow> running w = None \<Longrightarrow> running w' = Some p \<Longrightarrow> served p"
  by (induction arbitrary: p rule: program_run.induct) (auto dest: step_served)

lemma served_invariant:
  assumes "served p"
  shows "permits_ok (pr_service p)" "caches_ok (pr_service p)"
    and "root_kept (snd (shared (pr_service p)))" "others_powerless (snd (shared (pr_service p)))"
proof -
  obtain fs n where n: "start_service (pr_setting p) fs = Some n" "service_run (pr_setting p) n (pr_service p)"
    using assms by (auto simp: served_def)
  show "permits_ok (pr_service p)" "caches_ok (pr_service p)"
    using run_invariant [OF n(2) start_invariant [OF n(1)]] by blast+
  show "root_kept (snd (shared (pr_service p)))" by (rule root.run_kept [OF n new_engine_accounts(1)])
  show "others_powerless (snd (shared (pr_service p)))" by (rule powerless.run_kept [OF n new_engine_accounts(2)])
qed

end
