(* ===== verification/Spec2Isabelle.thy ===== *)
theory Spec2Isabelle
  imports Result_Shape Stale Store_Runs Program
begin

text \<open>
  RunAlexDB: a MySQL-compatible in-memory database server, written in Rust (src/src).

  The program. \<open>main.rs\<close> reads the configuration (\<open>config.rs\<close>), opens the ports of the host
  (\<open>firewall/\<close>), sets up ICMP protection (\<open>icmp_guard/\<close>), makes the engine (\<open>engine.rs\<close>), which
  reads back the dump of the last run, and starts two listeners on it: the MySQL server
  (\<open>server.rs\<close>, packets in \<open>protocol.rs\<close>, passwords in \<open>auth.rs\<close>) and the admin interface
  (\<open>webui.rs\<close>). A session turns packets into calls of \<open>execute\<close> and \<open>execute_prepared\<close>; a web
  request is one call of \<open>execute\<close>. \<open>execute\<close> recognises some statements by their text, parses the
  others (crate sqlparser, with a cache), checks the privileges and runs them on tables, which hold
  their rows, an index by primary key and column stores for the scans of \<open>simd_scan.rs\<close>.

  The theories, in the order of their imports:
  \<^item> \<open>Prelude\<close>, \<open>Rust_Text\<close>, \<open>Ieee_Double\<close>: lists with panics as options, texts, decimal numbers,
    \<open>f64\<close> on its bits with arithmetic, parsing and shortest printing.
  \<^item> \<open>Sql_Ast\<close>: the part of the parser's types the engine looks at. \<open>Values\<close>: \<open>Value\<close>, columns,
    comparison, LIKE. \<open>Dates\<close>, \<open>Functions\<close>, \<open>Eval\<close>: \<open>eval_row_expr\<close> and \<open>eval_where\<close>, here
    \<open>eval_cond\<close>.
  \<^item> \<open>Simd\<close>: \<open>simd_scan.rs\<close>, the AVX2 scans lane by lane and the hash of a query.
  \<^item> \<open>Storage\<close>, \<open>Table_Ops\<close>: a table and the operations on one table; \<open>Table_Laws\<close>, \<open>Scan_Laws\<close>:
    their invariants, and that the paths by key and by SIMD agree with the scan of the evaluator.
    \<open>Stale\<close>: what these paths miss after an UPDATE, a second key or a NULL. \<open>Store_Runs\<close>: which runs of
    statements keep the column stores in step with the rows.
  \<^item> \<open>Engine\<close>: databases, DDL, the statements on rows, snapshots. \<open>Ordering\<close>, \<open>Grouping\<close>, \<open>Joins\<close>,
    \<open>Windows\<close>, \<open>Select\<close>, \<open>Select_Laws\<close>, \<open>Result_Shape\<close>: \<open>select\<close> and its parts. \<open>Users\<close>, \<open>Catalog\<close>: accounts,
    privileges, SHOW and INFORMATION_SCHEMA. \<open>Exec\<close>, \<open>Exec_Laws\<close>: \<open>execute\<close>, the statement cache,
    the write generation. \<open>Dump\<close>, \<open>Dump_Laws\<close>, \<open>Dump_Text\<close>: \<open>dump_sql\<close>, \<open>restore_sql\<close> and what it runs, for any
    engine and, statement by statement, for one without line breaks in its names and texts.
  \<^item> \<open>Auth\<close>, \<open>Protocol\<close>: \<open>auth.rs\<close>, \<open>protocol.rs\<close>. \<open>Session\<close>, \<open>Session_Laws\<close>: the handshake and the
    command loop of one connection.
  \<^item> \<open>Config\<close>, \<open>Webui\<close>, \<open>Webui_Laws\<close>: \<open>config.rs\<close>, \<open>webui.rs\<close>. \<open>Host\<close>, \<open>Host_Laws\<close>: \<open>firewall/\<close>,
    \<open>icmp_guard/\<close>, \<open>xdp.rs\<close>, \<open>numa_pin.rs\<close> and the start and the end in \<open>main.rs\<close>.
  \<^item> \<open>Service\<close>, \<open>Service_Laws\<close>: the listener with its permits and its TLS upgrade, and the step
    relation \<open>service_step\<close> of all connections and web requests on one engine. \<open>Restart\<close>: which
    databases there are after statements, a restore and a start. \<open>Program\<close>: the process in its world,
    from the start to a signal, an error or a kill, and again.
  \<^item> This theory: the properties, each with an application to a concrete input.

  Conventions. Definitions keep the names of the source. A panic, an unwrap that fails and an index
  out of range are \<open>None\<close>; an error the client sees is \<open>QErr\<close>. Integers are words of their width and
  wrap around, as a release build does; where the source's operation panics also there (division),
  it is \<open>None\<close>. Texts are lists of bytes, case mapping is that of ASCII. Crates, the clock, random
  bytes, SHA-1, the CPU features, the programs of the host and the order of hash maps (\<open>env_walk\<close>,
  a function of the keys) are parameters: \<open>crates\<close>, \<open>env\<close>, \<open>web\<close>, \<open>tls_crates\<close>, \<open>sys\<close>. What a property
  assumes of them is a hypothesis with a name: \<open>digest20\<close> (SHA-1 gives 20 bytes), \<open>chain_laws\<close> and
  \<open>only_iptables\<close> (the documented effect of iptables), \<open>parser_laws\<close> (of the statements a dump
  writes of plain names and texts the parser keeps the quotes of a name in CREATE DATABASE, and finds no CREATE
  DATABASE in the others; the crate hex writes hexadecimal digits). \<open>chain_laws\<close> lets iptables fail to add a rule,
  but not to delete one that is there.

  What the lemmas show. Tables: the index is exact and the column stores mirror the rows, and which
  operations keep that; the table as a map from keys to rows; the paths by key, by SIMD and by
  prepared statement agree with the plain ones, and where they do not; keys given out are new.
  Queries: WHERE, ORDER BY, joins and grouping against their meaning; the rows of a result fit its
  column names; LIKE and dates. Bytes: framing, result sets, the two encoders. Accounts: who gets
  in, what REVOKE and the privilege check ensure, what GRANT and a dropped account do. Sessions: the
  split into reads does not matter, every command is answered up to one that panics, what the caches
  answer, transactions,
  when the handshake returns. The running program: permits and connections, the account root and the
  others, what a part of a packet does, what of plain databases is there after any end and a new start.
  The admin
  interface: a request needs a live session, a login opens one. The host: what is opened is closed,
  one owner of the ICMP rules. Several properties state what the code does where that is not what it
  means to do; the manifest lists these as findings.

  Loops. All recursions end by a measure, except \<open>handshake_loop\<close> (a loop that can run for ever,
  \<open>partial_function\<close>, with the exact condition under which it returns) and the value of an
  alias in HAVING (\<open>having_name_returns\<close>). The search for the shortest decimal of a float tries up to
  17 digits (9 for a single float), which tell any two floats apart; no lemma rests on it.

  Not modelled: the async runtime, timeouts within a session, logging, the HTML pages; the
  interleaving of statements inside the engine, whose locks are per database (a command is one step
  of \<open>service_step\<close>); what a panicking statement other than an UPDATE by scan leaves of
  the tables (\<open>service_step\<close> leaves it open); the delay after a failed login; text that
  is not ASCII where case or the count of characters matters (case mapping, lengths and positions of the text
  functions, \<open>_\<close> in LIKE); connections that insert into the statement cache at the same time; functions of
  sqlparser that print a node, which are parameters.
\<close>

section \<open>Concrete inputs for the witnesses\<close>

definition ex_crates :: "query crates" where
  "ex_crates =
     \<lparr> show_value = (\<lambda>v. case v of SPlaceholder s \<Rightarrow> s | _ \<Rightarrow> []), show_expr = (\<lambda>_. []),
       show_item = (\<lambda>_. []),
       show_factor = (\<lambda>t. case t of FTable n a \<Rightarrow> n | _ \<Rightarrow> []), show_args = (\<lambda>_ _ _. []), hex_encode = (\<lambda>_. []),
       f64_powf = (\<lambda>a b. a), f64_powi = (\<lambda>a n. a), f64_min = (\<lambda>a b. a), f64_max = (\<lambda>a b. b),
       f64_sum_start = f64_zero True, unix_now = 0 \<rparr>"

definition ex_columns :: "column list" where
  "ex_columns =
     [\<lparr> col_name = ''id'', col_type = CInt, nullable = False, primary_key = True \<rparr>,
      \<lparr> col_name = ''name'', col_type = CText, nullable = True, primary_key = False \<rparr>]"

definition ex_table :: table where
  "ex_table =
     \<lparr> tbl_name = ''t'', tbl_schema = ''test'', columns = ex_columns,
       rows = [[VInt 1, VText ''ann''], [VInt 2, VText ''bob'']],
       pk_col_idx = Some 0, pk_index = [''1'' \<mapsto> 0, ''2'' \<mapsto> 1],
       col_int_data = [Some [1, 2], None], col_str_data = [None, Some [''ann'', ''bob'']],
       next_auto = 3 \<rparr>"

definition ex_engine :: engine where
  "ex_engine =
     \<lparr> databases = [''test'' \<mapsto> \<lparr> db_name = ''test'', tables = [''t'' \<mapsto> ex_table] \<rparr>],
       users = Map.empty, write_gen = 0, last_insert_id = 0 \<rparr>"

definition ex_sha1 :: "u8 list \<Rightarrow> u8 list" where
  "ex_sha1 bs = take 20 (bs @ replicate 20 7)"

definition ex_insert :: string where
  "ex_insert = ''INSERT INTO t VALUES (3, NULL)''"

definition ex_values :: query where
  "ex_values = query.Query (SetValues [[EValue (SNumber ''3''), EValue SNull]]) None None None"

definition ex_env :: env where
  "ex_env =
     \<lparr> env_crates = ex_crates, env_sha1 = ex_sha1, env_avx2 = True, env_sse42 = True,
       env_parse = (\<lambda>sql. if sql = ex_insert then Inr [StInsert ''t'' [] False (Some ex_values)] else Inl ''syntax''),
       env_walk = (\<lambda>_. []) \<rparr>"

lemma ex_fields:
  "columns ex_table = ex_columns" "rows ex_table = [[VInt 1, VText ''ann''], [VInt 2, VText ''bob'']]"
  "pk_col_idx ex_table = Some 0" "pk_index ex_table = [''1'' \<mapsto> 0, ''2'' \<mapsto> 1]"
  "col_int_data ex_table = [Some [1, 2], None]" "col_str_data ex_table = [None, Some [''ann'', ''bob'']]"
  "next_auto ex_table = 3"
  by (simp_all add: ex_table_def)

lemma ex_id_column: "col_position ex_columns ''ID'' = Some 0" "col_position ex_columns ''name'' = Some 1"
  "col_position ex_columns ''id'' = Some 0"
  by code_simp+

lemma ex_show: "show_i64 1 = ''1''" "show_i64 2 = ''2''" "show_i64 3 = ''3''" "show_i64 7 = ''7''"
  by code_simp+

lemma ex_keys: "keys_of ex_crates 0 (rows ex_table) = [''1'', ''2'']"
  by (simp add: keys_of_def ex_table_def row_pk_key_def vec_get_def ex_show)

lemma ex_store: "store_ok ex_table"
  by (auto simp: store_ok_def mirrors_def ex_table_def int_cell_def str_cell_def vec_get_def
      nth_Cons' split: if_splits)

lemma ex_index: "index_ok ex_crates ex_table"
proof -
  have "exact_index [''1'', ''2''] [''1'' \<mapsto> 0, ''2'' \<mapsto> 1]"
    by (auto simp: exact_index_def nth_Cons' split: if_splits)
  moreover have "pk_col_idx ex_table = Some 0" "pk_index ex_table = [''1'' \<mapsto> 0, ''2'' \<mapsto> 1]"
    by (simp_all add: ex_table_def)
  ultimately show ?thesis by (simp add: index_ok_def ex_keys)
qed

section \<open>Properties\<close>

text \<open>C1. The SIMD path of a WHERE clause returns exactly the rows the evaluator accepts.\<close>

theorem simd_scan_exact:
  assumes "store_ok t" "scan_safe t e" "try_simd_scan avx2 t e = Some is"
  shows "is = indices_where (\<lambda>r. eval_cond x r (columns t) e = Some True) (rows t)"
  using assms by (rule try_simd_scan_where)

theorem simd_scan_exact_witness:
  "try_simd_scan True ex_table (EBinaryOp (EIdentifier ''ID'') OpGt (EValue (SNumber ''1'')) :: query expr)
     = Some [1] \<and>
   [1] = indices_where (\<lambda>r. eval_cond ex_crates r (columns ex_table)
           (EBinaryOp (EIdentifier ''ID'') OpGt (EValue (SNumber ''1''))) = Some True) (rows ex_table)"
proof -
  let ?e = "EBinaryOp (EIdentifier ''ID'') OpGt (EValue (SNumber ''1'')) :: query expr"
  have one: "parse_i64 ''1'' = Some 1" by code_simp
  have hits: "scan_gt_i64 True [1, 2] 1 = [Suc 0]" by (simp add: indices_where_def upt_conv_Cons)
  have scan: "try_simd_scan True ex_table ?e = Some [1]"
    by (simp add: try_simd_scan_def column_name_def ex_fields ex_id_column vec_get_def one
        del: scan_i64, rule hits)
  have safe: "scan_safe ex_table ?e"
    by (simp add: scan_safe_def plain_column_def column_name_def cells_agree_def one
        ex_fields ex_id_column cell_or_null_def vec_get_def agree_gt_def)
  show ?thesis by (intro conjI scan simd_scan_exact [OF ex_store safe scan])
qed

text \<open>C2. On a new engine, and after any run from it of statements as text (INSERT of values or of a query, REPLACE,
  UPDATE by key whose values have the kinds of their columns, DELETE, TRUNCATE, CREATE and DROP of databases
  and of tables, ALTER TABLE on a table with an exact index whose rows are as wide as its columns, and all
  statements that only read), of prepared statements of these kinds but UPDATE, and of ROLLBACKs, every
  column store holds exactly the cells of its column, so the scans read what the rows say. Left out are
  UPDATE by scan (C5), prepared UPDATE and CREATE TABLE AS SELECT, which leaves the stores empty.\<close>

theorem reachable_stores:
  assumes "reached (new_engine sha1 pw) e" "get_table e db t = Some tab"
  shows "store_ok tab"
  using reached_stores [OF assms(1) new_engine_stores] assms(2) by (auto simp: stores_ok_def)

definition ex_start :: engine where
  "ex_start = new_engine (\<lambda>bs. take 20 bs) ''pw''"

definition ex_started :: engine where
  "ex_started = fst (create_table ''test'' [''t'']
     [\<lparr> cd_name = ''id'', cd_type = DtInt, cd_primary = True \<rparr>] False ex_start)"

definition ex_create_table :: create_stmt where
  "ex_create_table = \<lparr> ct_parts = [''t''], ct_columns = [\<lparr> cd_name = ''id'', cd_type = DtInt, cd_primary = True \<rparr>],
     ct_if_not_exists = False, ct_query = None \<rparr>"

text \<open>CREATE TABLE, INSERT of the row 3, and a ROLLBACK to the snapshot in front of the INSERT.\<close>

theorem reachable_stores_witness:
  "\<exists>e r tab tab'. exec_stmt ex_env None (StInsert ''t'' [] False (Some ex_values)) ex_started = Some (e, r) \<and>
     get_table e ''test'' ''t'' = Some tab \<and> rows tab = [[VInt 3, Null]] \<and> store_ok tab \<and>
     get_table (restore_snapshot (take_snapshot ex_started) e) ''test'' ''t'' = Some tab' \<and> rows tab' = [] \<and> store_ok tab'"
proof -
  let ?s = "StInsert ''t'' [] False (Some ex_values)"
  let ?cols = "map make_column [\<lparr> cd_name = ''id'', cd_type = DtInt, cd_primary = True \<rparr>]"
  have started: "reached ex_start ex_started"
  proof (rule reached.stmt [OF reached.start, of ex_env None "StCreateTable ex_create_table"])
    show "exec_stmt ex_env None (StCreateTable ex_create_table) ex_start =
        Some (ex_started, snd (create_table ''test'' [''t''] (ct_columns ex_create_table) False ex_start))"
      by (simp add: exec_stmt_def ex_create_table_def or_test_def ex_started_def)
    show "stores_follow ex_env None (StCreateTable ex_create_table) ex_start"
      by (simp add: stores_follow_def ex_create_table_def)
  qed
  have tab: "get_table ex_started ''test'' ''t'' = Some (empty_table ''t'' ''test'' ?cols)"
    and dbs: "databases ex_started ''test'' \<noteq> None"
    by (simp_all add: ex_started_def ex_start_def create_table_def name_parts_def new_engine_def builtin_schemas_def
        get_table_def put_table_def new_database_def)
  have q: "qualified_name id ''test'' ''t'' = (''test'', ''t'')" by code_simp
  have three: "parse_i64 ''3'' = Some 3" by code_simp
  let ?tab = "push_row ex_crates [VInt 3, Null] (advance_auto [VInt 3, Null] (empty_table ''t'' ''test'' ?cols))"
  have "map (map (expr_to_value ex_crates)) [[EValue (SNumber ''3''), EValue SNull :: query expr]] = [[VInt 3, Null]]"
    by (simp add: three number_to_value_def)
  moreover have "insert_all ex_crates False (make_col_map ?cols []) [[VInt 3, Null]] (empty_table ''t'' ''test'' ?cols) = Some ?tab"
    by (simp add: insert_one_def build_row_def make_col_map_def)
  moreover obtain d where d: "databases ex_started ''test'' = Some d" "tables d ''t'' = Some (empty_table ''t'' ''test'' ?cols)"
    using tab by (auto simp: get_table_def bind_eq_Some_conv)
  moreover have "columns (empty_table ''t'' ''test'' ?cols) = ?cols" by (simp add: empty_table_def)
  ultimately have "insert_values ex_crates ''test'' ''t'' (Some [[EValue (SNumber ''3''), EValue SNull]]) False [] ex_started =
      Some ((put_table ''test'' ''t'' ?tab ex_started)\<lparr> last_insert_id := last_pk ?tab \<rparr>, QOk 1 (last_pk ?tab))"
    by (simp add: insert_values_def q insert_source_rows_def with_table_def q_ok_def del: insert_all.simps)
  then obtain e r where run: "exec_stmt ex_env None ?s ex_started = Some (e, r)"
    and e: "e = (put_table ''test'' ''t'' ?tab ex_started)\<lparr> last_insert_id := last_pk ?tab \<rparr>"
    by (simp add: exec_stmt_def insert_stmt_def ex_values_def or_test_def ex_env_def)
  have inserted: "reached ex_start e"
    by (rule reached.stmt [OF started run]) (simp add: stores_follow_def)
  have get: "get_table e ''test'' ''t'' = Some ?tab" using d(1) by (simp add: e get_table_def put_table_def)
  have restored: "get_table (restore_snapshot (take_snapshot ex_started) e) ''test'' ''t'' = Some (empty_table ''t'' ''test'' ?cols)"
    using tab dbs by (simp add: get_table_restore e put_table_def split: option.split)
  have "rows ?tab = [[VInt 3, Null]]" "rows (empty_table ''t'' ''test'' ?cols) = []"
    by (simp_all add: advance_auto_simps empty_table_def)
  then show ?thesis
    using run get restored reachable_stores [OF inserted [unfolded ex_start_def] get]
      reachable_stores [OF reached.rollback [OF started inserted, unfolded ex_start_def] restored] by blast
qed


lemma ex_pk_query: "pk_query ''ID'' 2 (EBinaryOp (EIdentifier ''ID'') OpEq (EValue (SNumber ''2'')))"
  by (simp add: pk_query_def ex_show)

lemma ex_int_keyed: "int_keyed ''ID'' 0 ex_table"
proof -
  have "col_position (columns ex_table) ''ID'' = Some 0" by code_simp
  then show ?thesis by (simp add: int_keyed_def ex_table_def vec_get_def)
qed




text \<open>C5. After an UPDATE by scan the paths by SIMD and by key find rows by their old values: a query through
  SIMD returns the rows, as they are now, at the places where its predicate held before the UPDATE.\<close>

theorem scan_update_unseen:
  assumes "store_ok t" "scan_safe t e" "pk_eq_key t sel = Some None"
    and "update_table x asgns sel t = Some (t', n)" "try_simd_scan avx2 t' e = Some is"
  shows "source_rows x avx2 t' (Some e) = Some (List.map_filter (vec_get (rows t'))
      (indices_where (\<lambda>r. eval_cond x r (columns t) e = Some True) (rows t))) \<and>
    pk_index t' = pk_index t"
  using scan_after_update [OF assms] by simp

definition ex_renamed :: table where
  "ex_renamed = ex_table\<lparr> rows := [[VInt 1, VText ''eve''], [VInt 2, VText ''eve'']] \<rparr>"

theorem scan_update_unseen_witness:
  "update_table ex_crates [(''name'', EValue (SSingleQuotedString ''eve''))] None ex_table = Some (ex_renamed, 2) \<and>
   source_rows ex_crates True ex_renamed
     (Some (EBinaryOp (EIdentifier ''name'') OpEq (EValue (SSingleQuotedString ''eve'')))) = Some []"
proof -
  let ?e = "EBinaryOp (EIdentifier ''name'') OpEq (EValue (SSingleQuotedString ''eve'')) :: query expr"
  have key: "pk_eq_key ex_table (None :: query expr option) = Some None" by (simp add: pk_eq_key_def ex_fields)
  have upd: "update_table ex_crates [(''name'', EValue (SSingleQuotedString ''eve''))] None ex_table = Some (ex_renamed, 2)"
    by (simp add: update_table_def key ex_fields ex_id_column eval_opt_where_def ex_renamed_def)
  have scan: "try_simd_scan True ex_renamed ?e = Some []"
    by (simp add: ex_renamed_def try_simd_scan_def column_name_def ex_fields ex_id_column vec_get_def
        indices_where_def upt_conv_Cons)
  have safe: "scan_safe ex_table ?e"
    by (simp add: scan_safe_def plain_column_def column_name_def cells_agree_def
        ex_fields ex_id_column cell_or_null_def vec_get_def agree_str_def)
  have "indices_where (\<lambda>r. eval_cond ex_crates r (columns ex_table) ?e = Some True) (rows ex_table) = []"
    by (simp add: indices_where_def ex_fields upt_conv_Cons eval_cond_compare compare_op_def lookup_ident_def
        ex_id_column cell_or_null_def vec_get_def)
  then show ?thesis using scan_update_unseen [OF ex_store safe key upd scan] upd by (simp add: map_filter_simps)
qed

text \<open>C6. A row to which an UPDATE by key gives a key that was not there is in the table with that key, and no
  SELECT, UPDATE or DELETE by that key finds it.\<close>

theorem rekeyed_row_unfound:
  assumes "pk_query c k w" "pk_query c k' w'" "int_keyed c p t" "index_ok x t"
    and "show_i64 k \<in> set (keys_of x p (rows t))" "show_i64 k' \<notin> set (keys_of x p (rows t))"
    and "selection s = Some w'"
  shows "\<exists>t'. update_table x [(c, EValue (SNumber (show_i64 k')))] (Some w) t = Some (t', 1) \<and>
    (\<exists>r\<in>set (rows t'). vec_get r p = Some (VInt k')) \<and>
    update_table x asgns (Some w') t' = Some (t', 0) \<and> delete_table x (Some w') t' = Some (t', 0) \<and>
    (\<exists>ns. select_columns x avx2 t' s ob lim off = Some (QRows ns []))"
  using rekeyed_row_lost [OF assms(1-6)] assms(7) by blast

theorem rekeyed_row_unfound_witness:
  "\<exists>t'. update_table ex_crates [(''ID'', EValue (SNumber ''7''))]
       (Some (EBinaryOp (EIdentifier ''ID'') OpEq (EValue (SNumber ''2'')))) ex_table = Some (t', 1) \<and>
     (\<exists>r\<in>set (rows t'). vec_get r 0 = Some (VInt 7)) \<and>
     delete_table ex_crates (Some (EBinaryOp (EIdentifier ''ID'') OpEq (EValue (SNumber ''7'')))) t' = Some (t', 0)"
proof -
  let ?w = "EBinaryOp (EIdentifier ''ID'') OpEq (EValue (SNumber ''7'')) :: query expr"
  have q: "pk_query ''ID'' 7 ?w" by (simp add: pk_query_def ex_show)
  have k: "show_i64 2 \<in> set (keys_of ex_crates 0 (rows ex_table))"
    "show_i64 7 \<notin> set (keys_of ex_crates 0 (rows ex_table))" by (simp_all add: ex_keys ex_show)
  show ?thesis
    using rekeyed_row_unfound [OF ex_pk_query q ex_int_keyed ex_index k,
        of "Select False [SelWildcard] [] (Some ?w) None (GroupExprs [])" "[]" True None None None]
    by (auto simp: ex_show)
qed

text \<open>C8. A table with an exact index refines a map from keys to rows: the index finds the map's entries,
  a deletion by key removes one, and REPLACE INTO writes its rows one after the other, never panics and
  leaves the index exact, so that the next operation refines the map again.\<close>

theorem table_refines_map:
  assumes "pk_col_idx t = Some p" "index_ok x t"
  shows "(\<forall>k. table_map x p t k = map_option ((!) (rows t)) (pk_index t k)) \<and>
    (\<forall>k. table_map x p (delete_key x k t) = (table_map x p t)(k := None) \<and> index_ok x (delete_key x k t)) \<and>
    (\<exists>t'. insert_all x True [] srcs t = Some t' \<and> pk_col_idx t' = Some p \<and> index_ok x t' \<and>
      table_map x p t' = fold (\<lambda>r m. m(row_pk_key x r p \<mapsto> r)) srcs (table_map x p t))"
  using table_map_lookup [OF assms] table_map_delete [OF assms] delete_index_ok [OF assms(2,1)]
    insert_all_map [OF assms, of srcs] by simp

theorem table_refines_map_witness:
  "\<exists>t'. insert_all ex_crates True [] [[VInt 2, VText ''eve''], [VInt 3, VText ''sue'']] ex_table = Some t' \<and>
        index_ok ex_crates t' \<and>
        table_map ex_crates 0 t' =
          [''1'' \<mapsto> [VInt 1, VText ''ann''], ''2'' \<mapsto> [VInt 2, VText ''eve''], ''3'' \<mapsto> [VInt 3, VText ''sue'']]"
proof -
  have pk: "pk_col_idx ex_table = Some 0" by (simp add: ex_table_def)
  have "table_map ex_crates 0 ex_table =
      [''1'' \<mapsto> [VInt 1, VText ''ann''], ''2'' \<mapsto> [VInt 2, VText ''bob'']]"
    by (auto simp: table_map_def keyed_rows_def ex_fields row_pk_key_def vec_get_def ex_show fun_eq_iff)
  then show ?thesis
    using table_refines_map [OF pk ex_index, of "[[VInt 2, VText ''eve''], [VInt 3, VText ''sue'']]"]
    by (auto simp: row_pk_key_def vec_get_def ex_show)
qed

text \<open>REPLACE INTO on a table whose index is exact does not panic, keeps the index exact and
  so keeps the keys unique, for any source rows.\<close>

theorem replace_keeps_keys:
  assumes "pk_col_idx t = Some p" "index_ok x t"
  shows "\<exists>t'. insert_all x True col_map srcs t = Some t' \<and> index_ok x t' \<and>
              distinct (keys_of x p (rows t'))"
  using insert_all_replace [OF assms, of col_map srcs] index_ok_SomeD(2) by blast

theorem replace_keeps_keys_witness:
  "\<exists>t'. insert_all ex_crates True [] [[VInt 2, VText ''eve''], [VInt 2, VText ''sue'']] ex_table = Some t' \<and>
        index_ok ex_crates t' \<and> distinct (keys_of ex_crates 0 (rows t'))"
proof -
  have "pk_col_idx ex_table = Some 0" by (simp add: ex_table_def)
  then show ?thesis using ex_index by (rule replace_keeps_keys)
qed






text \<open>C14. The three AVX2 scans of an integer column return what the scalar loops return.\<close>

theorem avx2_scans_scalar:
  "scan_eq_i64 True data k = scan_eq_i64 False data k \<and>
   scan_gt_i64 True data k = scan_gt_i64 False data k \<and>
   scan_lt_i64 True data k = scan_lt_i64 False data k"
  by simp

text \<open>The AVX2 scan of a text column (32-byte padded compare) finds exactly the equal texts.\<close>

theorem avx2_text_scan:
  "scan_eq_str avx2 data target = filter (\<lambda>i. data ! i = target) [0..<length data]"
  by (simp add: indices_where_def)

text \<open>ROLLBACK after any run of row statements puts back every table of every database.\<close>

theorem rollback_restores:
  assumes "(dml_stmt x)\<^sup>*\<^sup>* e e'"
  shows "get_table (restore_snapshot (take_snapshot e) e') db t = get_table e db t"
  using assms by (rule rollback_tables)

theorem rollback_restores_witness:
  "\<exists>e' r. delete_stmt ex_crates ''test'' ''t'' None ex_engine = Some (e', r) \<and>
     get_table e' ''test'' ''t'' \<noteq> get_table ex_engine ''test'' ''t'' \<and>
     get_table (restore_snapshot (take_snapshot ex_engine) e') ''test'' ''t'' = Some ex_table"
proof -
  have q: "qualified_name (trim_char backtick) ''test'' ''t'' = (''test'', ''t'')" by code_simp
  have del: "delete_table ex_crates None ex_table =
      Some (retain_rows ex_crates [] ex_table, 2)"
    by (simp add: delete_table_def pk_eq_key_def ex_table_def keep_row_def)
  have tab: "get_table ex_engine ''test'' ''t'' = Some ex_table"
    by (simp add: ex_engine_def get_table_def)
  obtain e' r where e': "delete_stmt ex_crates ''test'' ''t'' None ex_engine = Some (e', r)"
    and eq: "e' = put_table ''test'' ''t'' (retain_rows ex_crates [] ex_table) ex_engine"
    using del by (simp add: delete_stmt_def q with_table_def ex_engine_def)
  have "get_table e' ''test'' ''t'' = Some (retain_rows ex_crates [] ex_table)"
    unfolding eq by (simp add: get_put_table ex_engine_def)
  moreover have "rows (retain_rows ex_crates [] ex_table) \<noteq> rows ex_table"
    by (simp add: ex_table_def)
  moreover have "(dml_stmt ex_crates)\<^sup>*\<^sup>* ex_engine e'" using e' by (blast intro: dml_stmt.delete)
  ultimately show ?thesis using e' tab rollback_restores by (metis option.inject)
qed

text \<open>C16. ALTER TABLE (adding, dropping, renaming columns, in any order, up to the first error)
  keeps a well-formed table well-formed: stores, index, key column and row widths.\<close>

theorem alter_keeps_table:
  assumes "table_ok x t"
  shows "table_ok x (fst (alter_table opers t))"
  using assms by (rule alter_table_ok)

theorem alter_keeps_table_witness:
  "table_ok ex_crates (fst (alter_table
     [AddColumn ''age'' DtInt, DropColumn ''name'', RenameColumn ''age'' ''years''] ex_table))"
proof -
  have "table_ok ex_crates ex_table"
    using ex_store ex_index by (simp add: table_ok_def ex_table_def ex_columns_def)
  then show ?thesis by (rule alter_keeps_table)
qed

text \<open>C17. Day numbers and civil dates are inverse, both ways, from 1970 to the end of the year \<open>2 ^ 32 - 1\<close>, leap
  years included: a valid date is the date of its day number, and a day number whose date is before the year
  \<open>2 ^ 32\<close> is the day number of its date, which is valid.\<close>

theorem dates_inverse:
  assumes "valid_date y m d" "days_to_ymd n = (y', m', d')" "y' < 2 ^ 32"
  shows "days_to_ymd (unat (ymd_to_days (of_nat y) (of_nat m) (of_nat d))) = (y, m, d) \<and>
    valid_date y' m' d' \<and> unat (ymd_to_days (of_nat y') (of_nat m') (of_nat d')) = n"
  using days_ymd_roundtrip [OF assms(1)] ymd_days_roundtrip [OF assms(2,3)] by blast

theorem dates_inverse_witness:
  "days_to_ymd (unat (ymd_to_days (of_nat 2024) (of_nat 2) (of_nat 29))) = (2024, 2, 29) \<and>
   valid_date 1970 3 1 \<and> unat (ymd_to_days (of_nat 1970) (of_nat 3) (of_nat 1)) = 59"
proof -
  have "valid_date 2024 2 29" by (simp add: valid_date_def month_days_def leap_def)
  moreover have "days_to_ymd 59 = (1970, 3, 1)" by code_simp
  ultimately show ?thesis using dates_inverse [of 2024 2 29 59 1970 3 1] by simp
qed

text \<open>C18. LIKE decides the declarative meaning of a pattern: \<open>%\<close> any text, \<open>_\<close> one character,
  anything else itself up to case.\<close>

theorem like_decides: "like_match v p \<longleftrightarrow> like_sem v p"
  using like_sem_sound like_sem_complete by (auto simp: like_match_def)

text \<open>NOT distributes over AND and OR and cancels, panics included.\<close>

theorem where_logic:
  "eval_cond x row cols (EUnaryOp OpNot (EBinaryOp l OpAnd r)) =
     eval_cond x row cols (EBinaryOp (EUnaryOp OpNot l) OpOr (EUnaryOp OpNot r)) \<and>
   eval_cond x row cols (EUnaryOp OpNot (EBinaryOp l OpOr r)) =
     eval_cond x row cols (EBinaryOp (EUnaryOp OpNot l) OpAnd (EUnaryOp OpNot r)) \<and>
   eval_cond x row cols (EUnaryOp OpNot (EUnaryOp OpNot l)) = eval_cond x row cols l"
  by (intro conjI where_not_and where_not_or where_not_not)

text \<open>C19. Framing: a packet below 16 MiB is read back with its sequence number and the rest of the
  buffer, and no strict prefix of it is taken for a packet.\<close>

theorem packet_framing:
  assumes "length p < 2 ^ 24"
  shows "decode_packet (encode_packet p seq @ rest) = Some (p, seq, rest) \<and>
    (\<forall>k < length (encode_packet p seq). decode_packet (take k (encode_packet p seq)) = None)"
  using decode_encode_packet [OF assms] decode_partial_packet [OF assms] by blast

theorem packet_framing_witness:
  "decode_packet (encode_packet [0x03, 0x41] 0 @ [0x01]) = Some ([0x03, 0x41], 0, [0x01]) \<and>
   decode_packet (take 5 (encode_packet [0x03, 0x41] 0)) = None"
proof -
  have p: "length [0x03, 0x41 :: u8] < 2 ^ 24" by simp
  have "5 < length (encode_packet [0x03, 0x41] 0)" by (simp add: encode_packet_def len24_def)
  then show ?thesis using packet_framing [OF p, of 0 "[0x01]"] by blast
qed

text \<open>C20. A text result set written into the connection's buffer is, for a client that decodes the
  stream, the column count, one definition per column, EOF, one packet per row, EOF, numbered
  consecutively modulo 256, with nothing left over.\<close>

theorem result_set_stream:
  assumes "\<forall>p\<in>set (result_packets text_row cols rs). length p < 2 ^ 24"
  shows "decode_all (build_result_into x [] (QRows cols rs) seq) =
         (numbered seq (result_packets text_row cols rs), [])"
  using decode_all_frames [OF assms, of "[]" seq]
  by (simp add: build_result_into_def row_frames decode_packet_def)

theorem result_set_stream_witness:
  "snd (decode_all (build_result_into ex_crates [] (QRows [''a''] [[Some ''1''], [None]]) 1)) = [] \<and>
   length (fst (decode_all (build_result_into ex_crates [] (QRows [''a''] [[Some ''1''], [None]]) 1))) = 6"
proof -
  have "\<forall>p\<in>set (result_packets text_row [''a''] [[Some ''1''], [None]]). length p < 2 ^ 24"
    by (simp add: result_packets_def column_def_packet_def put_lenenc_str_def put_lenenc_def
        le16_def le32_def text_row_def text_cell_def eof_packet_def as_bytes_def)
  from result_set_stream [OF this, of ex_crates 1] show ?thesis by (simp add: result_packets_def)
qed

text \<open>C21. The zero-copy rows (integers, floats and texts written straight into the buffer) are the
  bytes of the same rows converted to text first.\<close>

theorem zero_copy_rows:
  "build_result_into x buf (QValueRows cols rs) seq =
   build_result_into x buf (QRows cols (map (map (to_display x)) rs)) seq"
  by (rule value_rows_as_text)

text \<open>A length-encoded text is read back whole at any offset, with the offset behind it.\<close>

theorem lenenc_text_read_back:
  assumes "length s < 2 ^ 24"
  shows "read_lenenc_bytes_as_str (pre @ put_lenenc_str s @ rest) (length pre) =
         (s, length pre + length (put_lenenc_str s))"
  using assms by (rule read_put_lenenc_str)

theorem lenenc_text_read_back_witness:
  "read_lenenc_bytes_as_str ([7] @ put_lenenc_str (replicate 300 CHR ''a'') @ [9]) 1 =
   (replicate 300 CHR ''a'', 304)"
  using lenenc_text_read_back [of "replicate 300 CHR ''a''" "[7]" "[9]"]
  by (simp add: put_lenenc_str_def put_lenenc_def le16_def as_bytes_def)

section \<open>Queries\<close>




text \<open>C23. Every row of the result of a SELECT, over one table, joined tables, groups or a derived table, has one
  cell for each column name of the result. (A set operation takes the names of its left side.)\<close>

theorem result_rows_fit:
  assumes "select x avx2 e db (query.Query body ob lim off) = Some r" "\<forall>all l r'. body \<noteq> SetOperation all l r'"
  shows "case r of
      QRows ns rs \<Rightarrow> \<forall>row\<in>set rs. length row = length ns
    | QValueRows ns rs \<Rightarrow> \<forall>row\<in>set rs. length row = length ns
    | _ \<Rightarrow> True"
  using select_shaped [OF assms(1)] assms(2) by (simp add: shaped_def)

theorem result_rows_fit_witness:
  "\<exists>ns rs. select ex_crates True ex_engine ''test'' (query.Query (SetSelect (Select False [SelAlias (EValue (SNumber ''1'')) ''a'',
       SelAlias (EValue (SSingleQuotedString ''x'')) ''b''] [] None None (GroupExprs []))) None None None) = Some (QRows ns rs) \<and>
     rs \<noteq> [] \<and> (\<forall>row\<in>set rs. length row = length ns)"
proof -
  let ?b = "SetSelect (Select False [SelAlias (EValue (SNumber ''1'')) ''a'', SelAlias (EValue (SSingleQuotedString ''x'')) ''b'']
      [] None None (GroupExprs []))"
  have "\<exists>ns rs. select ex_crates True ex_engine ''test'' (query.Query ?b None None None) = Some (QRows ns rs) \<and> rs \<noteq> []"
    by (simp add: select_nofrom_def nofrom_item_def item_expr_def)
  then obtain ns rs where r: "select ex_crates True ex_engine ''test'' (query.Query ?b None None None) = Some (QRows ns rs)" "rs \<noteq> []"
    by blast
  have "\<forall>all l r'. ?b \<noteq> SetOperation all l r'" by simp
  from result_rows_fit [OF r(1) this] r show ?thesis by auto
qed






text \<open>C25. The join loop of a query gives, for each left row in order, its matching right rows in order,
  and for a LEFT JOIN one row of NULLs where there is none.\<close>

theorem join_matches:
  assumes "join_ok x cols on left right"
  shows "join_rows x cols on is_left n left right = Some (concat (map (\<lambda>l.
      if matches x cols on right l = [] \<and> is_left then [l @ replicate n Null]
      else map (\<lambda>r. l @ r) (matches x cols on right l)) left))"
  using assms by (rule join_rows_concat)

definition ex_on :: "query expr" where
  "ex_on = EBinaryOp (EIdentifier ''a'') OpEq (EIdentifier ''b'')"

definition ex_pair :: "column list" where
  "ex_pair =
     [\<lparr> col_name = ''a'', col_type = CInt, nullable = True, primary_key = False \<rparr>,
      \<lparr> col_name = ''b'', col_type = CInt, nullable = True, primary_key = False \<rparr>]"

lemma ex_on_equal: "eval_opt_where ex_crates [VInt i, VInt j] ex_pair (Some ex_on) = Some (i = j)"
proof -
  have "col_position ex_pair ''a'' = Some 0" "col_position ex_pair ''b'' = Some 1" by code_simp+
  then have "eval_row_expr ex_crates [VInt i, VInt j] ex_pair (EIdentifier ''a'' :: query expr) = Some (VInt i)"
    "eval_row_expr ex_crates [VInt i, VInt j] ex_pair (EIdentifier ''b'' :: query expr) = Some (VInt j)"
    using plain_column_value [of ex_pair "EIdentifier ''a''" "''a''" 0 ex_crates "[VInt i, VInt j]"]
      plain_column_value [of ex_pair "EIdentifier ''b''" "''b''" 1 ex_crates "[VInt i, VInt j]"]
    by (simp_all add: plain_column_def column_name_def cell_or_null_def vec_get_def)
  then show ?thesis
    by (simp add: eval_opt_where_def ex_on_def eval_cond_compare compare_op_def) (metis signed_word_eqI)
qed

theorem join_matches_witness:
  "join_rows ex_crates ex_pair (Some ex_on) True 1 [[VInt 1], [VInt 2]] [[VInt 2], [VInt 3]] =
   Some [[VInt 1, Null], [VInt 2, VInt 2]]"
proof -
  have ok: "join_ok ex_crates ex_pair (Some ex_on) [[VInt 1], [VInt 2]] [[VInt 2], [VInt 3]]"
    by (simp add: join_ok_def ex_on_equal del: not_None_eq)
  show ?thesis
    unfolding join_matches [OF ok] by (simp add: matches_def ex_on_equal)
qed

text \<open>C26. \<open>SELECT COUNT(...) ... GROUP BY ...\<close>: one row per key that occurs, in ascending order of
  the keys, with the number of its rows; the counts add up to the matching rows.\<close>

theorem group_counts:
  assumes "where_rows x (columns t) w (rows t) = Some rs" "to_upper f = ''COUNT''"
  shows "\<exists>ks. select_groups x t gcols (Select d [SelExpr (EFunction f as False cs ov)] fs w None g) =
      Some (QRows (shown_items x [SelExpr (EFunction f as False cs ov)])
        (map (\<lambda>k. [Some (show_nat (length (filter (\<lambda>r. group_key x gcols r = k) rs)))]) ks)) \<and>
    set ks = group_key x gcols ` set rs \<and> sorted_wrt (\<lambda>a b. cmp_key a b = Less) ks \<and>
    sum_list (map (\<lambda>k. length (filter (\<lambda>r. group_key x gcols r = k) rs)) ks) = length rs"
proof -
  let ?gs = "group_rows (group_key x gcols) rs"
  have "map (\<lambda>k. length (filter (\<lambda>r. group_key x gcols r = k) rs)) (map fst ?gs) = map (\<lambda>g. length (snd g)) ?gs"
    by (auto simp: group_rows_iff)
  then have "sum_list (map (\<lambda>k. length (filter (\<lambda>r. group_key x gcols r = k) rs)) (map fst ?gs)) = length rs"
    by (simp only: group_sizes)
  then show ?thesis
    using select_groups_count [OF assms] group_keys [of "group_key x gcols" rs]
      group_rows_sorted [of "group_key x gcols" rs] by blast
qed

theorem group_counts_witness:
  "\<exists>ks. select_groups ex_crates ex_table [1] (Select False [SelExpr (EFunction ''count'' None False [] None)] [] None None
      (GroupExprs [EIdentifier ''name''])) =
      Some (QRows (shown_items ex_crates [SelExpr (EFunction ''count'' None False [] None)])
        (map (\<lambda>k. [Some (show_nat (length (filter (\<lambda>r. group_key ex_crates [1] r = k) (rows ex_table))))]) ks)) \<and>
    set ks = {[Some ''ann''], [Some ''bob'']}"
proof -
  have "where_rows ex_crates (columns ex_table) None (rows ex_table) = Some (rows ex_table)"
    by (subst where_rows_filter) (simp_all add: eval_opt_where_def)
  moreover have "to_upper ''count'' = ''COUNT''" by code_simp
  moreover have "group_key ex_crates [1] ` set (rows ex_table) = {[Some ''ann''], [Some ''bob'']}"
    by (simp add: group_key_def display_at_def ex_fields vec_get_def)
  ultimately show ?thesis
    using group_counts [of ex_crates ex_table None "rows ex_table" "''count''" "[1]" False None "[]" None "[]"
        "GroupExprs [EIdentifier ''name'']"] by metis
qed

text \<open>ROW_NUMBER numbers the rows of a partition 1, 2, ... each number once. RANK, DENSE_RANK and NTILE
  give the same numbers.\<close>

theorem row_numbers:
  assumes "win_fname w \<in> {''ROW_NUMBER'', ''RANK'', ''DENSE_RANK'', ''NTILE''}"
    and "P = {j. j < length rs \<and> partition_key ns w (rs ! j) = partition_key ns w (rs ! i)}"
  shows "window_value x ns w rs ` P = (\<lambda>k. Some (show_nat k)) ` {1..card P}"
proof -
  let ?is = "partition_of ns w rs i"
  have P: "P = set ?is" "card P = length ?is"
    using distinct_card [OF distinct_partition_of [of ns w rs i]] by (simp_all add: assms(2) set_partition_of)
  have "window_value x ns w rs j = Some (show_nat (row_rank ?is j))" if "j \<in> P" for j
    using that assms partition_of_same [of ns w rs j i] by (auto simp: window_value_def Let_def)
  then have "window_value x ns w rs ` P = (\<lambda>k. Some (show_nat k)) ` row_rank ?is ` P"
    by (simp add: image_image)
  also have "\<dots> = (\<lambda>k. Some (show_nat k)) ` {1..card P}"
    unfolding P(2) by (simp only: P(1) ranks_partition)
  finally show ?thesis .
qed

theorem row_numbers_witness:
  "window_value ex_crates [''k'', ''n''] \<lparr> win_col = 1, win_fname = ''ROW_NUMBER'', pb_cols = [], ob_cols = [] \<rparr>
     [[Some ''a'', None], [Some ''b'', None]] ` {0, 1} = {Some ''1'', Some ''2''}"
proof -
  let ?w = "\<lparr> win_col = 1, win_fname = ''ROW_NUMBER'', pb_cols = [], ob_cols = [] \<rparr>"
  let ?rs = "[[Some ''a'', None], [Some ''b'', None]]"
  have "{0, 1} = {j. j < length ?rs \<and> partition_key [''k'', ''n''] ?w (?rs ! j) = partition_key [''k'', ''n''] ?w (?rs ! 0)}"
    by (auto simp: partition_key_def)
  moreover have "win_fname ?w \<in> {''ROW_NUMBER'', ''RANK'', ''DENSE_RANK'', ''NTILE''}" by simp
  ultimately have "window_value ex_crates [''k'', ''n''] ?w ?rs ` {0, 1} = (\<lambda>k. Some (show_nat k)) ` {1..card {0 :: nat, 1}}"
    by (intro row_numbers)
  moreover have "{1..card {0 :: nat, 1}} = {1, 2}" by auto
  moreover have "show_nat 1 = ''1''" "show_nat 2 = ''2''" by code_simp+
  ultimately show ?thesis by simp
qed

text \<open>The value of a name in HAVING is found exactly when its chain of aliases ends; where an alias leads
  back to itself the evaluation recurs without end.\<close>

theorem having_name_returns:
  "eval_having_agg_val x rs cols als (EIdentifier n) \<noteq> None \<longleftrightarrow> alias_ends als n"
  by (rule having_value_iff)

section \<open>Accounts\<close>



lemma ex_sha1_digest: "digest20 ex_sha1"
  by (auto simp: digest20_def ex_sha1_def)

definition ex_user :: db_user where
  "ex_user = \<lparr> password_sha1_sha1 = ex_sha1 (ex_sha1 (as_bytes ''pw'')), allowed_dbs = Some {''test''},
               can_write = False, is_root = False \<rparr>"

definition ex_users_engine :: engine where
  "ex_users_engine = ex_engine\<lparr> users := [''root'' \<mapsto> ex_user\<lparr> can_write := True, is_root := True \<rparr>, ''ann'' \<mapsto> ex_user] \<rparr>"

lemma ex_insert_parsed: "builtin v cur ex_insert e = None"
proof -
  have u: "to_upper (trim ex_insert) = ''INSERT INTO T VALUES (3, NULL)''" by code_simp
  have "builtin_select cur ''INSERT INTO T VALUES (3, NULL)'' = None" by code_simp
  moreover have "user_stmt v ex_insert ''INSERT INTO T VALUES (3, NULL)'' e = None"
    by (simp add: user_stmt_def starts_with_def)
  moreover have "info_view v ''INSERT INTO T VALUES (3, NULL)'' e = None"
    unfolding info_view_def by (simp, code_simp)
  moreover have "show_command cur ex_insert ''INSERT INTO T VALUES (3, NULL)'' e = None" "\<not> ignored ''INSERT INTO T VALUES (3, NULL)''"
    by (simp_all add: show_command_def ignored_def starts_with_def)
  ultimately show ?thesis by (simp add: builtin_def u builtin_read_def starts_with_def)
qed

text \<open>C27. A nonempty response passes the check against the stored double hash exactly when it is the
  native-password response, for this scramble, to some 20-byte string whose digest is the stored hash; the
  check against a plain password accepts the response to that password's digest only.\<close>

theorem native_password_checks:
  assumes "digest20 sha1" "response \<noteq> []"
  shows "verify_native_password_hash sha1 hash2 scramble response =
      (\<exists>h. length h = 20 \<and> sha1 h = hash2 \<and> response = native_response sha1 h scramble) \<and>
    verify_native_password sha1 password scramble response =
      (response = native_response sha1 (sha1 (as_bytes password)) scramble)"
  using verify_hash_iff [OF assms] verify_password_iff [OF assms] by blast

theorem native_password_checks_witness:
  "verify_native_password_hash ex_sha1 (double_sha1 ex_sha1 (as_bytes ''pw'')) [3]
     (native_response ex_sha1 (ex_sha1 (as_bytes ''pw'')) [3])"
proof -
  let ?h = "ex_sha1 (as_bytes ''pw'')"
  have len: "length ?h = 20" using ex_sha1_digest by simp
  then have "length (native_response ex_sha1 ?h [3]) = 20" using ex_sha1_digest by simp
  then have ne: "native_response ex_sha1 ?h [3] \<noteq> []" by auto
  show ?thesis
    using native_password_checks [OF ex_sha1_digest ne, of "double_sha1 ex_sha1 (as_bytes ''pw'')" "[3]" "''pw''"] len
    unfolding double_sha1_def by blast
qed

text \<open>C28. CREATE USER stores an account its client can log in with: the response packet a client computes
  from the password passes the handshake, whatever the scramble.\<close>

theorem created_user_logs_in:
  assumes "quote \<notin> set n" "quote \<notin> set p" "n \<noteq> []" "n \<noteq> ''root''" "users e n = None" "digest20 sha1"
    and "0 \<notin> set (as_bytes n)" "trim_char backtick n = n" "length header = 32"
    and "get32 (header ! 0) (header ! 1) (header ! 2) (header ! 3) AND push_bit 3 1 = 0"
  shows "\<exists>e'. exec_create_user sha1 (''CREATE USER '' @ account_text n p) e = Some (e', q_ok 0 0) \<and>
    (\<forall>scramble. handshake_payload sha1 root_pw scramble
       (client_response header n (native_response sha1 (sha1 (as_bytes p)) scramble)) e' = HsAccept n None)"
proof -
  let ?e = "put_user n (fresh_user sha1 p) e"
  have "users ?e n = Some (fresh_user sha1 p)" by (simp add: put_user_def)
  moreover have "password_sha1_sha1 (fresh_user sha1 p) = double_sha1 sha1 (as_bytes p)"
    by (simp add: fresh_user_def)
  ultimately show ?thesis
    using create_user_stored [OF assms(1-5), of sha1] client_accepted [OF assms(6,9,10,7,8,3)] by blast
qed

lemma ex_bob:
  "quote \<notin> set ''bob''" "quote \<notin> set ''pw''" "''bob'' \<noteq> []" "''bob'' \<noteq> ''root''"
  "users ex_users_engine ''bob'' = None" "0 \<notin> set (as_bytes ''bob'')" "trim_char backtick ''bob'' = ''bob''"
  by code_simp+

lemma ex_header:
  "length (replicate 32 0) = 32"
  "get32 (replicate 32 0 ! 0) (replicate 32 0 ! 1) (replicate 32 0 ! 2) (replicate 32 0 ! 3) AND push_bit 3 1 = 0"
  by (simp_all add: get32_def)

theorem created_user_logs_in_witness:
  "\<exists>e'. exec_create_user ex_sha1 (''CREATE USER '' @ account_text ''bob'' ''pw'') ex_users_engine = Some (e', q_ok 0 0) \<and>
     handshake_payload ex_sha1 [] [5] (client_response (replicate 32 0) ''bob''
       (native_response ex_sha1 (ex_sha1 (as_bytes ''pw'')) [5])) e' = HsAccept ''bob'' None"
  using created_user_logs_in [OF ex_bob(1-5) ex_sha1_digest ex_bob(6,7) ex_header, of "[]"] by blast

text \<open>C29. GRANT panics on every statement that says whom it grants to, and is a syntax error on every other:
  no GRANT is ever carried out.\<close>

theorem grant_always_fails:
  "exec_grant sha1 sql e =
     (if contains '' TO '' (to_upper sql) then None
      else Some (e, QErr 1064 (''GRANT: syntax error'' @ dash @ ''missing TO'')))"
  by (auto simp: exec_grant_def contains_def ok_or_unwrap_err_def)



text \<open>Whatever bytes a client sends after the handshake, as any account, the account root is still there
  and still root.\<close>

theorem root_survives:
  assumes "root_kept (snd (snd sce))" "serve v buf sce = Some (st, out)"
  shows "root_kept (snd (served_server st))"
  using assms by (rule root.served)

lemma ex_drop_root:
  "execute v ''DROP USER root'' cur user (c, e) = Some ((c, e), QErr 1396 ''Cannot drop root user'')"
proof -
  have "builtin_select cur (to_upper (trim ''DROP USER root'')) = None" by code_simp
  moreover have "to_upper (trim ''DROP USER root'') = ''DROP USER ROOT''" "trim ''DROP USER root'' = ''DROP USER root''"
    "host_free (strip_quotes (trim '' root'')) = ''root''" by code_simp+
  ultimately show ?thesis
    by (simp add: execute_def builtin_def user_stmt_def starts_with_def exec_drop_user_def str_from_def Let_def)
qed

theorem root_survives_witness:
  "\<exists>sce out. serve ex_env (encode_packet (3 # as_bytes ''DROP USER root'') 0)
      (new_session ''ann'' None, [], ex_users_engine) = Some (Waiting sce [], out) \<and> root_kept (snd (snd sce))"
proof -
  let ?sce = "(new_session ''ann'' None, [], ex_users_engine)"
  have cmd: "parse_command (3 # as_bytes ''DROP USER root'') = command.Query ''DROP USER root''" by code_simp
  have "plain_text ''DROP USER root''" by code_simp
  then have "\<exists>out. handle_command ex_env (3 # as_bytes ''DROP USER root'') ?sce = Some (Continue ?sce out)"
    by (simp add: handle_command_def cmd plain_query run_sql_def l0_lookup_def new_session_def ex_users_engine_def
        ex_engine_def ex_drop_root is_err_def)
  moreover have "decode_packet (encode_packet (3 # as_bytes ''DROP USER root'') 0) =
      Some (3 # as_bytes ''DROP USER root'', 0, [])"
    using decode_encode_packet [of "3 # as_bytes ''DROP USER root''" 0 "[]"] by (simp add: as_bytes_def)
  moreover have "serve ex_env [] ?sce = Some (Waiting ?sce [], [])" by (simp add: serve.simps decode_packet_def)
  ultimately obtain out where run: "serve ex_env (encode_packet (3 # as_bytes ''DROP USER root'') 0) ?sce = Some (Waiting ?sce [], out)"
    by (auto simp: serve.simps [of _ "encode_packet _ _"])
  have "root_kept (snd (snd ?sce))" by (simp add: root_kept_def ex_users_engine_def)
  from root_survives [OF this run] run show ?thesis by (auto simp: served_server_def)
qed

text \<open>C31. A statement of an account without the write privilege leaves every database as it is, unless it
  is TRUNCATE or ALTER TABLE, which the check of the privileges lets through.\<close>

theorem read_only_account:
  assumes "users (snd ce) user = Some d" "\<not> can_write d"
    and "\<And>ss. snd (parse_cached v sql (fst ce)) = Inr ss \<Longrightarrow> \<not> unchecked_writes ss"
    and "execute v sql cur user ce = Some (ce', r)"
  shows "databases (snd ce') = databases (snd ce)"
  using assms by (rule execute_read_only)

theorem read_only_account_witness:
  "\<exists>ce' r. execute ex_env ex_insert (Some ''test'') ''ann'' ([], ex_users_engine) = Some (ce', r) \<and>
     databases (snd ce') = databases ex_users_engine"
proof -
  have ann: "users (snd ([] :: stmt_cache, ex_users_engine)) ''ann'' = Some ex_user" "\<not> can_write ex_user"
    by (simp_all add: ex_users_engine_def ex_user_def)
  have parse: "snd (parse_cached ex_env ex_insert (fst ([] :: stmt_cache, ex_users_engine))) =
      Inr [StInsert ''t'' [] False (Some ex_values)]"
    by (simp add: parse_cached_eq ex_env_def)
  then have "\<not> unchecked_writes ss"
    if "snd (parse_cached ex_env ex_insert (fst ([] :: stmt_cache, ex_users_engine))) = Inr ss" for ss
    using that by (auto simp: unchecked_writes_def)
  note ro = read_only_account [OF ann this]
  have "privilege_error ''ann'' (Some ''test'') True ex_users_engine \<noteq> None"
    using ann by (intro privilege_error_denies) simp_all
  then obtain err where "privilege_error ''ann'' (Some ''test'') True ex_users_engine = Some err" by blast
  moreover obtain c where "parse_cached ex_env ex_insert [] = (c, Inr [StInsert ''t'' [] False (Some ex_values)])"
    using parse by (metis fst_conv prod.collapse)
  ultimately obtain ce' r where "execute ex_env ex_insert (Some ''test'') ''ann'' ([], ex_users_engine) = Some (ce', r)"
    by (auto simp: execute_def ex_insert_parsed checked_def needs_write_def)
  then show ?thesis using ro by fastforce
qed

section \<open>Statements and caches\<close>

text \<open>C32. The statement cache never holds more than 8193 entries, every entry is what the parser gave for a
  text with its hash, and a text whose hash no differently parsed text shares is answered as the parser
  answers it.\<close>

theorem statement_cache:
  assumes "cache_sound v c" "length c \<le> 8193"
    and "\<And>sql'. sql_key v sql' = sql_key v sql \<Longrightarrow> env_parse v sql' = env_parse v sql"
  shows "cache_sound v (fst (parse_cached v sql c)) \<and> length (fst (parse_cached v sql c)) \<le> 8193 \<and>
    snd (parse_cached v sql c) = parsed v sql"
  using parse_cached_sound [OF assms(1)] parse_cached_bounded [OF assms(2)] parse_cached_parser [OF assms(1)] assms(3)
  by blast

theorem statement_cache_witness:
  "snd (parse_cached (ex_env\<lparr> env_parse := \<lambda>_. Inr [StOther 0] \<rparr>) ''x'' []) = Inr [StOther 0]"
proof -
  let ?v = "ex_env\<lparr> env_parse := \<lambda>_. Inr [StOther 0] \<rparr>"
  have "cache_sound ?v []" by (simp add: cache_sound_def)
  then have "snd (parse_cached ?v ''x'' []) = parsed ?v ''x''" using statement_cache [of ?v "[]" "''x''"] by simp
  then show ?thesis by (simp add: parsed_def)
qed

section \<open>Sessions\<close>

text \<open>C33. How the client's bytes are split into reads does not matter: a session that reads them piece by
  piece answers with the bytes, and ends in the state, of one that has them all at once.\<close>

theorem reads_do_not_matter:
  assumes "\<forall>r\<in>set rs. r \<noteq> []"
  shows "run_session v a rs sce = serve v (a @ concat rs) sce"
  using assms by (rule session_reads)

theorem reads_do_not_matter_witness:
  "run_session ex_env [] [[1], [0, 0], [0, 14]] (new_session ''ann'' None, [], ex_users_engine) =
   serve ex_env [1, 0, 0, 0, 14] (new_session ''ann'' None, [], ex_users_engine)"
  using reads_do_not_matter [of "[[1], [0, 0], [0, 14]]" ex_env "[]" "(new_session ''ann'' None, [], ex_users_engine)"]
  by simp

text \<open>The packets written one by one for a result, in the text and in the binary protocol, are the bytes
  built in one buffer, and the constant reply to \<open>SELECT 1\<close> is the encoding of its result.\<close>

theorem replies_agree:
  "send_result x r seq = build_result_into x [] r seq \<and>
   send_result_binary x r seq = build_binary_result_into x [] r seq \<and>
   SELECT_1_RESPONSE = build_result_into x [] (QRows [''1''] [[Some ''1'']]) 1"
  by (intro conjI send_result_writes select_1_bytes)

text \<open>C34. The same statement sent twice in a row is executed once: the second time the cached answer is
  sent and the server's state does not change, for an INSERT as for a SELECT.\<close>

theorem repeated_statement:
  assumes "plain_text sql" "l0_lookup v sql s (snd ce) = None" "\<not> is_err r"
    and "execute v sql (current_db s) (effective_user s) ce = Some (ce1, r)"
  shows "\<exists>s1 out. handle_query v sql (s, ce) = Some (Continue (s1, ce1) out) \<and>
    handle_query v sql (s1, ce1) = Some (Continue (s1, ce1) out)"
  using repeated_query [OF assms(1,2,4,3)] .

lemma ex_insert_runs:
  "\<exists>ce i t. execute ex_env ex_insert (Some ''test'') ''root'' ([], ex_users_engine) = Some (ce, QOk 1 i) \<and>
     get_table (snd ce) ''test'' ''t'' = Some t \<and> rows t = rows ex_table @ [[VInt 3, Null]]"
proof -
  let ?e = ex_users_engine
  have tab: "get_table ?e ''test'' ''t'' = Some ex_table" and dbs: "databases ?e ''test'' \<noteq> None"
    by (simp_all add: ex_users_engine_def ex_engine_def get_table_def)
  have q: "qualified_name id ''test'' ''t'' = (''test'', ''t'')" by code_simp
  have three: "parse_i64 ''3'' = Some 3" by code_simp
  have "insert_one ex_crates False [] [VInt 3, Null] ex_table = Some (push_row ex_crates [VInt 3, Null] (advance_auto [VInt 3, Null] ex_table))"
    by (simp add: insert_one_def build_row_def)
  moreover have "rows (push_row ex_crates row (advance_auto row t)) = rows t @ [row]" for row t
    by (simp add: push_row_def push_stores_def push_index_def advance_auto_simps Let_def split: option.split)
  ultimately obtain t where t: "insert_one ex_crates False [] [VInt 3, Null] ex_table = Some t" "rows t = rows ex_table @ [[VInt 3, Null]]"
    by auto
  obtain e1 i where e1: "exec_stmt ex_env (Some ''test'') (StInsert ''t'' [] False (Some ex_values)) ?e = Some (e1, QOk 1 i)"
      "get_table e1 ''test'' ''t'' = Some t"
  proof -
    have "map (map (expr_to_value ex_crates)) [[EValue (SNumber ''3''), EValue SNull :: query expr]] = [[VInt 3, Null]]"
      by (simp add: three number_to_value_def)
    moreover have "insert_all ex_crates False (make_col_map (columns ex_table) []) [[VInt 3, Null]] ex_table = Some t"
      using t(1) by (simp add: make_col_map_def)
    moreover obtain d where d: "databases ?e ''test'' = Some d" "tables d ''t'' = Some ex_table"
      using tab by (auto simp: get_table_def bind_eq_Some_conv)
    ultimately have "insert_values ex_crates ''test'' ''t'' (Some [[EValue (SNumber ''3''), EValue SNull]]) False [] ?e =
        Some ((put_table ''test'' ''t'' t ?e)\<lparr> last_insert_id := last_pk t \<rparr>, QOk 1 (last_pk t))"
      by (simp add: insert_values_def q insert_source_rows_def with_table_def q_ok_def del: insert_all.simps)
    then have "exec_stmt ex_env (Some ''test'') (StInsert ''t'' [] False (Some ex_values)) ?e =
        Some ((put_table ''test'' ''t'' t ?e)\<lparr> last_insert_id := last_pk t \<rparr>, QOk 1 (last_pk t))"
      by (simp add: exec_stmt_def insert_stmt_def ex_values_def or_test_def ex_env_def)
    then show thesis using that d by (simp add: get_table_def put_table_def)
  qed
  obtain c where c: "parse_cached ex_env ex_insert [] = (c, Inr [StInsert ''t'' [] False (Some ex_values)])"
    by (simp add: parse_cached_eq ex_env_def)
  have "privilege_error ''root'' (Some ''test'') True ?e = None"
    by (simp add: privilege_error_def ex_users_engine_def ex_user_def)
  then have "execute ex_env ex_insert (Some ''test'') ''root'' ([], ?e) = Some ((c, bump_write_gen e1), QOk 1 i)"
    by (simp add: execute_def ex_insert_parsed c checked_def needs_write_def batch_db_def e1 bump_if_ok_def)
  moreover have "get_table (bump_write_gen e1) ''test'' ''t'' = Some t"
    using e1(2) by (simp add: get_table_def bump_write_gen_def)
  ultimately show ?thesis using t(2) by force
qed

theorem repeated_statement_witness:
  "\<exists>s ce out t. handle_query ex_env ex_insert (new_session ''root'' (Some ''test''), [], ex_users_engine) =
      Some (Continue (s, ce) out) \<and>
    handle_query ex_env ex_insert (s, ce) = Some (Continue (s, ce) out) \<and>
    get_table (snd ce) ''test'' ''t'' = Some t \<and> rows t = rows ex_table @ [[VInt 3, Null]]"
proof -
  have plain: "plain_text ex_insert" by code_simp
  obtain ce i t where run: "execute ex_env ex_insert (Some ''test'') ''root'' ([], ex_users_engine) = Some (ce, QOk 1 i)"
    "get_table (snd ce) ''test'' ''t'' = Some t" "rows t = rows ex_table @ [[VInt 3, Null]]"
    using ex_insert_runs by blast
  have "l0_lookup ex_env ex_insert (new_session ''root'' (Some ''test'')) (snd ([] :: stmt_cache, ex_users_engine)) = None"
    by (simp add: l0_lookup_def new_session_def)
  from repeated_statement [OF plain this, of "QOk 1 i" ce] run show ?thesis
    by (cases ce) (auto simp: new_session_def is_err_def)
qed




text \<open>C36. BEGIN and a later ROLLBACK of one session put back every table of every database that has not
  been dropped, whatever statements this and the other sessions ran in between.\<close>

theorem session_rollback:
  assumes "handle_query v ''BEGIN'' (s, c, e) = Some (Continue (s1, c1, e1) out1)" "txn_snapshot s2 = txn_snapshot s1"
    and "databases e db \<noteq> None" "databases e2 db \<noteq> None"
  shows "\<exists>s3 e3. handle_query v ''ROLLBACK'' (s2, c2, e2) = Some (Continue (s3, c2, e3) ok_reply) \<and>
    txn_snapshot s3 = None \<and> get_table e3 db t = get_table e db t"
proof -
  have "txn_snapshot s2 = Some (take_snapshot e)"
    using assms(1,2) txn_begin [OF begin_text] by auto
  then have "handle_query v ''ROLLBACK'' (s2, c2, e2) =
      Some (Continue (s2\<lparr> txn_snapshot := None \<rparr>, c2, restore_snapshot (take_snapshot e) e2) ok_reply)"
    by (rule txn_rollback [OF rollback_text])
  moreover have "get_table (restore_snapshot (take_snapshot e) e2) db t = get_table e db t"
    using assms(3,4) by (auto simp: get_table_def restore_snapshot_def take_snapshot_def bump_write_gen_def)
  ultimately show ?thesis by simp
qed

theorem session_rollback_witness:
  "\<exists>s1 s3 e3. handle_query ex_env ''BEGIN'' (new_session ''ann'' None, [], ex_users_engine) =
      Some (Continue (s1, [], ex_users_engine) ok_reply) \<and>
    handle_query ex_env ''ROLLBACK'' (s1, [], ex_users_engine\<lparr> databases := [''test'' \<mapsto> \<lparr> db_name = ''test'', tables = Map.empty \<rparr>] \<rparr>) =
      Some (Continue (s3, [], e3) ok_reply) \<and> get_table e3 ''test'' ''t'' = Some ex_table"
proof -
  obtain s1 where started: "handle_query ex_env ''BEGIN'' (new_session ''ann'' None, [], ex_users_engine) =
      Some (Continue (s1, [], ex_users_engine) ok_reply)"
    using txn_begin [OF begin_text] by blast
  have "databases ex_users_engine ''test'' \<noteq> None" "get_table ex_users_engine ''test'' ''t'' = Some ex_table"
    by (simp_all add: ex_users_engine_def ex_engine_def get_table_def)
  then show ?thesis
    using session_rollback [OF started refl, of "''test''"
        "ex_users_engine\<lparr> databases := [''test'' \<mapsto> \<lparr> db_name = ''test'', tables = Map.empty \<rparr>] \<rparr>" "[]" "''t''"] started
    by fastforce
qed

text \<open>Identifiers of prepared statements are not reused: a new one is free, and the statement and its
  parameter count are found under it.\<close>

theorem prepare_is_fresh:
  assumes "prepared_ok s" "next_stmt_id s < - 1" "prepare sql s = (s', out)"
  shows "prepared s (next_stmt_id s) = None \<and>
    prepared s' = (prepared s)(next_stmt_id s \<mapsto> \<lparr> ps_sql = sql, ps_params = count_params sql \<rparr>) \<and> prepared_ok s'"
  using assms by (rule prepare_fresh)

theorem prepare_is_fresh_witness:
  "prepared_ok (fst (prepare ''SELECT ?'' (new_session ''root'' None)))"
proof -
  obtain s' out where p: "prepare ''SELECT ?'' (new_session ''root'' None) = (s', out)" by fastforce
  have "next_stmt_id (new_session ''root'' None) < - 1" by (simp add: new_session_def) code_simp
  from prepare_is_fresh [OF prepared_ok_new this p] p show ?thesis by simp
qed

text \<open>C37. A first packet with fewer than 33 bytes of payload opens a session as root with no check.\<close>

theorem short_packet_is_root:
  assumes "buf \<noteq> []" "decode_packet buf = Some (p, s, rest)" "length p < 33"
  shows "handshake_loop sha1 root_pw scramble buf reads ce = Some (Opened (new_session ''root'' None, ce) [] rest reads)"
  using handshake_whole [OF assms(1,2)] short_packet_opens [OF assms(3)] by simp

theorem short_packet_is_root_witness:
  "handshake_loop ex_sha1 ''secret'' [5] [0, 0, 0, 1] [] ([], ex_users_engine) = Some (Opened (new_session ''root'' None, [], ex_users_engine) [] [] [])"
  by (rule short_packet_is_root [where p = "[]" and s = 1]) (simp_all add: decode_packet_def u24_le_def)

text \<open>C38. The handshake loop returns exactly when a read delivers a whole packet at once or ends the stream;
  on a part of a packet it never returns.\<close>

theorem handshake_returns:
  "(\<exists>o'. handshake_loop sha1 root_pw scramble buf reads ce = Some o') \<longleftrightarrow>
   (case (buf, reads) of
      ([], []) \<Rightarrow> True
    | ([], r # _) \<Rightarrow> r = [] \<or> (\<exists>p. decode_packet r = Some p)
    | (b, _) \<Rightarrow> (\<exists>p. decode_packet b = Some p))"
  using handshake_returns_iff [of sha1 root_pw scramble buf reads ce] by (simp split: list.split)

section \<open>Dumps\<close>

text \<open>A text in a dump, with its quotes and backslashes escaped, is read back whole as a literal in which
  a backslash escapes, whatever follows it.\<close>

theorem dumped_text_read_back:
  "\<exists>body. dump_value x (VText s) = quote # body \<and> read_quoted (body @ rest) = Some (s, rest)"
  using read_escaped [of s rest] by (simp add: dump_value_def quoted_quote)

section \<open>The running program\<close>

definition ex_web :: web where
  "ex_web =
     \<lparr> web_json_from = (\<lambda>_. Some (JObject [(''username'', JString ''admin''), (''password'', JString ''admin'')])),
       web_json_to = (\<lambda>_. []), web_login_html = [], web_ui_html = [], web_version = ''1'' \<rparr>"

definition ex_setting :: setting where
  "ex_setting = \<lparr> in_env = ex_env, in_web = ex_web, in_config = default_config, with_tls = False \<rparr>"

definition ex_started_service :: service where
  "ex_started_service =
     \<lparr> permits = 256, conns = Map.empty, web_store = Map.empty, shared = ([], new_engine ex_sha1 ''changeme'') \<rparr>"

lemma ex_start: "start_service ex_setting Map.empty = Some ex_started_service"
  by (simp add: start_service_def start_engine_def ex_setting_def ex_started_service_def default_config_def
      default_auth_def default_root_password_def ex_env_def MAX_CONNECTIONS_def)



text \<open>C12. A client that sends a part of a packet as its first bytes keeps its connection for ever, and 256 of
  them keep everyone out: whatever happens then, no permit is free and no connection changes.\<close>

theorem partial_packets_lock_out:
  assumes "start_service z fs = Some n0" "service_run z n0 n" "card {c. stuck (conns n c)} = 256"
    and "service_run z n n'"
  shows "permits n' = 0 \<and> conns n' = conns n"
  using run_invariant [OF assms(2) start_invariant [OF assms(1)]] locked_out [of n z n'] assms(3,4)
  by (simp add: MAX_CONNECTIONS_def)

theorem partial_packets_lock_out_witness:
  "\<exists>n. service_run ex_setting ex_started_service n \<and>
     (\<forall>n'. service_run ex_setting n n' \<longrightarrow> permits n' = 0 \<and> conns n' = conns n)"
proof -
  have "service_run ex_setting ex_started_service (filled 256 ex_started_service)"
    by (rule run_filled) (simp_all add: ex_started_service_def)
  with partial_packets_lock_out [OF ex_start this filled_stuck] show ?thesis by blast
qed

section \<open>The admin interface\<close>

definition ex_web_env :: env where
  "ex_web_env = ex_env\<lparr> env_crates := ex_crates\<lparr> hex_encode := (\<lambda>_. ''a1'') \<rparr> \<rparr>"

text \<open>C39. A request changes the engine only by a statement it runs as the user of a live session, and a request
  to the API without one is refused and changes nothing.\<close>

theorem api_needs_session:
  assumes "handle_request v w cfg now random raw (ss, ce) = Some ((ss', ce'), out)"
  shows "(ce' \<noteq> ce \<longrightarrow> (\<exists>u sql db r. live_user now raw ss = Some u \<and> execute v sql db u ce = Some (ce', r))) \<and>
    (live_user now raw ss = None \<and> starts_with ''/api/'' (snd (request_words raw)) \<and>
       fst (request_words raw) \<noteq> ''OPTIONS'' \<longrightarrow> out = unauthorized \<and> ce' = ce)"
proof (intro conjI impI)
  assume "ce' \<noteq> ce"
  from request_changes_engine [OF assms this] obtain t s sql db r
    where "extract_cookie raw ''session'' = Some t \<and> ss t = Some s \<and> now < ws_expires s \<and>
      execute v sql db (ws_username s) ce = Some (ce', r)" by blast
  then show "\<exists>u sql db r. live_user now raw ss = Some u \<and> execute v sql db u ce = Some (ce', r)"
    by (auto simp: live_user_def)
next
  assume a: "live_user now raw ss = None \<and> starts_with ''/api/'' (snd (request_words raw)) \<and>
    fst (request_words raw) \<noteq> ''OPTIONS''"
  have "request_words raw = (fst (request_words raw), snd (request_words raw))" by simp
  from api_unauthorized [OF _ this] a obtain ss2 where
    "handle_request v w cfg now random raw (ss, ce) = Some ((ss2, ce), unauthorized)" by blast
  then show "out = unauthorized" "ce' = ce" using assms by simp_all
qed

theorem api_needs_session_witness:
  "\<exists>ss. handle_request ex_web_env ex_web default_config 0 [] (cookie_request ''GET'' ''/api/users'' ''a1'' []) (Map.empty, [], ex_users_engine) =
     Some ((ss, [], ex_users_engine), unauthorized)"
proof -
  let ?raw = "cookie_request ''GET'' ''/api/users'' ''a1'' []"
  have path: "path_text ''/api/users''" by (simp add: path_text_def is_ws_def)
  have w: "request_words ?raw = (''GET'', ''/api/users'')" by (rule request_words_read [OF path]) simp
  have no: "live_user 0 ?raw Map.empty = None" by (simp add: live_user_def split: option.split)
  obtain ss' ce' out where r: "handle_request ex_web_env ex_web default_config 0 [] ?raw (Map.empty, [], ex_users_engine) = Some ((ss', ce'), out)"
    using api_unauthorized [OF no w, of ex_web_env ex_web default_config "[]" "([], ex_users_engine)"] by (auto simp: starts_with_def)
  from api_needs_session [OF r] no w r show ?thesis by (auto simp: starts_with_def)
qed

text \<open>A login the check accepts opens a session: until it expires, a statement sent with its cookie is run
  as the user who logged in.\<close>

theorem login_opens_session:
  assumes "web_json_from w body = Some j" "user = trim (default_str (json_str (json_field j ''username'')))" "user \<noteq> []"
    and "verify_login v cfg user (default_str (json_str (json_field j ''password''))) e"
    and "token_text (gen_token (env_crates v) random)" "later < now + SESSION_TTL"
    and "ss' = fst (handle_login v w cfg now random body ss e)"
  shows "handle_request v w cfg later random'
      (cookie_request ''POST'' ''/api/query'' (gen_token (env_crates v) random) body') (ss', ce) =
    map_option (\<lambda>(ce', out). ((ss', ce'), json_response out)) (api_query v w body' user ce)"
  using login_then_query [OF assms(1-6)] by (simp add: assms(7))

theorem login_opens_session_witness:
  "\<exists>ss'. handle_request ex_web_env ex_web default_config 5 []
      (cookie_request ''POST'' ''/api/query'' ''a1'' ''{}'') (ss', [], ex_users_engine) =
    map_option (\<lambda>(ce', out). ((ss', ce'), json_response out)) (api_query ex_web_env ex_web ''{}'' ''admin'' ([], ex_users_engine))"
proof -
  let ?j = "JObject [(''username'', JString ''admin''), (''password'', JString ''admin'')]"
  have t: "gen_token (env_crates ex_web_env) [] = ''a1''" by (simp add: gen_token_def ex_web_env_def)
  have fields: "json_str (json_field ?j ''username'') = Some ''admin''" "json_str (json_field ?j ''password'') = Some ''admin''"
    by (simp_all add: json_field_def json_str_def)
  have trim: "trim ''admin'' = ''admin''" by code_simp
  have login: "verify_login ex_web_env default_config ''admin'' ''admin'' e" for e
    by (simp add: verify_login_def default_config_def default_auth_def default_webui_admin_user_def default_webui_admin_password_def)
  have "token_text ''a1''" by (simp add: token_text_def is_digit_def is_lower_def)
  then show ?thesis
    using login_opens_session [of ex_web "[]" ?j "''admin''" ex_web_env default_config ex_users_engine "[]" 5 0 _ Map.empty "[]" "''{}''" "([], ex_users_engine)", unfolded fields t]
      trim login
    by (auto simp: ex_web_def default_str_def SESSION_TTL_def)
qed

text \<open>An account that does not exist, such as one dropped while it has a session, passes every privilege
  check and runs every statement as an account with all privileges.\<close>

theorem dropped_account_unrestricted:
  assumes "users e u = None" "users e r = Some d" "allowed_dbs d = None" "can_write d"
  shows "privilege_error u cur needs e = None \<and> execute v sql cur u (c, e) = execute v sql cur r (c, e)"
  using no_account_unchecked [OF assms(1)] dropped_account_is_root [OF assms] by simp

theorem dropped_account_unrestricted_witness:
  "execute ex_env ex_insert (Some ''test'') ''bob'' ([], new_engine ex_sha1 ''pw'') =
   execute ex_env ex_insert (Some ''test'') ''root'' ([], new_engine ex_sha1 ''pw'')"
  using dropped_account_unrestricted [of "new_engine ex_sha1 ''pw''" "''bob''" "''root''"] by (simp add: new_engine_def)

section \<open>The host\<close>

text \<open>C40. Closing the firewall removes the rules that opening it added and no other, whatever rules were added
  to the chain in between.\<close>

theorem firewall_restored:
  assumes "chain_laws sys ''iptables'' chain" "on_iptables fw" "fw_opened fw = []"
    and "open_firewall sys ps fw h = (fw', h1)" "mset (chain h2) = mset (chain h1) + others"
  shows "mset (chain (snd (close_firewall sys fw' h2))) = mset (chain h) + others \<and>
    fw_opened (fst (close_firewall sys fw' h2)) = []"
  using open_close_chain [OF assms] by blast

text \<open>A host that is its chain: which programs it has, and what \<open>iptables\<close> does.\<close>

definition ex_sys :: "string list list sys" where
  "ex_sys tool args h =
     (if tool = ''which'' then (Exited (args = [''iptables'']) [] [], h)
      else if tool = ''iptables''
      then (Exited (take 1 args = [''-D''] \<longrightarrow> drop 2 args \<in> set h) [] [],
            if take 1 args = [''-A''] then h @ [drop 2 args]
            else if take 1 args = [''-I''] then drop 2 args # h
            else if take 1 args = [''-D''] then remove1 (drop 2 args) h else h)
      else (Exited True [] [], h))"

lemma ex_sys_laws: "chain_laws ex_sys ''iptables'' id" "only_iptables ex_sys id"
  by (simp_all add: chain_laws_def only_iptables_def ex_sys_def succeeded_def)

definition ex_firewall :: firewall where
  "ex_firewall = \<lparr> fw_backend = Iptables, fw_tag = ''t'', fw_dry_run = False, fw_opened = [] \<rparr>"

theorem firewall_restored_witness:
  "\<exists>fw' h1. open_firewall ex_sys [(3306, ''tcp'')] ex_firewall [[''old'']] = (fw', h1) \<and> length h1 = 2 \<and>
     mset (snd (close_firewall ex_sys fw' ([''new''] # h1))) = {#[''old''], [''new'']#}"
proof -
  have fw: "on_iptables ex_firewall" "fw_opened ex_firewall = []" by (simp_all add: on_iptables_def ex_firewall_def)
  obtain fw' h1 where o: "open_firewall ex_sys [(3306, ''tcp'')] ex_firewall [[''old'']] = (fw', h1)" by fastforce
  have "length h1 = 2"
    using o by (auto simp: open_firewall_def ex_firewall_def open_rule_def run_def ex_sys_def apfst_def)
  moreover have "mset (id ([''new''] # h1)) = mset (id h1) + {#[''new'']#}" by simp
  from firewall_restored [OF ex_sys_laws(1) fw o this]
  have "mset (snd (close_firewall ex_sys fw' ([''new''] # h1))) = {#[''old''], [''new'']#}" by simp
  ultimately show ?thesis using o by blast
qed

text \<open>The process that set up ICMP protection holds the lock: as long as its entry in \<open>/proc\<close> is there and
  nobody writes the lock, every other process that sets up protection runs no program, changes nothing and does
  not own the guard.\<close>

theorem icmp_single_owner:
  assumes "setup_icmp sys True pid en (fs, h) = (g, fs1, h1)" "is_owner g"
    and "fs2 LOCK_FILE = fs1 LOCK_FILE" "fs2 (''/proc/'' @ show_nat (unat pid)) \<noteq> None"
  shows "setup_icmp sys' writable pid' en' (fs2, h2) = (no_guard en', fs2, h2)"
  using assms by (rule second_setup)

theorem icmp_single_owner_witness:
  "\<exists>g fs1 h1. setup_icmp ex_sys True 7 True ([''/proc/7'' \<mapsto> None], []) = (g, fs1, h1) \<and> is_owner g \<and>
     setup_icmp ex_sys True 8 True (fs1, h1) = (no_guard True, fs1, h1)"
proof -
  have pid: "''/proc/'' @ show_nat (unat (7 :: u32)) = ''/proc/7''" by (simp, code_simp)
  have free: "\<not> lock_is_held [''/proc/7'' \<mapsto> None]" by (simp add: lock_is_held_def LOCK_FILE_def)
  have det: "detect_icmp ex_sys [] = (IcmpIptables, [])"
    by (simp add: detect_icmp_def cmd_ok_eq ex_sys_def succeeded_def)
  have "fst (apply_rules ex_sys IcmpIptables [])"
    by (simp add: apply_rules_def input_rules_def cmd_ok_eq ex_sys_def succeeded_def Let_def)
  then obtain h1 where ap: "apply_rules ex_sys IcmpIptables [] = (True, h1)" by (metis prod.collapse)
  let ?fs = "write_lock True 7 [''/proc/7'' \<mapsto> None]"
  have s: "setup_icmp ex_sys True 7 True ([''/proc/7'' \<mapsto> None], []) =
      (\<lparr> is_owner = True, icmp_backend = IcmpIptables, icmp_enabled = True \<rparr>, ?fs, h1)"
    by (simp add: setup_icmp_def free det ap)
  have "?fs (''/proc/'' @ show_nat (unat (7 :: u32))) \<noteq> None"
    unfolding pid by (simp add: write_lock_def)
  then have "setup_icmp ex_sys True 8 True (?fs, h1) = (no_guard True, ?fs, h1)"
    by - (rule icmp_single_owner [OF s], simp, rule refl, assumption)
  then show ?thesis using s by (metis icmp_guard.select_convs(1))
qed

section \<open>A restart\<close>



text \<open>A parser that reads every CREATE DATABASE with the name as it is written, quoted or not.\<close>

definition ex_reads :: "string \<Rightarrow> string + stmt list" where
  "ex_reads sql =
     (if starts_with ''CREATE DATABASE IF NOT EXISTS '' sql
      then Inr [StCreateDatabase (trim_end_by (\<lambda>c. c = CHR '';'') (drop 30 sql))] else Inr [StOther 0])"


definition ex_restart_env :: env where
  "ex_restart_env = ex_env\<lparr> env_parse := ex_reads, env_walk := (\<lambda>_. [''shop'']) \<rparr>"











definition ex_platform :: "(unit, unit, unit, unit) platform" where
  "ex_platform =
     \<lparr> pl_tools = (\<lambda>_ _ h. (NotStarted [], h)), pl_toml = (\<lambda>_. None), pl_args = [], pl_dry_run = False,
       pl_web = ex_web,
       pl_tls = \<lparr> pem_cert = (\<lambda>_. None), pem_key = (\<lambda>_. None), self_signed = (\<lambda>_. None), server_config = (\<lambda>_ _. None) \<rparr> \<rparr>"





lemma ex_files_apart: "files_apart ex_platform default_config"
  unfolding files_apart_def ex_platform_def by (simp, code_simp)

lemma ex_boots:
  assumes "fs (config_path []) = None" "start_engine v default_config fs = Some ce"
  shows "\<exists>w p. program_step ex_platform {v} \<lparr> disk = fs, host = (), running = None \<rparr> Boots w \<and>
     running w = Some p \<and> permits (pr_service p) = 256 \<and> conns (pr_service p) = Map.empty"
proof -
  let ?w = "\<lparr> disk = fs, host = (), running = None \<rparr>"
  obtain r fs' h where b: "async_main ex_platform v True 1 (fs, ()) = (r, fs', h)"
    by (metis prod.exhaust)
  have cfg: "load_config (pl_toml ex_platform) (pl_args ex_platform) fs = Some default_config"
    using assms(1) by (simp add: load_config_def ex_platform_def)
  obtain fw g fs1 h1 where s: "start_host (pl_tools ex_platform) (pl_dry_run ex_platform) True 1 default_config (fs, ()) =
      ((fw, g), fs1, h1)" by (metis prod.exhaust)
  have "dump_path default_config \<noteq> LOCK_FILE" using ex_files_apart by (simp add: files_apart_def)
  from start_files [OF s this] have e: "start_engine v default_config fs1 = Some ce"
    using assms(2) by (simp add: start_engine_def)
  then obtain p where p: "r = Some p" "permits (pr_service p) = 256" "conns (pr_service p) = Map.empty"
    using b s cfg by (auto simp: async_main_def start_service_def Let_def MAX_CONNECTIONS_def)
  have "program_step ex_platform {v} ?w Boots \<lparr> disk = fs', host = h, running = r \<rparr>"
    using b by (intro program_step.boot) simp_all
  then show ?thesis using p by fastforce
qed



text \<open>C10. Whatever the clients of the two listeners send, in whatever order it is handled, and however often
  the program was started and ended before: the permits left and the open connections are 256 together, the
  account root is there and is root, no other account has a database it may use or the right to write, and
  every session's cache holds a whole reply or nothing.\<close>

theorem service_invariant:
  assumes "program_run pl V w evs w'" "running w = None" "running w' = Some p"
  shows "finite (dom (conns (pr_service p))) \<and>
    permits (pr_service p) + card (dom (conns (pr_service p))) = 256 \<and>
    root_kept (snd (shared (pr_service p))) \<and> others_powerless (snd (shared (pr_service p))) \<and>
    caches_ok (pr_service p)"
  using served_invariant [OF run_served [OF assms]] by (simp add: permits_ok_def MAX_CONNECTIONS_def)

theorem service_invariant_witness:
  "\<exists>w p. (\<exists>evs. program_run ex_platform {ex_env} \<lparr> disk = Map.empty, host = (), running = None \<rparr> evs w) \<and>
     running w = Some p \<and> permits (pr_service p) = 253 \<and> conns (pr_service p) 0 \<noteq> None \<and>
     root_kept (snd (shared (pr_service p)))"
proof -
  let ?w = "\<lparr> disk = Map.empty, host = (), running = None \<rparr>"
  have e: "start_engine ex_env default_config Map.empty = Some ([], new_engine (env_sha1 ex_env) (root_password (auth default_config)))"
    by (simp add: start_engine_def)
  obtain w1 p1 where boot: "program_step ex_platform {ex_env} ?w Boots w1" and p1: "running w1 = Some p1"
    "permits (pr_service p1) = 256" "conns (pr_service p1) = Map.empty" using ex_boots [OF _ e] by auto
  have "service_run (pr_setting p1) (pr_service p1) (filled 3 (pr_service p1))"
    by (rule run_filled) (simp_all add: p1)
  from serves [OF this, of w1] p1(1) obtain evs where
    run: "program_run ex_platform {ex_env} w1 evs (w1\<lparr> running := Some (p1\<lparr> pr_service := filled 3 (pr_service p1) \<rparr>) \<rparr>)"
    by auto
  have first: "program_run ex_platform {ex_env} ?w [Boots] w1"
    using program_run.then_step [OF program_run.nothing boot] by simp
  have all: "program_run ex_platform {ex_env} ?w ([Boots] @ evs) (w1\<lparr> running := Some (p1\<lparr> pr_service := filled 3 (pr_service p1) \<rparr>) \<rparr>)"
    by (rule program_run_append [OF first run])
  from service_invariant [OF all, of "p1\<lparr> pr_service := filled 3 (pr_service p1) \<rparr>"] all p1 show ?thesis
    by (intro exI [of _ "w1\<lparr> running := Some (p1\<lparr> pr_service := filled 3 (pr_service p1) \<rparr>) \<rparr>"]
        exI [of _ "p1\<lparr> pr_service := filled 3 (pr_service p1) \<rparr>"]) (auto simp: filled_def)
qed

text \<open>C15. A text in a table whose lines are a semicolon and a statement becomes a statement of the restore:
  whoever may write a row has the next start run the statement, as root.\<close>

theorem stored_text_runs_as_root:
  assumes "databases e n = Some d" "n \<notin> set builtin_schemas" "tables d t = Some tab" "r \<in> set (rows tab)"
    and "VText (hidden c s) \<in> set r" "one_line c s"
    and "n \<in> set (env_walk v (dom (databases e)))" "t \<in> set (env_walk v (dom (tables d)))"
  shows "\<exists>sqls sqls'. batches (lines (dump_sql v e)) [] = sqls @ [c # s @ '';''] @ sqls' \<and>
    (\<forall>v' ce. restore_sql v' (dump_sql v e) ce = run_batches v' (sqls @ [c # s @ '';''] @ sqls') (None, ce))"
proof -
  obtain sqls sqls' where "batches (lines (dump_sql v e)) [] = sqls @ (c # s @ '';'') # sqls'"
    using split_list [OF hidden_statement [OF assms]] by blast
  then show ?thesis by (intro exI [of _ sqls] exI [of _ sqls']) (simp add: restore_batches)
qed

definition ex_trap :: engine where
  "ex_trap = ex_users_engine\<lparr> databases := [''shop'' \<mapsto> \<lparr> db_name = ''shop'',
     tables = [''shop'' \<mapsto> ex_table\<lparr> rows := [[VInt 1, VText (hidden (CHR ''D'') ''ROP USER ann'')]] \<rparr>] \<rparr>] \<rparr>"

theorem stored_text_runs_as_root_witness:
  "\<exists>sqls sqls'. batches (lines (dump_sql ex_restart_env ex_trap)) [] = sqls @ [''DROP USER ann;''] @ sqls' \<and>
     (\<forall>v ce. restore_sql v (dump_sql ex_restart_env ex_trap) ce =
        run_batches v (sqls @ [''DROP USER ann;''] @ sqls') (None, ce))"
proof -
  let ?tab = "ex_table\<lparr> rows := [[VInt 1, VText (hidden (CHR ''D'') ''ROP USER ann'')]] \<rparr>"
  let ?d = "\<lparr> db_name = ''shop'', tables = [''shop'' \<mapsto> ?tab] \<rparr>"
  have d: "databases ex_trap ''shop'' = Some ?d" "tables ?d ''shop'' = Some ?tab" by (simp_all add: ex_trap_def)
  have n: "''shop'' \<notin> set builtin_schemas" by (simp add: builtin_schemas_def)
  have r: "[VInt 1, VText (hidden (CHR ''D'') ''ROP USER ann'')] \<in> set (rows ?tab)"
    "VText (hidden (CHR ''D'') ''ROP USER ann'') \<in> set [VInt 1, VText (hidden (CHR ''D'') ''ROP USER ann'')]" by simp_all
  have "\<not> is_ws (CHR ''D'')" by code_simp
  then have l: "one_line (CHR ''D'') ''ROP USER ann''" by (simp add: one_line_def quote_def backslash_def)
  have walk: "''shop'' \<in> set (env_walk ex_restart_env S)" for S by (simp add: ex_restart_env_def)
  show ?thesis using stored_text_runs_as_root [OF d(1) n d(2) r l walk walk] by (simp only: append_Cons append_Nil)
qed

end
